(* ===== verification/Prelude.thy ===== *)
theory Prelude
  imports Main "HOL-Library.Signed_Division"
begin

text \<open>
  What every component shares: Rust's \<open>i64\<close> arithmetic, the string operations of the
  standard library that the sources call, and results.

  An \<open>i64\<close> is an \<open>int\<close> kept in range by \<open>wrap64\<close>, written wherever an operation
  of the source can leave the range: the release profile of \<open>src/Cargo.toml\<close> does not set
  \<open>overflow-checks\<close>, so \<open>+\<close>, \<open>-\<close> and \<open>*\<close> wrap. Rust's \<open>/\<close> and \<open>%\<close>
  are \<open>sdiv\<close> and \<open>smod\<close> (towards zero), \<open>div_euclid\<close> and \<open>rem_euclid\<close> by a
  positive constant are \<open>div\<close> and \<open>mod\<close>.

  A string is a list of \<open>char\<close>, each one a Unicode scalar below 256. A fallible
  function returns \<open>'e + 'a\<close>, with \<open>Inl\<close> for the error.
\<close>

named_theorems i64_simps \<open>moving and removing \<open>wrap64\<close>\<close>
named_theorems str_simps \<open>the string operations of the standard library\<close>

section \<open>64-bit integers\<close>

type_synonym i64 = int

definition wrap64 :: "int \<Rightarrow> i64" where
  "wrap64 x = (x + 9223372036854775808) mod 18446744073709551616 - 9223372036854775808"

definition i64_ok :: "int \<Rightarrow> bool" where
  "i64_ok x \<longleftrightarrow> - 9223372036854775808 \<le> x \<and> x < 9223372036854775808"

lemma wrap64_id [i64_simps, simp]: "i64_ok x \<Longrightarrow> wrap64 x = x"
  by (simp add: wrap64_def i64_ok_def)

lemma i64_ok_wrap64 [simp]: "i64_ok (wrap64 x)"
proof -
  have "0 \<le> (x + 9223372036854775808) mod 18446744073709551616"
    and "(x + 9223372036854775808) mod 18446744073709551616 < 18446744073709551616"
    by simp_all
  then show ?thesis by (simp add: wrap64_def i64_ok_def)
qed

lemma wrap64_cong_iff: "wrap64 a = wrap64 b \<longleftrightarrow> a mod 18446744073709551616 = b mod 18446744073709551616"
proof -
  have "wrap64 a = wrap64 b \<longleftrightarrow>
      (a + 9223372036854775808) mod 18446744073709551616 = (b + 9223372036854775808) mod 18446744073709551616"
    by (simp add: wrap64_def)
  also have "\<dots> \<longleftrightarrow> a mod 18446744073709551616 = b mod 18446744073709551616"
    by (simp add: mod_eq_dvd_iff)
  finally show ?thesis .
qed

lemma wrap64_mod [simp]: "wrap64 a mod 18446744073709551616 = a mod 18446744073709551616"
  by (simp add: wrap64_def mod_diff_left_eq)

lemma wrap64_add_left [i64_simps, simp]: "wrap64 (wrap64 a + b) = wrap64 (a + b)"
  unfolding wrap64_cong_iff by (metis mod_add_left_eq wrap64_mod)

lemma wrap64_add_right [i64_simps, simp]: "wrap64 (a + wrap64 b) = wrap64 (a + b)"
  by (metis add.commute wrap64_add_left)

lemma wrap64_add_mid [i64_simps, simp]: "wrap64 (a + wrap64 b + c) = wrap64 (a + b + c)"
  by (metis add.commute add.left_commute wrap64_add_left)

lemma wrap64_uminus [i64_simps, simp]: "wrap64 (- wrap64 a) = wrap64 (- a)"
  unfolding wrap64_cong_iff by (metis mod_minus_eq wrap64_mod)

lemma wrap64_diff_left [i64_simps, simp]: "wrap64 (wrap64 a - b) = wrap64 (a - b)"
  using wrap64_add_left [of a "- b"] by simp

lemma wrap64_diff_right [i64_simps, simp]: "wrap64 (a - wrap64 b) = wrap64 (a - b)"
  unfolding wrap64_cong_iff by (metis mod_diff_right_eq wrap64_mod)

lemma wrap64_mult_left [i64_simps, simp]: "wrap64 (wrap64 a * b) = wrap64 (a * b)"
  unfolding wrap64_cong_iff by (metis mod_mult_left_eq wrap64_mod)

lemma wrap64_mult_right [i64_simps, simp]: "wrap64 (a * wrap64 b) = wrap64 (a * b)"
  by (metis mult.commute wrap64_mult_left)

lemma wrap64_idem [simp]: "wrap64 (wrap64 x) = wrap64 x"
  by simp

text \<open>The sum of an iterator of \<open>i64\<close>.\<close>

definition sum64 :: "i64 list \<Rightarrow> i64" where
  "sum64 xs = wrap64 (sum_list xs)"

lemma sum64_Nil [simp]: "sum64 [] = 0"
  by (simp add: sum64_def wrap64_def)

lemma sum64_Cons: "sum64 (x # xs) = wrap64 (x + sum64 xs)"
  by (simp add: sum64_def)

lemma sum64_append: "sum64 (xs @ ys) = wrap64 (sum64 xs + sum64 ys)"
  by (simp add: sum64_def)

text \<open>For a value that is not negative, division towards zero is the mathematical one.\<close>

lemma sdiv_nonneg: "0 \<le> a \<Longrightarrow> 0 < b \<Longrightarrow> (a::int) sdiv b = a div b"
  by (auto simp: signed_divide_int_def sgn_if)

lemma smod_nonneg: "0 \<le> a \<Longrightarrow> 0 < b \<Longrightarrow> (a::int) smod b = a mod b"
  by (auto simp: signed_modulo_int_def sgn_if)

lemma div_bounds:
  assumes "0 < (b::int)"
  shows "a div b * b \<le> a" "a < a div b * b + b"
  using div_mult_mod_eq [of a b] pos_mod_sign [OF assms, of a] pos_mod_bound [OF assms, of a]
  by linarith+

section \<open>Maps\<close>

lemma map_of_rev_distinct: "distinct (map fst xs) \<Longrightarrow> map_of (rev xs) = map_of xs"
  by (subst map_of_inject_set) (auto simp: rev_map [symmetric])

end
