(* ===== verification/Strings.thy ===== *)
theory Strings
  imports Prelude
begin

text \<open>
  The string operations of Rust's standard library that the sources call, on \<open>char list\<close>:
  ASCII case mapping, \<open>trim\<close>, \<open>split\<close>, \<open>splitn(2, _)\<close>, \<open>split_once\<close>,
  \<open>replacen(_, _, 1)\<close>, \<open>find\<close>, \<open>contains\<close>, \<open>strip_prefix\<close> and
  \<open>strip_suffix\<close>, \<open>parse::<i64>\<close>, \<open>to_string\<close> of an \<open>i64\<close>, and
  \<open>collect\<close> of an iterator of results. Their lemmas are in \<open>str_simps\<close>.
\<close>

section \<open>Results\<close>

definition bindE :: "'e + 'a \<Rightarrow> ('a \<Rightarrow> 'e + 'b) \<Rightarrow> 'e + 'b" where
  "bindE r f = (case r of Inl e \<Rightarrow> Inl e | Inr a \<Rightarrow> f a)"

lemma bindE_simps [simp]: "bindE (Inl e) f = Inl e" "bindE (Inr a) f = f a"
  by (simp_all add: bindE_def)

lemma bindE_eq_Inr: "bindE r f = Inr b \<longleftrightarrow> (\<exists>a. r = Inr a \<and> f a = Inr b)"
  by (cases r) auto

lemma bindE_eq_Inl: "bindE r f = Inl e \<longleftrightarrow> r = Inl e \<or> (\<exists>a. r = Inr a \<and> f a = Inl e)"
  by (cases r) auto

lemma bindE_assoc: "bindE (bindE r f) g = bindE r (\<lambda>a. bindE (f a) g)"
  by (cases r) auto

definition map_ok :: "('a \<Rightarrow> 'b) \<Rightarrow> 'e + 'a \<Rightarrow> 'e + 'b" where
  "map_ok f r = bindE r (\<lambda>a. Inr (f a))"

lemma map_ok_simps [simp]: "map_ok f (Inl e) = Inl e" "map_ok f (Inr a) = Inr (f a)"
  by (simp_all add: map_ok_def)

lemma map_ok_eq_Inr: "map_ok f r = Inr b \<longleftrightarrow> (\<exists>a. r = Inr a \<and> b = f a)"
  by (cases r) auto

lemma map_ok_eq_Inl [simp]: "map_ok f r = Inl e \<longleftrightarrow> r = Inl e"
  by (cases r) auto

definition map_err :: "('e \<Rightarrow> 'f) \<Rightarrow> 'e + 'a \<Rightarrow> 'f + 'a" where
  "map_err f r = (case r of Inl e \<Rightarrow> Inl (f e) | Inr a \<Rightarrow> Inr a)"

lemma map_err_simps [simp]: "map_err f (Inl e) = Inl (f e)" "map_err f (Inr a) = Inr a"
  by (simp_all add: map_err_def)

lemma map_err_eq_Inr [simp]: "map_err f r = Inr a \<longleftrightarrow> r = Inr a"
  by (cases r) auto

lemma map_err_eq_Inl: "map_err f r = Inl e \<longleftrightarrow> (\<exists>d. r = Inl d \<and> e = f d)"
  by (cases r) auto

definition ok_or :: "'e \<Rightarrow> 'a option \<Rightarrow> 'e + 'a" where
  "ok_or e x = (case x of None \<Rightarrow> Inl e | Some a \<Rightarrow> Inr a)"

lemma ok_or_simps [simp]: "ok_or e None = Inl e" "ok_or e (Some a) = Inr a"
  by (simp_all add: ok_or_def)

lemma ok_or_eq_Inr [simp]: "ok_or e x = Inr a \<longleftrightarrow> x = Some a"
  by (cases x) auto

lemma ok_or_eq_Inl: "ok_or e x = Inl d \<longleftrightarrow> x = None \<and> d = e"
  by (cases x) auto

definition ok :: "'e + 'a \<Rightarrow> 'a option" where
  "ok r = (case r of Inl _ \<Rightarrow> None | Inr a \<Rightarrow> Some a)"

lemma ok_simps [simp]: "ok (Inl e) = None" "ok (Inr a) = Some a"
  by (simp_all add: ok_def)

definition unwrap_or :: "'a \<Rightarrow> 'a option \<Rightarrow> 'a" where
  "unwrap_or d x = (case x of None \<Rightarrow> d | Some a \<Rightarrow> a)"

lemma unwrap_or_simps [simp]: "unwrap_or d None = d" "unwrap_or d (Some a) = a"
  by (simp_all add: unwrap_or_def)

text \<open>\<open>iter.map(f).collect::<Result<Vec<_>, _>>()\<close>: the first error, or every value in order.\<close>

fun collectE :: "('a \<Rightarrow> 'e + 'b) \<Rightarrow> 'a list \<Rightarrow> 'e + 'b list" where
  "collectE f [] = Inr []"
| "collectE f (x # xs) = bindE (f x) (\<lambda>y. bindE (collectE f xs) (\<lambda>ys. Inr (y # ys)))"

lemma collectE_eq_Inr: "collectE f xs = Inr ys \<longleftrightarrow> list_all2 (\<lambda>x y. f x = Inr y) xs ys"
  by (induction xs arbitrary: ys) (auto simp: bindE_eq_Inr list_all2_Cons1)

lemma collectE_length: "collectE f xs = Inr ys \<Longrightarrow> length ys = length xs"
  by (simp add: collectE_eq_Inr list_all2_lengthD)

lemma collectE_total: "(\<And>x. x \<in> set xs \<Longrightarrow> f x = Inr (g x)) \<Longrightarrow> collectE f xs = Inr (map g xs)"
  by (induction xs) auto

lemma collectE_append:
  "collectE f (xs @ ys) = bindE (collectE f xs) (\<lambda>a. bindE (collectE f ys) (\<lambda>b. Inr (a @ b)))"
proof (induction xs)
  case Nil
  then show ?case by (cases "collectE f ys") auto
next
  case (Cons x xs)
  then show ?case by (cases "f x"; cases "collectE f xs"; cases "collectE f ys") auto
qed

section \<open>Characters\<close>

abbreviation code :: "char \<Rightarrow> nat" where
  "code c \<equiv> of_char c"

definition is_digit :: "char \<Rightarrow> bool" where
  "is_digit c \<longleftrightarrow> 48 \<le> code c \<and> code c \<le> 57"

text \<open>\<open>char::is_whitespace\<close>, on the scalars below 256.\<close>

definition is_ws :: "char \<Rightarrow> bool" where
  "is_ws c \<longleftrightarrow> (9 \<le> code c \<and> code c \<le> 13) \<or> code c = 32 \<or> code c = 133 \<or> code c = 160"

definition to_upper :: "char \<Rightarrow> char" where
  "to_upper c = (if 97 \<le> code c \<and> code c \<le> 122 then char_of (code c - 32) else c)"

definition to_lower :: "char \<Rightarrow> char" where
  "to_lower c = (if 65 \<le> code c \<and> code c \<le> 90 then char_of (code c + 32) else c)"

definition to_ascii_uppercase :: "string \<Rightarrow> string" where
  "to_ascii_uppercase s = map to_upper s"

definition to_ascii_lowercase :: "string \<Rightarrow> string" where
  "to_ascii_lowercase s = map to_lower s"

definition eq_ignore_ascii_case :: "string \<Rightarrow> string \<Rightarrow> bool" where
  "eq_ignore_ascii_case a b \<longleftrightarrow> to_ascii_lowercase a = to_ascii_lowercase b"

lemma code_to_upper: "code (to_upper c) = (if 97 \<le> code c \<and> code c \<le> 122 then code c - 32 else code c)"
  by (auto simp: to_upper_def)

lemma to_upper_idem [simp]: "to_upper (to_upper c) = to_upper c"
proof -
  have "\<not> (97 \<le> code (to_upper c) \<and> code (to_upper c) \<le> 122)"
    by (auto simp: code_to_upper)
  then show ?thesis by (subst to_upper_def) auto
qed

lemma to_upper_eq_sep:
  assumes "\<not> (65 \<le> code x \<and> code x \<le> 90)" "\<not> (97 \<le> code x \<and> code x \<le> 122)"
  shows "to_upper c = x \<longleftrightarrow> c = x"
proof
  assume "to_upper c = x"
  then have "code (to_upper c) = code x" by simp
  with assms(1) have "to_upper c = c"
    by (auto simp: code_to_upper to_upper_def split: if_splits)
  with \<open>to_upper c = x\<close> show "c = x" by simp
next
  assume "c = x"
  with assms show "to_upper c = x" by (auto simp: to_upper_def)
qed

lemma to_upper_seps [simp]:
  "to_upper c = CHR ''/'' \<longleftrightarrow> c = CHR ''/''"
  "to_upper c = CHR ''~'' \<longleftrightarrow> c = CHR ''~''"
  "to_upper c = CHR ''.'' \<longleftrightarrow> c = CHR ''.''"
  "to_upper c = CHR ''-'' \<longleftrightarrow> c = CHR ''-''"
  by (rule to_upper_eq_sep; simp)+

lemma to_ascii_uppercase_idem [simp]:
  "to_ascii_uppercase (to_ascii_uppercase s) = to_ascii_uppercase s"
  by (simp add: to_ascii_uppercase_def)

lemma to_ascii_uppercase_append [simp]:
  "to_ascii_uppercase (a @ b) = to_ascii_uppercase a @ to_ascii_uppercase b"
  by (simp add: to_ascii_uppercase_def)

lemma in_uppercase_seps [simp]:
  "CHR ''/'' \<in> set (to_ascii_uppercase s) \<longleftrightarrow> CHR ''/'' \<in> set s"
  "CHR ''~'' \<in> set (to_ascii_uppercase s) \<longleftrightarrow> CHR ''~'' \<in> set s"
  "CHR ''.'' \<in> set (to_ascii_uppercase s) \<longleftrightarrow> CHR ''.'' \<in> set s"
  "CHR ''-'' \<in> set (to_ascii_uppercase s) \<longleftrightarrow> CHR ''-'' \<in> set s"
  by (induction s) (auto simp: to_ascii_uppercase_def eq_commute)

section \<open>Searching and splitting\<close>

definition starts_with :: "string \<Rightarrow> string \<Rightarrow> bool" where
  "starts_with p s \<longleftrightarrow> take (length p) s = p"

fun contains_str :: "string \<Rightarrow> string \<Rightarrow> bool" where
  "contains_str p [] = (p = [])"
| "contains_str p (c # s) = (starts_with p (c # s) \<or> contains_str p s)"

definition strip_prefix :: "string \<Rightarrow> string \<Rightarrow> string option" where
  "strip_prefix p s = (if starts_with p s then Some (drop (length p) s) else None)"

definition strip_suffix :: "string \<Rightarrow> string \<Rightarrow> string option" where
  "strip_suffix p s = map_option rev (strip_prefix (rev p) (rev s))"

definition trim :: "string \<Rightarrow> string" where
  "trim s = rev (dropWhile is_ws (rev (dropWhile is_ws s)))"

text \<open>\<open>str::split\<close> by a character: always at least one piece.\<close>

fun split_on :: "char \<Rightarrow> string \<Rightarrow> string list" where
  "split_on d [] = [[]]"
| "split_on d (c # s) =
     (if c = d then [] # split_on d s
      else (case split_on d s of [] \<Rightarrow> [[c]] | p # ps \<Rightarrow> (c # p) # ps))"

text \<open>\<open>str::split_once\<close> at the first character that satisfies \<open>P\<close>.\<close>

fun split_once :: "(char \<Rightarrow> bool) \<Rightarrow> string \<Rightarrow> (string \<times> string) option" where
  "split_once P [] = None"
| "split_once P (c # s) =
     (if P c then Some ([], s) else map_option (\<lambda>(a, b). (c # a, b)) (split_once P s))"

text \<open>\<open>splitn(2, d)\<close>: one piece, or the two around the first \<open>d\<close>.\<close>

definition splitn2 :: "char \<Rightarrow> string \<Rightarrow> string list" where
  "splitn2 d s = (case split_once (\<lambda>c. c = d) s of None \<Rightarrow> [s] | Some (a, b) \<Rightarrow> [a, b])"

text \<open>\<open>replacen(pat, to, 1)\<close> for a pattern that matches one character.\<close>

fun replacen1 :: "(char \<Rightarrow> bool) \<Rightarrow> string \<Rightarrow> string \<Rightarrow> string" where
  "replacen1 P t [] = []"
| "replacen1 P t (c # s) = (if P c then t @ s else c # replacen1 P t s)"

fun join :: "string \<Rightarrow> string list \<Rightarrow> string" where
  "join sep [] = []"
| "join sep [x] = x"
| "join sep (x # xs) = x @ sep @ join sep xs"

lemma split_once_Some:
  "split_once P s = Some (a, b) \<longleftrightarrow> (\<exists>c. s = a @ c # b \<and> P c \<and> (\<forall>x\<in>set a. \<not> P x))"
proof (induction s arbitrary: a)
  case Nil
  then show ?case by simp
next
  case (Cons c s)
  show ?case
  proof (cases a)
    case Nil
    then show ?thesis by auto
  next
    case (Cons x xs)
    with Cons.IH [of xs] show ?thesis by auto
  qed
qed

lemma split_once_None [simp]: "split_once P s = None \<longleftrightarrow> (\<forall>c\<in>set s. \<not> P c)"
  by (induction s) auto

lemma splitn2_single: "d \<notin> set s \<Longrightarrow> splitn2 d s = [s]"
proof -
  assume "d \<notin> set s"
  then have "split_once (\<lambda>c. c = d) s = None" by auto
  then show ?thesis by (simp only: splitn2_def option.case)
qed

lemma splitn2_pair: "d \<notin> set a \<Longrightarrow> splitn2 d (a @ d # b) = [a, b]"
proof -
  assume "d \<notin> set a"
  then have "split_once (\<lambda>c. c = d) (a @ d # b) = Some (a, b)"
    by (subst split_once_Some) auto
  then show ?thesis by (simp add: splitn2_def)
qed

lemma splitn2_cases:
  obtains "d \<notin> set s" "splitn2 d s = [s]"
  | a b where "d \<notin> set a" "s = a @ d # b" "splitn2 d s = [a, b]"
proof (cases "d \<in> set s")
  case True
  then obtain a b where "s = a @ d # b" "d \<notin> set a" by (meson split_list_first)
  then show thesis using that(2) [of a b] splitn2_pair by simp
next
  case False
  then show thesis using that(1) splitn2_single by simp
qed

lemma split_on_no_sep: "d \<notin> set s \<Longrightarrow> split_on d s = [s]"
  by (induction s) auto

lemma split_on_append: "d \<notin> set a \<Longrightarrow> split_on d (a @ d # b) = a # split_on d b"
  by (induction a) auto

lemma split_on_pieces: "p \<in> set (split_on d s) \<Longrightarrow> d \<notin> set p"
  by (induction s arbitrary: p) (auto split: list.splits if_splits)

lemma split_on_join: "xs \<noteq> [] \<Longrightarrow> (\<And>x. x \<in> set xs \<Longrightarrow> d \<notin> set x) \<Longrightarrow> split_on d (join [d] xs) = xs"
proof (induction "[d]" xs rule: join.induct)
  case (2 x)
  then show ?case by (simp add: split_on_no_sep)
next
  case (3 x y zs)
  then show ?case by (simp add: split_on_append)
qed simp

lemma replacen1_none [simp]: "(\<And>c. c \<in> set s \<Longrightarrow> \<not> P c) \<Longrightarrow> replacen1 P t s = s"
  by (induction s) auto

lemma replacen1_first: "(\<And>c. c \<in> set a \<Longrightarrow> \<not> P c) \<Longrightarrow> P d \<Longrightarrow> replacen1 P t (a @ d # b) = a @ t @ b"
  by (induction a) auto

definition ws_free :: "string \<Rightarrow> bool" where
  "ws_free s \<longleftrightarrow> (\<forall>c\<in>set s. \<not> is_ws c)"

lemma dropWhile_ws_free: "ws_free s \<Longrightarrow> dropWhile is_ws s = s"
  by (cases s) (auto simp: ws_free_def)

lemma trim_ws_free [simp]: "ws_free s \<Longrightarrow> trim s = s"
  using dropWhile_ws_free [of "rev s"] by (simp add: trim_def dropWhile_ws_free ws_free_def)

text \<open>A string that starts and ends with a character that is not white space is its own trim.\<close>

lemma trim_solid:
  assumes "s \<noteq> []" "\<not> is_ws (hd s)" "\<not> is_ws (last s)"
  shows "trim s = s"
proof -
  have "dropWhile is_ws s = s" using assms by (cases s) auto
  moreover have "dropWhile is_ws (rev s) = rev s" using assms by (cases "rev s") (auto simp: last_rev hd_rev [symmetric])
  ultimately show ?thesis by (simp add: trim_def)
qed

lemma dropWhile_hd: "dropWhile P s \<noteq> [] \<Longrightarrow> \<not> P (hd (dropWhile P s))"
  by (rule hd_dropWhile) 

lemma trim_idem [simp]: "trim (trim s) = trim s"
proof (cases "trim s = []")
  case True
  moreover have "trim [] = []" by (simp add: trim_def)
  ultimately show ?thesis by simp
next
  case False
  let ?u = "dropWhile is_ws s"
  have r: "trim s = rev (dropWhile is_ws (rev ?u))" by (simp add: trim_def)
  have ne: "dropWhile is_ws (rev ?u) \<noteq> []" using False r by simp
  have l: "\<not> is_ws (last (trim s))"
    using hd_dropWhile [OF ne] ne by (simp add: r last_rev)
  obtain v where v: "rev ?u = v @ dropWhile is_ws (rev ?u)"
    by (metis takeWhile_dropWhile_id)
  have "?u = trim s @ rev v"
    by (metis r rev_append rev_rev_ident v)
  then have "hd (trim s) = hd ?u" "?u \<noteq> []" using False by (metis hd_append2, simp)
  then have "\<not> is_ws (hd (trim s))" using hd_dropWhile [of is_ws s] by simp
  with False l show ?thesis by (simp add: trim_solid)
qed

section \<open>Decimal integers\<close>

definition digit_val :: "char \<Rightarrow> int" where
  "digit_val c = int (code c) - 48"

definition digits_val :: "string \<Rightarrow> int" where
  "digits_val s = foldl (\<lambda>a c. 10 * a + digit_val c) 0 s"

text \<open>
  \<open>str::parse::<i64>\<close>: an optional sign, at least one digit, nothing else, and a value in
  range.
\<close>

definition parse_digits :: "string \<Rightarrow> int option" where
  "parse_digits s = (if s \<noteq> [] \<and> list_all is_digit s then Some (digits_val s) else None)"

definition parse_i64 :: "string \<Rightarrow> i64 option" where
  "parse_i64 s =
     (let v = (case s of
                 [] \<Rightarrow> None
               | c # t \<Rightarrow> if c = CHR ''-'' then map_option uminus (parse_digits t)
                           else if c = CHR ''+'' then parse_digits t
                           else parse_digits s)
      in case v of None \<Rightarrow> None | Some n \<Rightarrow> if i64_ok n then Some n else None)"

definition digit_char :: "int \<Rightarrow> char" where
  "digit_char d = char_of (48 + nat d)"

text \<open>The decimal digits of a number that is not negative.\<close>

function nat_str :: "int \<Rightarrow> string" where
  "nat_str n = (if n < 10 then [digit_char n] else nat_str (n div 10) @ [digit_char (n mod 10)])"
  by pat_completeness auto
termination by (relation "measure nat") auto

declare nat_str.simps [simp del]

definition int_to_string :: "int \<Rightarrow> string" where
  "int_to_string v = (if v < 0 then CHR ''-'' # nat_str (- v) else nat_str v)"

lemma code_digit_char: "0 \<le> d \<Longrightarrow> d < 10 \<Longrightarrow> code (digit_char d) = 48 + nat d"
  by (simp add: digit_char_def)

lemma is_digit_digit_char: "0 \<le> d \<Longrightarrow> d < 10 \<Longrightarrow> is_digit (digit_char d)"
  by (simp add: is_digit_def code_digit_char)

lemma digit_val_digit_char: "0 \<le> d \<Longrightarrow> d < 10 \<Longrightarrow> digit_val (digit_char d) = d"
  by (simp add: digit_val_def code_digit_char)

lemma digits_val_snoc: "digits_val (s @ [c]) = 10 * digits_val s + digit_val c"
  by (simp add: digits_val_def)

lemma nat_str_digits:
  "0 \<le> n \<Longrightarrow> list_all is_digit (nat_str n) \<and> nat_str n \<noteq> [] \<and> digits_val (nat_str n) = n"
proof (induction n rule: nat_str.induct)
  case (1 n)
  show ?case
  proof (cases "n < 10")
    case True
    with 1 show ?thesis
      by (simp add: nat_str.simps [of n] is_digit_digit_char digits_val_def digit_val_digit_char)
  next
    case False
    with 1 show ?thesis
      by (simp add: nat_str.simps [of n] is_digit_digit_char digits_val_snoc digit_val_digit_char)
  qed
qed

lemma parse_digits_nat_str [simp]: "0 \<le> n \<Longrightarrow> parse_digits (nat_str n) = Some n"
  using nat_str_digits [of n] by (simp add: parse_digits_def)

lemma is_digit_not_sign: "is_digit c \<Longrightarrow> c \<noteq> CHR ''-'' \<and> c \<noteq> CHR ''+''"
  by (auto simp: is_digit_def)

lemma nat_str_Cons:
  assumes "0 \<le> n"
  obtains c t where "nat_str n = c # t" "is_digit c"
  using nat_str_digits [OF assms] by (cases "nat_str n") auto

lemma parse_int_to_string: "i64_ok v \<Longrightarrow> parse_i64 (int_to_string v) = Some v"
proof (cases "v < 0")
  case True
  moreover assume "i64_ok v"
  ultimately show ?thesis by (simp add: parse_i64_def int_to_string_def)
next
  case False
  assume ok: "i64_ok v"
  from False have v: "0 \<le> v" by simp
  then obtain c t where ct: "nat_str v = c # t" "is_digit c" by (rule nat_str_Cons)
  then have "parse_digits (c # t) = Some v" using parse_digits_nat_str [OF v] by simp
  with ct False ok is_digit_not_sign [OF ct(2)] show ?thesis
    by (simp add: parse_i64_def int_to_string_def)
qed

lemma parse_i64_ok: "parse_i64 s = Some n \<Longrightarrow> i64_ok n"
  by (auto simp: parse_i64_def Let_def split: option.splits if_splits)

lemma parse_i64_Nil [simp]: "parse_i64 [] = None"
  by (simp add: parse_i64_def)

lemma digit_not_ws: "is_digit c \<Longrightarrow> \<not> is_ws c"
  by (auto simp: is_digit_def is_ws_def)

lemma int_to_string_ws_free: "ws_free (int_to_string v)"
proof -
  have *: "ws_free (nat_str n)" if "0 \<le> n" for n
    using nat_str_digits [OF that] by (auto simp: ws_free_def list_all_iff digit_not_ws)
  have "\<not> is_ws (CHR ''-'')" by (simp add: is_ws_def)
  with * [of v] * [of "- v"] show ?thesis by (auto simp: int_to_string_def ws_free_def)
qed

lemma int_to_string_not_Nil [simp]: "int_to_string v \<noteq> []"
  using nat_str_digits [of v] by (simp add: int_to_string_def)

lemmas str_ops [str_simps] =
  to_ascii_uppercase_def to_ascii_lowercase_def to_upper_def to_lower_def
  starts_with_def strip_prefix_def strip_suffix_def splitn2_def trim_def is_ws_def is_digit_def
  parse_i64_def parse_digits_def digits_val_def digit_val_def i64_ok_def char_of_eq_iff

end
