(* ===== verification/F64.thy ===== *)
theory F64
  imports Strings
begin

text \<open>
  Rust's \<open>f64\<close>, executable: IEEE 754 binary64 with rounding to nearest, ties to even, over
  exact integer arithmetic. \<open>Num s m e\<close> is \<open>(-1)^s * m * 2^e\<close> with
  \<open>2^52 \<le> m < 2^53\<close>, or \<open>e = -1074\<close> and a smaller \<open>m\<close> for a subnormal. The
  operations are the ones the sources use: conversion from \<open>i64\<close>, \<open>+\<close>, \<open>-\<close>,
  \<open>*\<close>, \<open>/\<close>, \<open>sqrt\<close>, comparison, \<open>parse::<f64>\<close> and \<open>Display\<close> (the
  shortest decimal that reads back as the same number, without an exponent).
\<close>

datatype f64 = NaN | Inf bool | Zero bool | Num bool int int

section \<open>Rounding\<close>

function bitlen :: "int \<Rightarrow> int" where
  "bitlen n = (if n \<le> 0 then 0 else 1 + bitlen (n div 2))"
  by pat_completeness auto
termination by (relation "measure nat") auto

declare bitlen.simps [simp del]

definition rhe :: "int \<Rightarrow> int \<Rightarrow> int" where
  "rhe n d = (let q = n div d; r = n mod d
     in if 2 * r < d then q else if d < 2 * r then q + 1 else if even q then q else q + 1)"

text \<open>The fraction \<open>n / d / 2^e\<close>.\<close>

definition scale2 :: "int \<Rightarrow> int \<Rightarrow> int \<Rightarrow> int \<times> int" where
  "scale2 n d e = (if 0 \<le> e then (n, d * 2 ^ nat e) else (n * 2 ^ nat (- e), d))"

text \<open>The number nearest to \<open>n / d\<close>, for \<open>0 < n\<close> and \<open>0 < d\<close>, with the sign \<open>s\<close>.\<close>

definition round_frac :: "bool \<Rightarrow> int \<Rightarrow> int \<Rightarrow> f64" where
  "round_frac s n d =
     (let e0 = max (bitlen n - bitlen d - 53) (- 1074);
          (n1, d1) = scale2 n d e0;
          e1 = (if 2 ^ 53 \<le> n1 div d1 then e0 + 1 else e0);
          (n2, d2) = scale2 n d e1;
          m1 = rhe n2 d2;
          (m, e) = (if m1 = 2 ^ 53 then (2 ^ 52, e1 + 1) else (m1, e1))
      in if m = 0 then Zero s else if 971 < e then Inf s else Num s m e)"

text \<open>The exact sum, product and so on are fractions with a power of two.\<close>

definition round_scaled :: "bool \<Rightarrow> int \<Rightarrow> int \<Rightarrow> int \<Rightarrow> f64" where
  "round_scaled s n d e = (let (n', d') = scale2 n d (- e) in round_frac s n' d')"

section \<open>Arithmetic\<close>

definition f64_of_i64 :: "i64 \<Rightarrow> f64" where
  "f64_of_i64 i = (if i = 0 then Zero False else round_frac (i < 0) \<bar>i\<bar> 1)"

fun f64_neg :: "f64 \<Rightarrow> f64" where
  "f64_neg NaN = NaN"
| "f64_neg (Inf s) = Inf (\<not> s)"
| "f64_neg (Zero s) = Zero (\<not> s)"
| "f64_neg (Num s m e) = Num (\<not> s) m e"

fun f64_mul :: "f64 \<Rightarrow> f64 \<Rightarrow> f64" where
  "f64_mul NaN _ = NaN"
| "f64_mul _ NaN = NaN"
| "f64_mul (Inf _) (Zero _) = NaN"
| "f64_mul (Zero _) (Inf _) = NaN"
| "f64_mul (Inf s) (Inf t) = Inf (s \<noteq> t)"
| "f64_mul (Inf s) (Num t _ _) = Inf (s \<noteq> t)"
| "f64_mul (Num s _ _) (Inf t) = Inf (s \<noteq> t)"
| "f64_mul (Zero s) (Zero t) = Zero (s \<noteq> t)"
| "f64_mul (Zero s) (Num t _ _) = Zero (s \<noteq> t)"
| "f64_mul (Num s _ _) (Zero t) = Zero (s \<noteq> t)"
| "f64_mul (Num s m e) (Num t n f) = round_scaled (s \<noteq> t) (m * n) 1 (e + f)"

fun f64_div :: "f64 \<Rightarrow> f64 \<Rightarrow> f64" where
  "f64_div NaN _ = NaN"
| "f64_div _ NaN = NaN"
| "f64_div (Inf _) (Inf _) = NaN"
| "f64_div (Zero _) (Zero _) = NaN"
| "f64_div (Inf s) (Zero t) = Inf (s \<noteq> t)"
| "f64_div (Inf s) (Num t _ _) = Inf (s \<noteq> t)"
| "f64_div (Zero s) (Inf t) = Zero (s \<noteq> t)"
| "f64_div (Zero s) (Num t _ _) = Zero (s \<noteq> t)"
| "f64_div (Num s _ _) (Inf t) = Zero (s \<noteq> t)"
| "f64_div (Num s _ _) (Zero t) = Inf (s \<noteq> t)"
| "f64_div (Num s m e) (Num t n f) = round_scaled (s \<noteq> t) m n (e - f)"

definition signed :: "bool \<Rightarrow> int \<Rightarrow> int" where
  "signed s m = (if s then - m else m)"

fun f64_add :: "f64 \<Rightarrow> f64 \<Rightarrow> f64" where
  "f64_add NaN _ = NaN"
| "f64_add _ NaN = NaN"
| "f64_add (Inf s) (Inf t) = (if s = t then Inf s else NaN)"
| "f64_add (Inf s) _ = Inf s"
| "f64_add _ (Inf t) = Inf t"
| "f64_add (Zero s) (Zero t) = Zero (s \<and> t)"
| "f64_add (Zero _) y = y"
| "f64_add x (Zero _) = x"
| "f64_add (Num s m e) (Num t n f) =
     (let g = min e f; v = signed s m * 2 ^ nat (e - g) + signed t n * 2 ^ nat (f - g)
      in if v = 0 then Zero False else round_scaled (v < 0) \<bar>v\<bar> 1 g)"

definition f64_sub :: "f64 \<Rightarrow> f64 \<Rightarrow> f64" where
  "f64_sub x y = f64_add x (f64_neg y)"

function isqrt :: "int \<Rightarrow> int" where
  "isqrt n = (if n \<le> 0 then 0
     else let r = 2 * isqrt (n div 4) in if (r + 1) * (r + 1) \<le> n then r + 1 else r)"
  by pat_completeness auto
termination by (relation "measure nat") auto

declare isqrt.simps [simp del]

text \<open>
  The root is taken of a multiple by a power of four that leaves more than 54 bits in it; where
  it is not exact, the half between two integers stands for it in the rounding.
\<close>

fun f64_sqrt :: "f64 \<Rightarrow> f64" where
  "f64_sqrt NaN = NaN"
| "f64_sqrt (Inf s) = (if s then NaN else Inf False)"
| "f64_sqrt (Zero s) = Zero s"
| "f64_sqrt (Num s m e) =
     (if s then NaN
      else let p = (if even e then 120 else 121); n = m * 2 ^ nat p; r = isqrt n; h = (e - p) div 2
           in if r * r = n then round_scaled False r 1 h else round_scaled False (2 * r + 1) 1 (h - 1))"

text \<open>The sign of the exact difference; \<open>None\<close> where a comparison is unordered.\<close>

fun f64_rank :: "f64 \<Rightarrow> (int \<times> int \<times> int) option" where
  "f64_rank NaN = None"
| "f64_rank (Inf s) = Some (if s then - 1 else 1, 0, 0)"
| "f64_rank (Zero _) = Some (0, 0, 0)"
| "f64_rank (Num s m e) = Some (0, signed s m, e)"

definition f64_lt :: "f64 \<Rightarrow> f64 \<Rightarrow> bool" where
  "f64_lt x y = (case (f64_rank x, f64_rank y) of
     (Some (i, m, e), Some (j, n, f)) \<Rightarrow>
       i < j \<or> i = j \<and> (let g = min e f in m * 2 ^ nat (e - g) < n * 2 ^ nat (f - g))
   | _ \<Rightarrow> False)"

definition f64_eq :: "f64 \<Rightarrow> f64 \<Rightarrow> bool" where
  "f64_eq x y \<longleftrightarrow> x \<noteq> NaN \<and> y \<noteq> NaN \<and> \<not> f64_lt x y \<and> \<not> f64_lt y x"

definition f64_le :: "f64 \<Rightarrow> f64 \<Rightarrow> bool" where
  "f64_le x y \<longleftrightarrow> f64_lt x y \<or> f64_eq x y"

text \<open>\<open>f64::max\<close>: a \<open>NaN\<close> operand is ignored.\<close>

definition f64_max :: "f64 \<Rightarrow> f64 \<Rightarrow> f64" where
  "f64_max x y = (if x = NaN then y else if y = NaN then x else if f64_lt x y then y else x)"

definition is_finite :: "f64 \<Rightarrow> bool" where
  "is_finite x = (case x of NaN \<Rightarrow> False | Inf _ \<Rightarrow> False | _ \<Rightarrow> True)"

lemma is_finite_simps [simp]:
  "\<not> is_finite NaN" "\<not> is_finite (Inf s)" "is_finite (Zero s)" "is_finite (Num s m e)"
  by (simp_all add: is_finite_def)

section \<open>Reading and printing\<close>

definition frac_to_f64 :: "bool \<Rightarrow> int \<Rightarrow> int \<Rightarrow> f64" where
  "frac_to_f64 s n k =
     (if n = 0 then Zero s
      else if 0 \<le> k then round_frac s (n * 10 ^ nat k) 1 else round_frac s n (10 ^ nat (- k)))"

text \<open>\<open>digits [. digits] [e [sign] digits]\<close>, with a digit before or after the point.\<close>

definition parse_exp :: "string \<Rightarrow> int option" where
  "parse_exp s = (case s of
     [] \<Rightarrow> None
   | c # t \<Rightarrow> if c = CHR ''-'' then map_option uminus (parse_digits t)
              else if c = CHR ''+'' then parse_digits t else parse_digits s)"

definition parse_decimal :: "bool \<Rightarrow> string \<Rightarrow> f64 option" where
  "parse_decimal sg s =
     (let (man, ex) = (case split_once (\<lambda>c. c = CHR ''e'' \<or> c = CHR ''E'') s of
                         None \<Rightarrow> (s, Some 0) | Some (a, b) \<Rightarrow> (a, parse_exp b));
          (ip, fp) = (case split_once (\<lambda>c. c = CHR ''.'') man of
                        None \<Rightarrow> (man, []) | Some (a, b) \<Rightarrow> (a, b))
      in case ex of None \<Rightarrow> None
         | Some k \<Rightarrow>
             if list_all is_digit (ip @ fp) \<and> ip @ fp \<noteq> []
             then Some (frac_to_f64 sg (digits_val (ip @ fp)) (k - int (length fp)))
             else None)"

definition parse_f64 :: "string \<Rightarrow> f64 option" where
  "parse_f64 s0 =
     (let (sg, s) = (case s0 of [] \<Rightarrow> (False, [])
                     | c # t \<Rightarrow> if c = CHR ''-'' then (True, t)
                                else if c = CHR ''+'' then (False, t) else (False, s0));
          l = to_ascii_lowercase s
      in if l = ''inf'' \<or> l = ''infinity'' then Some (Inf sg)
         else if l = ''nan'' then Some NaN
         else parse_decimal sg s)"

text \<open>
  The shortest decimal: for \<open>n = 1, 2, \<dots>\<close> digits, the two neighbours of the number among the
  decimals \<open>D * 10^k\<close> with \<open>n\<close> digits; the first \<open>n\<close> where one of them reads back, and the
  closer one where both do. Seventeen digits always suffice.
\<close>

function ndigits :: "int \<Rightarrow> int" where
  "ndigits n = (if n \<le> 0 then 0 else 1 + ndigits (n div 10))"
  by pat_completeness auto
termination by (relation "measure nat") auto

declare ndigits.simps [simp del]

text \<open>\<open>(n', d')\<close> with \<open>n' / d' = n / d / 10^k\<close>.\<close>

definition scale10 :: "int \<Rightarrow> int \<Rightarrow> int \<Rightarrow> int \<times> int" where
  "scale10 n d k = (if 0 \<le> k then (n, d * 10 ^ nat k) else (n * 10 ^ nat (- k), d))"

text \<open>The decimal exponent: the largest \<open>x\<close> with \<open>10^x \<le> n / d\<close>.\<close>

definition dec_exp :: "int \<Rightarrow> int \<Rightarrow> int" where
  "dec_exp n d = (let x = ndigits n - ndigits d; (a, b) = scale10 n d x in if b \<le> a then x else x - 1)"

fun shortest :: "nat \<Rightarrow> int \<Rightarrow> int \<Rightarrow> int \<Rightarrow> f64 \<Rightarrow> int \<Rightarrow> int \<times> int" where
  "shortest 0 n d x v len = (0, 0)"
| "shortest (Suc fuel) n d x v len =
     (let k = x - len + 1; (a, b) = scale10 n d k; lo = a div b; r = a mod b;
          okl = (0 < lo \<and> frac_to_f64 False lo k = v);
          okh = (frac_to_f64 False (lo + 1) k = v)
      in if okl \<and> (\<not> okh \<or> 2 * r < b \<or> 2 * r = b \<and> even lo) then (lo, k)
         else if okh then (lo + 1, k)
         else shortest fuel n d x v (len + 1))"

definition decimal_str :: "int \<Rightarrow> int \<Rightarrow> string" where
  "decimal_str D k =
     (let ds = int_to_string D in
      if 0 \<le> k then ds @ replicate (nat k) CHR ''0''
      else let f = nat (- k); pad = replicate (Suc f - length ds) CHR ''0'' @ ds; i = length pad - f
           in take i pad @ CHR ''.'' # drop i pad)"

text \<open>Trailing zeros of the digits belong to the exponent.\<close>

function strip_zeros :: "int \<Rightarrow> int \<Rightarrow> int \<times> int" where
  "strip_zeros D k = (if 0 < D \<and> D mod 10 = 0 then strip_zeros (D div 10) (k + 1) else (D, k))"
  by pat_completeness auto
termination by (relation "measure (\<lambda>(D, k). nat D)") auto

declare strip_zeros.simps [simp del]

fun f64_to_string :: "f64 \<Rightarrow> string" where
  "f64_to_string NaN = ''NaN''"
| "f64_to_string (Inf s) = (if s then ''-inf'' else ''inf'')"
| "f64_to_string (Zero s) = (if s then ''-0'' else ''0'')"
| "f64_to_string (Num s m e) =
     (let (n, d) = scale2 m 1 (- e); (D0, k0) = shortest 17 n d (dec_exp n d) (Num False m e) 1;
          (D, k) = strip_zeros D0 k0
      in (if s then ''-'' else '''') @ decimal_str D k)"

text \<open>\<open>format!("{v:.0}")\<close>: the nearest integer, ties to even.\<close>

fun f64_to_string0 :: "f64 \<Rightarrow> string" where
  "f64_to_string0 (Num s m e) =
     (let (n, d) = scale2 m 1 (- e) in (if s then ''-'' else '''') @ int_to_string (rhe n d))"
| "f64_to_string0 x = f64_to_string x"

end
