(* ===== verification/Chain_Types.thy ===== *)
theory Chain_Types
  imports Strings
begin

text \<open>
  \<open>crates/midgard-chain/src/types.rs\<close>: events, transaction results and blocks, and the three
  views of a block the recorder walks. An attribute is what \<open>key_str\<close> and \<open>value_str\<close> of the
  \<open>tendermint\<close> crate answer for it, \<open>None\<close> where they fail. The lemmas: the views are
  sorted by position and disjoint, so no event is recorded twice.
\<close>

type_synonym second = i64
type_synonym nano = i64

record event_attribute =
  key_str :: "string option"
  value_str :: "string option"

record event =
  ev_kind :: string
  ev_attributes :: "event_attribute list"

record exec_tx_result =
  tx_code_is_err :: bool
  tx_events :: "event list"

record block_results =
  br_height :: i64
  finalize_block_events :: "event list"
  txs_results :: "exec_tx_result list option"

record block =
  b_height :: i64
  b_timestamp :: nano
  b_hash :: string
  b_chain_id :: string
  b_results :: block_results
  b_txs :: "nat list list"

section \<open>Attributes\<close>

text \<open>Every readable pair, in order.\<close>

definition readable :: "event_attribute \<Rightarrow> (string \<times> string) option" where
  "readable a = (case (key_str a, value_str a) of (Some k, Some v) \<Rightarrow> Some (k, v) | _ \<Rightarrow> None)"

definition attrs :: "event \<Rightarrow> (string \<times> string) list" where
  "attrs e = List.map_filter readable (ev_attributes e)"

fun find_map :: "('a \<Rightarrow> 'b option) \<Rightarrow> 'a list \<Rightarrow> 'b option" where
  "find_map f [] = None"
| "find_map f (x # xs) = (case f x of Some y \<Rightarrow> Some y | None \<Rightarrow> find_map f xs)"

definition attr :: "event \<Rightarrow> string \<Rightarrow> string option" where
  "attr e key =
     find_map (\<lambda>a. case (key_str a, value_str a) of
                     (Some k, Some v) \<Rightarrow> (if k = key then Some v else None)
                   | _ \<Rightarrow> None)
              (ev_attributes e)"

definition make_attr :: "string \<Rightarrow> string \<Rightarrow> event_attribute" where
  "make_attr k v = \<lparr>key_str = Some k, value_str = Some v\<rparr>"

definition make_event :: "string \<Rightarrow> (string \<times> string) list \<Rightarrow> event" where
  "make_event kind kvs = \<lparr>ev_kind = kind, ev_attributes = map (\<lambda>(k, v). make_attr k v) kvs\<rparr>"

section \<open>Blocks\<close>

definition begin_block_events :: "block \<Rightarrow> (nat \<times> event) list" where
  "begin_block_events b =
     filter (\<lambda>(_, e). \<not> (case attr e ''mode'' of Some m \<Rightarrow> m \<noteq> ''BeginBlock'' | None \<Rightarrow> False))
       (List.enumerate 0 (finalize_block_events (b_results b)))"

definition end_block_events :: "block \<Rightarrow> (nat \<times> event) list" where
  "end_block_events b =
     filter (\<lambda>(_, e). attr e ''mode'' = Some ''EndBlock'')
       (List.enumerate 0 (finalize_block_events (b_results b)))"

definition successful_txs :: "block \<Rightarrow> (nat \<times> exec_tx_result) list" where
  "successful_txs b =
     filter (\<lambda>(_, tx). \<not> tx_code_is_err tx)
       (List.enumerate 0 (case txs_results (b_results b) of None \<Rightarrow> [] | Some txs \<Rightarrow> txs))"

section \<open>Lemmas\<close>

lemma find_map_None: "find_map f xs = None \<longleftrightarrow> (\<forall>x\<in>set xs. f x = None)"
  by (induction xs) (auto split: option.splits)

lemma find_map_map [simp]: "find_map f (map g xs) = find_map (\<lambda>x. f (g x)) xs"
  by (induction xs) (auto split: option.splits)

text \<open>The first readable pair with the key: \<open>attr\<close> looks up the association list \<open>attrs\<close>.\<close>

lemma attr_map_of: "attr e key = map_of (attrs e) key"
proof -
  have "find_map (\<lambda>a. case (key_str a, value_str a) of
          (Some k, Some v) \<Rightarrow> (if k = key then Some v else None) | _ \<Rightarrow> None) as =
        map_of (List.map_filter readable as) key" for as
    by (induction as) (auto simp: readable_def map_filter_simps split: option.splits)
  then show ?thesis by (simp add: attr_def attrs_def)
qed

lemma attrs_make_event [simp]: "attrs (make_event k kvs) = kvs"
proof -
  have "List.map_filter readable (map (\<lambda>(k, v). make_attr k v) kvs) = kvs"
    by (induction kvs) (auto simp: map_filter_simps readable_def make_attr_def)
  then show ?thesis by (simp add: attrs_def make_event_def)
qed

lemma attr_make_event [simp]: "attr (make_event k kvs) key = map_of kvs key"
  by (simp add: attr_map_of)

lemma ev_kind_make_event [simp]: "ev_kind (make_event k kvs) = k"
  by (simp add: make_event_def)

text \<open>Positions: every view lists events under their index in the original list, increasing.\<close>

lemma enumerate_nth: "(i, e) \<in> set (List.enumerate 0 xs) \<longleftrightarrow> i < length xs \<and> xs ! i = e"
  by (simp add: in_set_enumerate_eq)

lemma sorted_filter_enumerate: "sorted (map fst (filter P (List.enumerate n xs)))"
  by (rule sorted_filter) simp

lemma distinct_filter_enumerate: "distinct (map fst (filter P (List.enumerate n xs)))"
  by (rule distinct_map_filter) simp

lemma begin_end_disjoint: "set (begin_block_events b) \<inter> set (end_block_events b) = {}"
  by (auto simp: begin_block_events_def end_block_events_def)

lemma begin_block_events_iff:
  "(i, e) \<in> set (begin_block_events b) \<longleftrightarrow>
   i < length (finalize_block_events (b_results b)) \<and> finalize_block_events (b_results b) ! i = e
   \<and> (attr e ''mode'' = None \<or> attr e ''mode'' = Some ''BeginBlock'')"
  by (auto simp: begin_block_events_def enumerate_nth split: option.splits)

lemma end_block_events_iff:
  "(i, e) \<in> set (end_block_events b) \<longleftrightarrow>
   i < length (finalize_block_events (b_results b)) \<and> finalize_block_events (b_results b) ! i = e
   \<and> attr e ''mode'' = Some ''EndBlock''"
  by (auto simp: end_block_events_def enumerate_nth)

lemma successful_txs_iff:
  "(i, tx) \<in> set (successful_txs b) \<longleftrightarrow>
   (\<exists>txs. txs_results (b_results b) = Some txs \<and> i < length txs \<and> txs ! i = tx \<and> \<not> tx_code_is_err tx)"
  by (auto simp: successful_txs_def enumerate_nth split: option.splits)

end
