(* ===== verification/Units.thy ===== *)
theory Units
  imports F64 Chain_Types
begin

text \<open>
  \<open>crates/midgard-core\<close>: \<open>time.rs\<close> (seconds, nanoseconds, periods per year), \<open>units.rs\<close>
  (the number formats of the API, ratios, prices, the liquidity unit value index) and
  \<open>error.rs\<close> (the errors of a request and what the caller sees of them).
\<close>

section \<open>Time\<close>

definition NANOS_PER_SECOND :: i64 where "NANOS_PER_SECOND = 1000000000"

definition to_nano :: "second \<Rightarrow> nano" where
  "to_nano s = wrap64 (s * NANOS_PER_SECOND)"

definition to_second :: "nano \<Rightarrow> second" where
  "to_second n = n sdiv NANOS_PER_SECOND"

definition second_add :: "second \<Rightarrow> i64 \<Rightarrow> second" where
  "second_add s n = wrap64 (s + n)"

definition second_sub :: "second \<Rightarrow> i64 \<Rightarrow> second" where
  "second_sub s n = wrap64 (s - n)"

definition second_diff :: "second \<Rightarrow> second \<Rightarrow> i64" where
  "second_diff a b = wrap64 (a - b)"

text \<open>\<open>365.0 * 24.0 * 60.0 * 60.0 * 1e9\<close> is exact.\<close>

definition periods_per_year :: "second \<Rightarrow> second \<Rightarrow> f64" where
  "periods_per_year from_s to_s =
     (let span = wrap64 (to_nano to_s - to_nano from_s) in
      if span \<le> 0 then Zero False
      else f64_div (f64_of_i64 31536000000000000) (f64_of_i64 span))"

lemma to_second_to_nano:
  assumes "0 \<le> s" "s \<le> 9223372036"
  shows "to_second (to_nano s) = s"
  using assms by (simp add: to_second_def to_nano_def NANOS_PER_SECOND_def i64_ok_def sdiv_nonneg)

lemma to_nano_to_second:
  assumes "0 \<le> n" "i64_ok n"
  shows "to_nano (to_second n) \<le> n \<and> n < to_nano (to_second n) + NANOS_PER_SECOND"
proof -
  have "n div 1000000000 * 1000000000 \<le> n" "n < n div 1000000000 * 1000000000 + 1000000000"
    by (rule div_bounds; simp)+
  moreover have "0 \<le> n div 1000000000" using assms(1) by simp
  ultimately show ?thesis
    using assms by (simp add: to_second_def to_nano_def NANOS_PER_SECOND_def sdiv_nonneg i64_ok_def)
qed

section \<open>Units\<close>

definition E8 :: i64 where "E8 = 100000000"
definition UNKNOWN_DECIMALS :: i64 where "UNKNOWN_DECIMALS = - 1"

definition int_str :: "i64 \<Rightarrow> string" where
  "int_str v = int_to_string v"

definition float_str :: "f64 \<Rightarrow> string" where
  "float_str v =
     (if v = NaN then ''NaN''
      else if \<not> is_finite v then (if f64_lt (Zero False) v then ''+Inf'' else ''-Inf'')
      else let s = f64_to_string v in
        if CHR ''e'' \<in> set s \<or> CHR ''E'' \<in> set s then f64_to_string0 v else s)"

definition ratio :: "f64 \<Rightarrow> f64 \<Rightarrow> f64" where
  "ratio a b = (if f64_eq b (Zero False) then Zero False else f64_div a b)"

definition asset_price :: "i64 \<Rightarrow> i64 \<Rightarrow> f64" where
  "asset_price asset_e8 rune_e8 =
     (if asset_e8 = 0 then Zero False else f64_div (f64_of_i64 rune_e8) (f64_of_i64 asset_e8))"

definition luvi :: "i64 \<Rightarrow> i64 \<Rightarrow> i64 \<Rightarrow> f64" where
  "luvi asset_e8 rune_e8 units =
     (if units \<le> 0 then Zero False
      else f64_div (f64_sqrt (f64_mul (f64_of_i64 asset_e8) (f64_of_i64 rune_e8))) (f64_of_i64 units))"

section \<open>Errors\<close>

datatype error = BadRequest string | NotFound string | Internal string

fun status_code :: "error \<Rightarrow> int" where
  "status_code (BadRequest _) = 400"
| "status_code (NotFound _) = 404"
| "status_code (Internal _) = 500"

fun public_message :: "error \<Rightarrow> string" where
  "public_message (BadRequest m) = m"
| "public_message (NotFound m) = m"
| "public_message (Internal _) = ''Internal Server Error''"

section \<open>Lemmas\<close>

text \<open>A finite number is printed without an exponent: the branch for one is dead.\<close>

lemma int_to_string_no_e: "c \<in> set (int_to_string v) \<Longrightarrow> is_digit c \<or> c = CHR ''-''"
proof -
  assume c: "c \<in> set (int_to_string v)"
  have "list_all is_digit (nat_str n)" if "0 \<le> n" for n using nat_str_digits [OF that] by simp
  from this [of v] this [of "- v"] c show ?thesis
    by (auto simp: int_to_string_def list_all_iff split: if_splits)
qed

lemma decimal_str_chars: "c \<in> set (decimal_str D k) \<Longrightarrow> is_digit c \<or> c = CHR ''-'' \<or> c = CHR ''.''"
  by (auto simp: decimal_str_def Let_def is_digit_def dest!: in_set_takeD in_set_dropD int_to_string_no_e
      split: if_splits)

lemma finite_string_chars:
  "is_finite v \<Longrightarrow> c \<in> set (f64_to_string v) \<Longrightarrow> is_digit c \<or> c = CHR ''-'' \<or> c = CHR ''.''"
  by (cases v) (auto simp: is_digit_def split: prod.splits if_splits dest: decimal_str_chars)

lemma float_str_finite: "is_finite v \<Longrightarrow> float_str v = f64_to_string v"
  using finite_string_chars [of v "CHR ''e''"] finite_string_chars [of v "CHR ''E''"]
  by (auto simp: float_str_def Let_def is_digit_def)

lemma int_str_round_trip: "i64_ok v \<Longrightarrow> parse_i64 (int_str v) = Some v"
  by (simp add: int_str_def parse_int_to_string)

lemma ratio_zero [simp]: "ratio a (Zero s) = Zero False"
  by (simp add: ratio_def f64_eq_def f64_lt_def)

end
