(* ===== verification/Civil.thy ===== *)
theory Civil
  imports Units
begin

text \<open>
  The calendar arithmetic of \<open>crates/midgard-db/src/buckets.rs\<close>: seconds to civil dates and
  back. The lemmas place every second in its month and give the lengths of months and years.
\<close>

section \<open>Civil dates\<close>

text \<open>
  The operands of the truncating divisions are never negative, so they are \<open>div\<close>. Only the
  last product of \<open>epoch_seconds_from_civil\<close> can leave 64 bits.
\<close>

definition civil_from_epoch_seconds :: "i64 \<Rightarrow> i64 \<times> i64 \<times> i64" where
  "civil_from_epoch_seconds seconds =
     (let days = seconds div 86400;
          z = days + 719468;
          era = z div 146097;
          doe = z mod 146097;
          yoe = (doe - doe div 1460 + doe div 36524 - doe div 146096) div 365;
          y = yoe + era * 400;
          doy = doe - (365 * yoe + yoe div 4 - yoe div 100);
          mp = (5 * doy + 2) div 153;
          d = doy - (153 * mp + 2) div 5 + 1;
          m = (if mp < 10 then mp + 3 else mp - 9)
      in (if m \<le> 2 then y + 1 else y, m, d))"

definition epoch_seconds_from_civil :: "i64 \<Rightarrow> i64 \<Rightarrow> i64 \<Rightarrow> i64" where
  "epoch_seconds_from_civil year month day =
     (let y = (if month \<le> 2 then year - 1 else year);
          era = y div 400;
          yoe = y - era * 400;
          mp = (if 2 < month then month - 3 else month + 9);
          doy = (153 * mp + 2) div 5 + day - 1;
          doe = yoe * 365 + yoe div 4 - yoe div 100 + doy
      in wrap64 ((era * 146097 + doe - 719468) * 86400))"

section \<open>Days and months\<close>

text \<open>Days since the first of March of year zero; months counted from that March.\<close>

definition year_day :: "int \<Rightarrow> int" where
  "year_day y = 365 * y + y div 4 - y div 100 + y div 400"

definition month_day :: "int \<Rightarrow> int" where
  "month_day k = year_day (k div 12) + (153 * (k mod 12) + 2) div 5"

definition year_search :: "int \<Rightarrow> int" where
  "year_search d = d - d div 1460 + d div 36524 - d div 146096"

lemma div_step:
  assumes "0 < b"
  shows "((a::int) + 1) div b = a div b + (if (a + 1) mod b = 0 then 1 else 0)"
proof -
  define q r where qr: "q = a div b" "r = a mod b"
  have a: "a = q * b + r" and r: "0 \<le> r" "r < b"
    using assms div_mult_mod_eq [of a b] by (simp_all add: qr)
  show ?thesis
  proof (cases "r + 1 = b")
    case True
    then have "a + 1 = (q + 1) * b" using a by (simp add: distrib_right)
    then show ?thesis using assms by (simp add: qr(1) [symmetric])
  next
    case False
    then have "a + 1 = r + 1 + q * b" "0 \<le> r + 1" "r + 1 < b" using a r by simp_all
    then have "(a + 1) div b = q" "(a + 1) mod b = r + 1"
      using int_div_pos_eq [of "a + 1" b q "r + 1"] int_mod_pos_eq [of "a + 1" b q "r + 1"]
      by (simp_all add: mult.commute)
    then show ?thesis using r by (simp add: qr(1) [symmetric])
  qed
qed

lemma year_search_next:
  obtains p q r where "r \<Longrightarrow> q" "p \<longleftrightarrow> (d + 1) mod 1460 = 0"
    "year_search (d + 1) = year_search d + 1 - (if p then 1 else 0) + (if q then 1 else 0) - (if r then 1 else 0)"
proof
  have "(36524::int) dvd 146096" by simp
  then show "(d + 1) mod 146096 = 0 \<Longrightarrow> (d + 1) mod 36524 = 0"
    unfolding dvd_eq_mod_eq_0 [symmetric] by (blast intro: dvd_trans)
  show "year_search (d + 1) = year_search d + 1 - (if (d + 1) mod 1460 = 0 then 1 else 0)
      + (if (d + 1) mod 36524 = 0 then 1 else 0) - (if (d + 1) mod 146096 = 0 then 1 else 0)"
    unfolding year_search_def by (simp only: div_step zero_less_numeral)
qed simp

lemma year_search_step: "year_search d \<le> year_search (d + 1)"
  by (rule year_search_next [of d]) auto

lemma year_search_strict: "(d + 1) mod 1460 \<noteq> 0 \<Longrightarrow> year_search d < year_search (d + 1)"
  by (rule year_search_next [of d]) auto

lemma year_search_mono: "a \<le> b \<Longrightarrow> year_search a \<le> year_search b"
proof (induction b rule: int_ge_induct)
  case (step b)
  then show ?case using year_search_step [of b] by linarith
qed simp

text \<open>A year of an era: \<open>c\<close> centuries, \<open>k\<close> groups of four years, \<open>j\<close> years.\<close>

lemma year_split:
  assumes "0 \<le> y" "y < 400"
  obtains c k j :: int where "y = 100 * c + 4 * k + j" "0 \<le> c" "c \<le> 3" "0 \<le> k" "k \<le> 24" "0 \<le> j" "j \<le> 3"
proof
  show "y = 100 * (y div 100) + 4 * (y mod 100 div 4) + y mod 100 mod 4" by simp
  show "0 \<le> y div 100" "y div 100 \<le> 3" "0 \<le> y mod 100 div 4" "0 \<le> y mod 100 mod 4" "y mod 100 mod 4 \<le> 3"
    using assms by - presburger+
  show "y mod 100 div 4 \<le> 24" by presburger
qed

lemma year_start:
  assumes "0 \<le> c" "c \<le> 3" "0 \<le> k" "k \<le> 24" "0 \<le> j" "j \<le> 3" "y = 100 * c + 4 * k + j"
  shows "year_day y = 36524 * c + 1461 * k + 365 * j" "year_search (year_day y) = 365 * y"
    "0 < y \<Longrightarrow> year_day y mod 1460 \<noteq> 0"
proof -
  have "y div 4 = 25 * c + k" using assms by (intro int_div_pos_eq [of _ _ _ j]) simp_all
  moreover have "y div 100 = c" using assms by (intro int_div_pos_eq [of _ _ _ "4 * k + j"]) simp_all
  moreover have "y div 400 = 0" using assms by (intro div_pos_pos_trivial) simp_all
  ultimately show d: "year_day y = 36524 * c + 1461 * k + 365 * j"
    using assms(7) by (simp add: year_day_def)
  have "year_day y div 1460 = 25 * c + k"
    using assms d by (intro int_div_pos_eq [of _ _ _ "24 * c + k + 365 * j"]) simp_all
  moreover have "year_day y div 36524 = c"
    using assms d by (intro int_div_pos_eq [of _ _ _ "1461 * k + 365 * j"]) simp_all
  moreover have "year_day y div 146096 = 0"
    using assms d by (intro div_pos_pos_trivial) simp_all
  ultimately show "year_search (year_day y) = 365 * y"
    using assms(7) d by (simp add: year_search_def)
  have "year_day y mod 1460 = 24 * c + k + 365 * j"
    using assms d by (intro int_mod_pos_eq [of _ _ "25 * c + k"]) simp_all
  then show "0 < y \<Longrightarrow> year_day y mod 1460 \<noteq> 0" using assms by auto
qed

lemma year_search_years:
  assumes "0 \<le> y" "y < 400"
  shows "365 * y \<le> year_search (year_day y)" "year_search (year_day (y + 1) - 1) < 365 * (y + 1)"
proof -
  from year_split [OF assms] year_start(2) show "365 * y \<le> year_search (year_day y)" by (metis order_refl)
  show "year_search (year_day (y + 1) - 1) < 365 * (y + 1)"
  proof (cases "y + 1 = 400")
    case True
    then have "y = 399" by simp
    then show ?thesis by (simp add: year_day_def year_search_def)
  next
    case False
    then obtain c k j where s: "y + 1 = 100 * c + 4 * k + j" "0 \<le> c" "c \<le> 3" "0 \<le> k" "k \<le> 24" "0 \<le> j" "j \<le> 3"
      using assms year_split [of "y + 1"] by (metis add_increasing2 order_less_le zero_le_one zless_iff_Suc_zadd
          add1_zle_eq)
    let ?d = "year_day (y + 1) - 1"
    have "year_search (?d + 1) = 365 * (y + 1)" "(?d + 1) mod 1460 \<noteq> 0"
      using year_start(2,3) [OF s(2-7) s(1)] assms by simp_all
    moreover have "year_search ?d < year_search (?d + 1)"
      by (rule year_search_strict) (use calculation in simp)
    ultimately show ?thesis by simp
  qed
qed

lemma year_day_era: "year_day (y + 400 * e) = year_day y + 146097 * e"
proof -
  have "(y + 4 * (100 * e)) div 4 = y div 4 + 100 * e" "(y + 100 * (4 * e)) div 100 = y div 100 + 4 * e"
    "(y + 400 * e) div 400 = y div 400 + e" by simp_all
  then show ?thesis by (simp add: year_day_def)
qed

lemma year_day_step: "year_day (y + 1) - year_day y \<in> {365, 366}"
proof -
  define p q r where pqr: "p \<longleftrightarrow> (y + 1) mod 4 = 0" "q \<longleftrightarrow> (y + 1) mod 100 = 0" "r \<longleftrightarrow> (y + 1) mod 400 = 0"
  have "(4::int) dvd 100" "(100::int) dvd 400" by simp_all
  then have "q \<Longrightarrow> p" "r \<Longrightarrow> q"
    unfolding pqr dvd_eq_mod_eq_0 [symmetric] by (blast intro: dvd_trans)+
  moreover have "year_day (y + 1) =
      year_day y + 365 + (if p then 1 else 0) - (if q then 1 else 0) + (if r then 1 else 0)"
    unfolding year_day_def pqr by (simp only: div_step zero_less_numeral) (simp only: algebra_simps)
  ultimately show ?thesis by auto
qed

lemma year_day_strict: "x < y \<Longrightarrow> year_day x < year_day y"
proof (induction y rule: int_gr_induct)
  case base
  then show ?case using year_day_step [of x] by auto
next
  case (step y)
  then show ?case using year_day_step [of y] by auto
qed

lemma year_found:
  assumes "0 \<le> d" "d < 146097"
  shows "0 \<le> year_search d div 365" "year_search d div 365 < 400"
    "year_day (year_search d div 365) \<le> d" "d < year_day (year_search d div 365 + 1)"
proof -
  have "\<exists>y. 0 \<le> y \<and> y < 400 \<and> year_day y \<le> d \<and> d < year_day (y + 1)"
  proof -
    have "\<exists>y. 0 \<le> y \<and> y < n \<and> year_day y \<le> d \<and> d < year_day (y + 1)"
      if "0 \<le> n" "d < year_day n" for n
      using that
    proof (induction n rule: int_ge_induct)
      case base
      then show ?case using assms by (simp add: year_day_def)
    next
      case (step n)
      show ?case
      proof (cases "d < year_day n")
        case True
        with step show ?thesis by force
      next
        case False
        with step show ?thesis by (intro exI [of _ n]) auto
      qed
    qed
    from this [of 400] show ?thesis using assms by (simp add: year_day_def)
  qed
  then obtain y where y: "0 \<le> y" "y < 400" "year_day y \<le> d" "d < year_day (y + 1)" by blast
  have "365 * y \<le> year_search d" "year_search d < 365 * (y + 1)"
    using year_search_years [OF y(1,2)] year_search_mono [OF y(3)]
      year_search_mono [of d "year_day (y + 1) - 1"] y(4) by linarith+
  then have "year_search d div 365 = y"
    by (intro int_div_pos_eq [of _ _ _ "year_search d - 365 * y"]) simp_all
  with y show "0 \<le> year_search d div 365" "year_search d div 365 < 400"
    "year_day (year_search d div 365) \<le> d" "d < year_day (year_search d div 365 + 1)" by simp_all
qed

text \<open>Months have 28 to 31 days.\<close>

lemma month_cases:
  fixes i :: int
  assumes "0 \<le> i" "i < 12"
  shows "i \<in> {0, 1, 2, 3, 4, 5, 6, 7, 8, 9, 10, 11}"
proof -
  have "i \<in> set [0..11]" using assms by simp
  then show ?thesis by (simp add: upto_rec1 del: set_upto)
qed

lemma month_length: "28 \<le> month_day (k + 1) - month_day k" "month_day (k + 1) - month_day k \<le> 31"
proof -
  define y i where yi: "y = k div 12" "i = k mod 12"
  have k: "k = 12 * y + i" "0 \<le> i" "i < 12" by (simp_all add: yi)
  have "28 \<le> month_day (k + 1) - month_day k \<and> month_day (k + 1) - month_day k \<le> 31"
  proof (cases "i = 11")
    case True
    then have "k + 1 = 12 * (y + 1)" using k by simp
    then have "(k + 1) div 12 = y + 1" "(k + 1) mod 12 = 0" by (simp_all only: nonzero_mult_div_cancel_left mod_mult_self1_is_0 zero_neq_numeral not_False_eq_True)
    then have "month_day (k + 1) = year_day (y + 1)" by (simp add: month_day_def)
    moreover have "month_day k = year_day y + 337" using True by (simp add: month_day_def yi [symmetric])
    ultimately show ?thesis using year_day_step [of y] by auto
  next
    case False
    then have "(k + 1) div 12 = y" "(k + 1) mod 12 = i + 1"
      using k int_div_pos_eq [of "k + 1" 12 y "i + 1"] int_mod_pos_eq [of "k + 1" 12 y "i + 1"] by simp_all
    then have "month_day (k + 1) = year_day y + (153 * (i + 1) + 2) div 5"
      and "month_day k = year_day y + (153 * i + 2) div 5"
      by (simp_all add: month_day_def yi [symmetric])
    with month_cases [OF k(2,3)] False show ?thesis by auto
  qed
  then show "28 \<le> month_day (k + 1) - month_day k" "month_day (k + 1) - month_day k \<le> 31" by simp_all
qed

lemma year_length: "month_day (k + 12) - month_day k \<in> {365, 366}"
proof -
  have "(k + 12) div 12 = k div 12 + 1" "(k + 12) mod 12 = k mod 12" by simp_all
  then show ?thesis using year_day_step [of "k div 12"] by (auto simp: month_day_def)
qed

text \<open>The first second of a month, the months counted from January of year zero.\<close>

definition month_start :: "int \<Rightarrow> int" where
  "month_start j = (month_day (j - 2) - 719468) * 86400"

lemma epoch_of_first:
  assumes "1 \<le> m" "m \<le> 12"
  shows "epoch_seconds_from_civil y m 1 = wrap64 (month_start (12 * y + m - 1))"
proof -
  define y' i where yi: "y' = (if m \<le> 2 then y - 1 else y)" "i = (if 2 < m then m - 3 else m + 9)"
  have i: "0 \<le> i" "i < 12" "12 * y + m - 1 - 2 = 12 * y' + i" using assms by (auto simp: yi)
  have k: "(12 * y + m - 1 - 2) div 12 = y'" "(12 * y + m - 1 - 2) mod 12 = i"
    by (rule int_div_pos_eq [OF i(3,1,2)], rule int_mod_pos_eq [OF i(3,1,2)])
  define e r where er: "e = y' div 400" "r = y' - e * 400"
  have "year_day y' = year_day r + 146097 * e" using year_day_era [of r e] by (simp add: er)
  moreover have "r div 400 = 0"
    by (simp add: er minus_div_mult_eq_mod)
  ultimately have yd: "e * 146097 + (r * 365 + r div 4 - r div 100) = year_day y'"
    by (simp add: year_day_def [of r])
  have "epoch_seconds_from_civil y m 1 =
      wrap64 ((e * 146097 + (r * 365 + r div 4 - r div 100 + ((153 * i + 2) div 5 + 1 - 1)) - 719468) * 86400)"
    unfolding epoch_seconds_from_civil_def Let_def yi(1) [symmetric] yi(2) [symmetric] er [symmetric] ..
  also have "e * 146097 + (r * 365 + r div 4 - r div 100 + ((153 * i + 2) div 5 + 1 - 1)) =
      year_day y' + (153 * i + 2) div 5"
    using yd by simp
  finally show ?thesis by (simp only: month_start_def month_day_def k)
qed

lemma civil_month:
  assumes "civil_from_epoch_seconds s = (y, m, d)"
  shows "1 \<le> m" "m \<le> 12" "month_start (12 * y + m - 1) \<le> s" "s < month_start (12 * y + m - 1 + 1)"
proof -
  define z e doe r where zr: "z = s div 86400 + 719468" "e = z div 146097" "doe = z mod 146097"
    "r = year_search doe div 365"
  have doe: "0 \<le> doe" "doe < 146097" by (simp_all add: zr)
  note found = year_found [OF doe, folded zr(4)]
  define y' where y': "y' = r + e * 400"
  have "year_day y' = year_day r + 146097 * e" "year_day (y' + 1) = year_day (r + 1) + 146097 * e"
    using year_day_era [of r e] year_day_era [of "r + 1" e] by (simp_all add: y' algebra_simps)
  moreover have "z = 146097 * e + doe" by (simp add: zr)
  ultimately have z: "year_day y' \<le> z" "z < year_day (y' + 1)" "doe - year_day r = z - year_day y'"
    using found by simp_all
  define doy where doy: "doy = z - year_day y'"
  have doy': "0 \<le> doy" "doy < 366" using z year_day_step [of y'] by (auto simp: doy)
  have "r div 400 = 0" using found by simp
  then have doe_doy: "doe - (365 * r + r div 4 - r div 100) = doy"
    using z(3) doy unfolding year_day_def by linarith
  define i where i: "i = (5 * doy + 2) div 153"
  have ib: "153 * i \<le> 5 * doy + 2" "5 * doy + 2 < 153 * i + 153"
    using div_bounds [of 153 "5 * doy + 2"] by (simp_all add: i)
  then have ir: "0 \<le> i" "i < 12" using doy' by linarith+
  define k where k: "k = 12 * y' + i"
  have kd: "k div 12 = y'" "k mod 12 = i"
    using ir int_div_pos_eq [of k 12 y' i] int_mod_pos_eq [of k 12 y' i] by (simp_all add: k)
  have lo: "month_day k \<le> z"
  proof -
    have "(153 * i + 2) div 5 \<le> doy" using div_bounds [of 5 "153 * i + 2"] ib by linarith
    then show ?thesis by (simp add: month_day_def kd doy)
  qed
  have hi: "z < month_day (k + 1)"
  proof (cases "i = 11")
    case True
    then have "k + 1 = 12 * (y' + 1)" by (simp add: k)
    then have "(k + 1) div 12 = y' + 1" "(k + 1) mod 12 = 0"
      by (simp_all only: nonzero_mult_div_cancel_left mod_mult_self1_is_0 zero_neq_numeral not_False_eq_True)
    with z(2) show ?thesis by (simp add: month_day_def)
  next
    case False
    then have "(k + 1) div 12 = y'" "(k + 1) mod 12 = i + 1"
      using ir k int_div_pos_eq [of "k + 1" 12 y' "i + 1"] int_mod_pos_eq [of "k + 1" 12 y' "i + 1"]
      by simp_all
    moreover have "doy < (153 * (i + 1) + 2) div 5"
    proof -
      define q where q: "q = (153 * (i + 1) + 2) div 5"
      have "153 * (i + 1) + 2 < q * 5 + 5" unfolding q by (rule div_bounds) simp
      with ib show ?thesis unfolding q [symmetric] by simp
    qed
    ultimately show ?thesis by (simp add: month_day_def doy)
  qed
  have "civil_from_epoch_seconds s =
      (let m = (if i < 10 then i + 3 else i - 9) in (if m \<le> 2 then y' + 1 else y', m, doy - (153 * i + 2) div 5 + 1))"
    unfolding civil_from_epoch_seconds_def Let_def zr(1) [symmetric] zr(2) [symmetric] zr(3) [symmetric]
      year_search_def [symmetric] zr(4) [symmetric] doe_doy i [symmetric] y' [symmetric] by simp
  with assms ir have m: "1 \<le> m" "m \<le> 12" "12 * y + m - 3 = k"
    by (auto simp: Let_def k split: if_splits)
  then show "1 \<le> m" "m \<le> 12" by simp_all
  have sb: "(z - 719468) * 86400 \<le> s" "s < (z - 719468) * 86400 + 86400"
    unfolding zr(1) add_diff_cancel_right' by (rule div_bounds; simp)+
  have mk: "12 * y + m - 1 - 2 = k" "12 * y + m - 1 + 1 - 2 = k + 1" using m by simp_all
  show "month_start (12 * y + m - 1) \<le> s"
    unfolding month_start_def mk using lo sb(1) mult_right_mono [of "month_day k - 719468" "z - 719468" 86400]
    by simp
  define n where "n = month_day (k + 1)"
  have "z + 1 \<le> n" using hi by (simp add: n_def)
  then show "s < month_start (12 * y + m - 1 + 1)"
    unfolding month_start_def mk n_def [symmetric] using sb(2) unfolding left_diff_distrib by linarith
qed

end
