(* ===== verification/Calendar.thy ===== *)
theory Calendar
  imports Civil
begin

text \<open>
  The calendar of \<open>crates/midgard-db/src/buckets.rs\<close>: the intervals, civil dates, truncation to
  the start of an interval and the step to the next one. The locale \<open>calendar\<close> is what the
  buckets need of it: the interval starts are a strictly increasing sequence, truncating finds the
  start at or before a time, advancing goes to the next start.
\<close>

section \<open>Intervals\<close>

datatype interval = Min5 | Hour | Day | Week | Month | Quarter | Year

definition interval_parse :: "string \<Rightarrow> interval option" where
  "interval_parse s = (let l = to_ascii_lowercase s in
     if l = ''5min'' then Some Min5
     else if l = ''hour'' then Some Hour
     else if l = ''day'' then Some Day
     else if l = ''week'' then Some Week
     else if l = ''month'' then Some Month
     else if l = ''quarter'' then Some Quarter
     else if l = ''year'' then Some Year
     else None)"

fun interval_name :: "interval \<Rightarrow> string" where
  "interval_name Min5 = ''5min''"
| "interval_name Hour = ''hour''"
| "interval_name Day = ''day''"
| "interval_name Week = ''week''"
| "interval_name Month = ''month''"
| "interval_name Quarter = ''quarter''"
| "interval_name Year = ''year''"

fun date_trunc_field :: "interval \<Rightarrow> string" where
  "date_trunc_field Min5 = ''minute''"
| "date_trunc_field Hour = ''hour''"
| "date_trunc_field Day = ''day''"
| "date_trunc_field Week = ''week''"
| "date_trunc_field Month = ''month''"
| "date_trunc_field Quarter = ''quarter''"
| "date_trunc_field Year = ''year''"

fun min_duration :: "interval \<Rightarrow> i64" where
  "min_duration Min5 = 300"
| "min_duration Hour = 3600"
| "min_duration Day = 86400"
| "min_duration Week = 7 * 86400"
| "min_duration Month = 28 * 86400"
| "min_duration Quarter = 3 * 28 * 86400"
| "min_duration Year = 365 * 86400"

fun max_duration :: "interval \<Rightarrow> i64" where
  "max_duration Min5 = 300"
| "max_duration Hour = 3600"
| "max_duration Day = 86400"
| "max_duration Week = 7 * 86400"
| "max_duration Month = 31 * 86400"
| "max_duration Quarter = 3 * 31 * 86400"
| "max_duration Year = 366 * 86400"

section \<open>Truncating and advancing\<close>

definition truncate :: "interval \<Rightarrow> second \<Rightarrow> second" where
  "truncate iv s = (case iv of
     Min5 \<Rightarrow> wrap64 (s div 300 * 300)
   | Hour \<Rightarrow> wrap64 (s div 3600 * 3600)
   | Day \<Rightarrow> wrap64 (s div 86400 * 86400)
   | Week \<Rightarrow>
       let thursday_offset = 3 * 86400; shifted = wrap64 (s + thursday_offset)
       in wrap64 (shifted div (7 * 86400) * (7 * 86400) - thursday_offset)
   | _ \<Rightarrow>
       (case civil_from_epoch_seconds s of (year, month, _) \<Rightarrow>
         let month1 = (case iv of Quarter \<Rightarrow> (month - 1) div 3 * 3 + 1 | Year \<Rightarrow> 1 | _ \<Rightarrow> month);
             (year2, month2) = (if month1 < 1 then (year - 1, 1) else (year, month1))
         in epoch_seconds_from_civil year2 month2 1))"

definition advance :: "interval \<Rightarrow> second \<Rightarrow> second" where
  "advance iv t =
     (if iv \<in> {Min5, Hour, Day, Week} then second_add t (min_duration iv)
      else (case civil_from_epoch_seconds t of (year, month, _) \<Rightarrow>
        let step = (case iv of Month \<Rightarrow> 1 | Quarter \<Rightarrow> 3 | _ \<Rightarrow> 12);
            total = (year * 12 + (month - 1)) + step
        in epoch_seconds_from_civil (total div 12) (total mod 12 + 1) 1))"

section \<open>The interface\<close>

locale calendar =
  fixes trunc :: "int \<Rightarrow> int" and adv :: "int \<Rightarrow> int"
    and edge :: "int \<Rightarrow> int" and idx :: "int \<Rightarrow> int" and span :: int
    and in_range :: "int \<Rightarrow> bool"
  assumes idx_bounds: "edge (idx t) \<le> t" "t < edge (idx t + 1)"
    and edge_span: "edge (i + 1) \<le> edge i + span"
    and edge_less: "edge i < edge (i + 1)"
    and trunc_edge: "in_range t \<Longrightarrow> trunc t = edge (idx t)"
    and adv_edge: "in_range (edge i) \<Longrightarrow> adv (edge i) = edge (i + 1)"
begin

lemma edge_mono: "i < j \<Longrightarrow> edge i < edge j"
proof (induction j rule: int_gr_induct)
  case (step j)
  then show ?case using edge_less [of j] by simp
qed (use edge_less in simp)

lemma edge_le_iff [simp]: "edge i \<le> edge j \<longleftrightarrow> i \<le> j"
  using edge_mono [of i j] edge_mono [of j i] by (cases i j rule: linorder_cases) auto

lemma edge_less_iff [simp]: "edge i < edge j \<longleftrightarrow> i < j"
  using edge_le_iff [of j i] by linarith

lemma idx_edge [simp]: "idx (edge i) = i"
  using idx_bounds [of "edge i"] by simp

lemma idx_unique: "edge i \<le> t \<Longrightarrow> t < edge (i + 1) \<Longrightarrow> idx t = i"
proof -
  assume "edge i \<le> t" "t < edge (i + 1)"
  with idx_bounds [of t] have "edge (idx t) < edge (i + 1)" "edge i < edge (idx t + 1)" by linarith+
  then show "idx t = i" by simp
qed

lemma trunc_le: "in_range t \<Longrightarrow> trunc t \<le> t"
  by (simp add: trunc_edge idx_bounds)

lemma trunc_idem: "in_range t \<Longrightarrow> in_range (trunc t) \<Longrightarrow> trunc (trunc t) = trunc t"
  by (simp add: trunc_edge)

lemma trunc_mono: "in_range s \<Longrightarrow> in_range t \<Longrightarrow> s \<le> t \<Longrightarrow> trunc s \<le> trunc t"
proof -
  assume "in_range s" "in_range t" "s \<le> t"
  moreover have "edge (idx s) < edge (idx t + 1)"
    using idx_bounds [of s] idx_bounds [of t] \<open>s \<le> t\<close> by linarith
  ultimately show "trunc s \<le> trunc t" by (simp add: trunc_edge)
qed

lemma next_after_trunc: "in_range t \<Longrightarrow> in_range (trunc t) \<Longrightarrow> t < adv (trunc t)"
  by (simp add: trunc_edge adv_edge idx_bounds)

end

section \<open>The intervals are calendars\<close>

definition month_index :: "int \<Rightarrow> int" where
  "month_index t = (case civil_from_epoch_seconds t of (y, m, _) \<Rightarrow> 12 * y + m - 1)"

fun edge_of :: "interval \<Rightarrow> int \<Rightarrow> int" where
  "edge_of Min5 i = i * 300"
| "edge_of Hour i = i * 3600"
| "edge_of Day i = i * 86400"
| "edge_of Week i = i * (7 * 86400) - 3 * 86400"
| "edge_of Month i = month_start i"
| "edge_of Quarter i = month_start (3 * i)"
| "edge_of Year i = month_start (12 * i)"

fun index_of :: "interval \<Rightarrow> int \<Rightarrow> int" where
  "index_of Min5 t = t div 300"
| "index_of Hour t = t div 3600"
| "index_of Day t = t div 86400"
| "index_of Week t = (t + 3 * 86400) div (7 * 86400)"
| "index_of Month t = month_index t"
| "index_of Quarter t = month_index t div 3"
| "index_of Year t = month_index t div 12"

text \<open>Times with room for a year on either side within 64 bits.\<close>

definition time_ok :: "second \<Rightarrow> bool" where
  "time_ok t \<longleftrightarrow> - 4611686018427387904 \<le> t \<and> t \<le> 4611686018427387904"

lemma month_start_step:
  "month_start j + 28 * 86400 \<le> month_start (j + 1)" "month_start (j + 1) \<le> month_start j + 31 * 86400"
proof -
  have "j + 1 - 2 = (j - 2) + 1" by simp
  with month_length [of "j - 2"] have "month_day (j - 2) + 28 \<le> month_day (j + 1 - 2)"
    "month_day (j + 1 - 2) \<le> month_day (j - 2) + 31" by simp_all
  then show "month_start j + 28 * 86400 \<le> month_start (j + 1)" "month_start (j + 1) \<le> month_start j + 31 * 86400"
    unfolding month_start_def left_diff_distrib by linarith+
qed

lemma month_start_add:
  "0 \<le> n \<Longrightarrow> month_start j + n * (28 * 86400) \<le> month_start (j + n)"
  "0 \<le> n \<Longrightarrow> month_start (j + n) \<le> month_start j + n * (31 * 86400)"
proof -
  assume "0 \<le> n"
  then have "month_start j + n * (28 * 86400) \<le> month_start (j + n) \<and>
      month_start (j + n) \<le> month_start j + n * (31 * 86400)"
  proof (induction n rule: int_ge_induct)
    case (step n)
    then show ?case using month_start_step [of "j + n"] by (simp add: add.assoc distrib_right)
  qed simp
  then show "month_start j + n * (28 * 86400) \<le> month_start (j + n)"
    "month_start (j + n) \<le> month_start j + n * (31 * 86400)" by simp_all
qed

lemma month_start_year:
  "month_start j + 365 * 86400 \<le> month_start (j + 12)" "month_start (j + 12) \<le> month_start j + 366 * 86400"
proof -
  have "j + 12 - 2 = (j - 2) + 12" by simp
  with year_length [of "j - 2"] have "month_day (j - 2) + 365 \<le> month_day (j + 12 - 2)"
    "month_day (j + 12 - 2) \<le> month_day (j - 2) + 366" by auto
  then show "month_start j + 365 * 86400 \<le> month_start (j + 12)" "month_start (j + 12) \<le> month_start j + 366 * 86400"
    unfolding month_start_def left_diff_distrib by linarith+
qed

lemma month_start_mono: "i \<le> j \<Longrightarrow> month_start i \<le> month_start j"
  using month_start_add(1) [of "j - i" i] by simp

lemma month_start_less: "i < j \<Longrightarrow> month_start i < month_start j"
  using month_start_add(1) [of "j - i" i] by simp

lemma month_index_bounds: "month_start (month_index t) \<le> t" "t < month_start (month_index t + 1)"
  using civil_month(3,4) [of t] unfolding month_index_def by (auto split: prod.split)

text \<open>Each interval is between its shortest and its longest duration.\<close>

lemma edge_step:
  "edge_of iv i + min_duration iv \<le> edge_of iv (i + 1)" "edge_of iv (i + 1) \<le> edge_of iv i + max_duration iv"
proof -
  have "edge_of iv i + min_duration iv \<le> edge_of iv (i + 1) \<and>
      edge_of iv (i + 1) \<le> edge_of iv i + max_duration iv"
    using month_start_step [of i] month_start_add [of 3 "3 * i"] month_start_year [of "12 * i"]
    by (cases iv) (simp_all add: distrib_left distrib_right)
  then show "edge_of iv i + min_duration iv \<le> edge_of iv (i + 1)"
    "edge_of iv (i + 1) \<le> edge_of iv i + max_duration iv" by simp_all
qed

lemma durations: "0 < min_duration iv" "min_duration iv \<le> max_duration iv" "max_duration iv \<le> 366 * 86400"
  by (cases iv; simp)+

lemma index_bounds: "edge_of iv (index_of iv t) \<le> t \<and> t < edge_of iv (index_of iv t + 1)"
proof (cases iv)
  case Quarter
  have "3 * (month_index t div 3) \<le> month_index t" "month_index t + 1 \<le> 3 * (month_index t div 3 + 1)"
    by presburger+
  then show ?thesis
    using month_index_bounds [of t] Quarter month_start_mono [of "3 * (month_index t div 3)" "month_index t"]
      month_start_mono [of "month_index t + 1" "3 * (month_index t div 3 + 1)"] by simp
next
  case Year
  have "12 * (month_index t div 12) \<le> month_index t" "month_index t + 1 \<le> 12 * (month_index t div 12 + 1)"
    by presburger+
  then show ?thesis
    using month_index_bounds [of t] Year month_start_mono [of "12 * (month_index t div 12)" "month_index t"]
      month_start_mono [of "month_index t + 1" "12 * (month_index t div 12 + 1)"] by simp
next
  case Week
  have "(t + 3 * 86400) div (7 * 86400) * (7 * 86400) \<le> t + 3 * 86400"
    "t + 3 * 86400 < (t + 3 * 86400) div (7 * 86400) * (7 * 86400) + 7 * 86400"
    by (rule div_bounds; simp)+
  then show ?thesis using Week by (simp add: distrib_right)
qed (use div_bounds [of 300 t] div_bounds [of 3600 t] div_bounds [of 86400 t] month_index_bounds [of t] in
     \<open>simp_all add: distrib_right\<close>)

lemma month_index_start: "month_index (month_start j) = j"
proof -
  let ?i = "month_index (month_start j)"
  have "month_start ?i \<le> month_start j" "month_start j < month_start (?i + 1)"
    using month_index_bounds by simp_all
  then have "\<not> j < ?i" "\<not> ?i + 1 \<le> j" using month_start_less [of j ?i] month_start_mono [of "?i + 1" j] by auto
  then show ?thesis by simp
qed

lemma truncate_edge:
  assumes "time_ok t"
  shows "truncate iv t = edge_of iv (index_of iv t)"
proof -
  have "t < edge_of iv (index_of iv t) + max_duration iv"
    using index_bounds [of iv t] edge_step(2) [of iv "index_of iv t"] by linarith
  then have ok: "i64_ok (edge_of iv (index_of iv t))" and near: "i64_ok (t + 3 * 86400)"
    using assms index_bounds [of iv t] durations(3) [of iv] by (auto simp: time_ok_def i64_ok_def)
  obtain y m d where c: "civil_from_epoch_seconds t = (y, m, d)" by (metis prod_cases3)
  note m = civil_month(1,2) [OF c]
  have idx: "month_index t = 12 * y + m - 1" by (simp add: month_index_def c)
  show ?thesis
  proof (cases iv)
    case Quarter
    have q: "1 \<le> (m - 1) div 3 * 3 + 1" "(m - 1) div 3 * 3 + 1 \<le> 12" using m by presburger+
    have "12 * y + ((m - 1) div 3 * 3 + 1) - 1 = 3 * (month_index t div 3)"
      unfolding idx by presburger
    with epoch_of_first [OF q, of y] q ok Quarter show ?thesis
      by (simp add: truncate_def c Let_def del: One_nat_def)
  next
    case Year
    have "12 * y = 12 * (month_index t div 12)" unfolding idx using m by presburger
    with epoch_of_first [of 1 y] ok Year show ?thesis by (simp add: truncate_def c)
  next
    case Month
    with epoch_of_first [OF m, of y] ok m show ?thesis by (simp add: truncate_def c idx Let_def)
  qed (use ok near in \<open>simp_all add: truncate_def Let_def\<close>)
qed

lemma advance_edge:
  assumes "time_ok (edge_of iv i)"
  shows "advance iv (edge_of iv i) = edge_of iv (i + 1)"
proof -
  have ok: "i64_ok (edge_of iv (i + 1))"
    using assms edge_step [of iv i] durations [of iv] by (auto simp: time_ok_def i64_ok_def)
  have civil: "epoch_seconds_from_civil ((y * 12 + (m - 1) + n) div 12) ((y * 12 + (m - 1) + n) mod 12 + 1) 1
      = wrap64 (month_start (j + n))"
    if c: "civil_from_epoch_seconds (month_start j) = (y, m, d)" for j y m d n
  proof -
    have "12 * y + m - 1 = j" using month_index_start [of j] by (simp add: month_index_def c)
    then have jn: "y * 12 + (m - 1) + n = j + n" by simp
    have b: "1 \<le> (j + n) mod 12 + 1" "(j + n) mod 12 + 1 \<le> 12"
      using pos_mod_bound [of 12 "j + n"] pos_mod_sign [of 12 "j + n"] by linarith+
    have "12 * ((j + n) div 12) + ((j + n) mod 12 + 1) - 1 = j + n"
      using mult_div_mod_eq [of 12 "j + n"] by simp
    with epoch_of_first [OF b, of "(j + n) div 12"] show ?thesis unfolding jn by simp
  qed
  show ?thesis
  proof (cases iv)
    case Month
    then show ?thesis using civil [of i _ _ _ 1] ok by (simp add: advance_def Let_def split: prod.split)
  next
    case Quarter
    then show ?thesis using civil [of "3 * i" _ _ _ 3] ok
      by (simp add: advance_def Let_def distrib_left split: prod.split)
  next
    case Year
    then show ?thesis using civil [of "12 * i" _ _ _ 12] ok
      by (simp add: advance_def Let_def distrib_left split: prod.split)
  qed (use ok in \<open>simp_all add: advance_def second_add_def distrib_right\<close>)
qed

interpretation cal: calendar "truncate iv" "advance iv" "edge_of iv" "index_of iv" "max_duration iv" time_ok
  for iv
proof unfold_locales
  show "edge_of iv i < edge_of iv (i + 1)" for i using edge_step(1) [of iv i] durations(1) [of iv] by linarith
qed (use index_bounds in \<open>blast intro: edge_step truncate_edge advance_edge\<close>)+

end
