(* ===== verification/Tables.thy ===== *)
theory Tables
  imports F64 Chain_Types
begin

text \<open>
  The database as the sources see it through \<open>sqlx\<close>: tables of rows, a row giving each column a
  value, and transactions. What PostgreSQL answers to a transaction is a parameter
  (\<open>tx_outcome\<close>): it commits, it fails and leaves nothing, or the commit happens and its
  acknowledgement is lost. The table names are those of \<open>crates/midgard-db/src/tables.rs\<close>.
\<close>

datatype sql_value = VNull | VText string | VInt int | VBool bool | VFloat f64 | VBytes "int list"

type_synonym row = "(string \<times> sql_value) list"
type_synonym database = "string \<Rightarrow> row list"

definition cell :: "row \<Rightarrow> string \<Rightarrow> sql_value" where
  "cell r c = unwrap_or VNull (map_of r c)"

definition int_cell :: "row \<Rightarrow> string \<Rightarrow> int" where
  "int_cell r c = (case cell r c of VInt n \<Rightarrow> n | _ \<Rightarrow> 0)"

definition text_cell :: "row \<Rightarrow> string \<Rightarrow> string" where
  "text_cell r c = (case cell r c of VText s \<Rightarrow> s | _ \<Rightarrow> [])"

definition opt_text_cell :: "row \<Rightarrow> string \<Rightarrow> string option" where
  "opt_text_cell r c = (case cell r c of VText s \<Rightarrow> Some s | _ \<Rightarrow> None)"

definition bool_cell :: "row \<Rightarrow> string \<Rightarrow> bool" where
  "bool_cell r c = (case cell r c of VBool b \<Rightarrow> b | _ \<Rightarrow> False)"

fun opt_text :: "string option \<Rightarrow> sql_value" where
  "opt_text None = VNull"
| "opt_text (Some s) = VText s"

lemma cells [simp]:
  "cell ((c, v) # r) c' = (if c = c' then v else cell r c')"
  "cell [] c' = VNull"
  by (simp_all add: cell_def)

lemma cell_append: "cell (r @ s) c = (if c \<in> fst ` set r then cell r c else cell s c)"
proof (cases "map_of r c")
  case None
  then have "c \<notin> fst ` set r" by (simp add: map_of_eq_None_iff)
  with None show ?thesis by (simp add: cell_def map_add_def)
next
  case (Some v)
  then have "c \<in> fst ` set r" by (metis map_of_eq_None_iff option.distinct(1))
  with Some show ?thesis by (simp add: cell_def map_add_def)
qed

definition insert_rows :: "string \<Rightarrow> row list \<Rightarrow> database \<Rightarrow> database" where
  "insert_rows table rows db = (if rows = [] then db else db(table := db table @ rows))"

lemma insert_rows_apply [simp]: "insert_rows table rows db t = (if t = table then db t @ rows else db t)"
  by (simp add: insert_rows_def)

lemma insert_rows_Cons: "insert_rows t (x # xs) db = insert_rows t xs (insert_rows t [x] db)"
  by (auto simp: fun_eq_iff)

lemma insert_rows_Nil [simp]: "insert_rows t [] db = db"
  by (simp add: insert_rows_def)

section \<open>Transactions\<close>

datatype tx_outcome = Committed | RolledBack | CommitLost

text \<open>
  The body is \<open>None\<close> where a statement violates a constraint. The flag says whether the caller
  sees success.
\<close>

definition run_tx :: "tx_outcome \<Rightarrow> (database \<Rightarrow> database option) \<Rightarrow> database \<Rightarrow> database \<times> bool" where
  "run_tx outcome body db = (case body db of
     None \<Rightarrow> (db, False)
   | Some db' \<Rightarrow> (case outcome of Committed \<Rightarrow> (db', True) | RolledBack \<Rightarrow> (db, False)
                  | CommitLost \<Rightarrow> (db', False)))"

lemma run_tx_success: "run_tx oc body db = (db', True) \<longleftrightarrow> body db = Some db' \<and> oc = Committed"
  by (auto simp: run_tx_def split: option.splits tx_outcome.splits)

lemma run_tx_atomic: "run_tx oc body db = (db', b) \<Longrightarrow> db' = db \<or> body db = Some db'"
  by (auto simp: run_tx_def split: option.splits tx_outcome.splits)

section \<open>The tables\<close>

definition EVENT_TABLES :: "string list" where
  "EVENT_TABLES = [''active_vault_events'', ''add_events'', ''bond_events'', ''errata_events'',
     ''fee_events'', ''gas_events'', ''inactive_vault_events'', ''mint_burn_events'',
     ''outbound_events'', ''pending_liquidity_events'', ''pool_balance_change_events'',
     ''pool_events'', ''refund_events'', ''rewards_event_entries'', ''rewards_events'',
     ''set_mimir_events'', ''slash_events'', ''stake_events'', ''swap_events'', ''switch_events'',
     ''transfer_events'', ''update_node_account_status_events'', ''withdraw_events'']"

definition DERIVED_TABLES :: "string list" where
  "DERIVED_TABLES = [''block_pool_depths'', ''rune_price'']"

definition rollback_tables :: "string list" where
  "rollback_tables = EVENT_TABLES @ DERIVED_TABLES"

lemma block_log_not_rollback [simp]: "''block_log'' \<notin> set rollback_tables"
  by (simp add: rollback_tables_def EVENT_TABLES_def DERIVED_TABLES_def)

end
