(* ===== verification/Block_Log.thy ===== *)
theory Block_Log
  imports Tables Units
begin

text \<open>
  \<open>crates/midgard-db/src/block_log.rs\<close>: the cursor over the first and last block, the queries
  that fill it, and the deletion of the blocks from a height on.
\<close>

record block_pos =
  bp_height :: i64
  bp_timestamp :: nano

definition empty_pos :: block_pos where
  "empty_pos = \<lparr>bp_height = 0, bp_timestamp = 0\<rparr>"

definition is_empty :: "block_pos \<Rightarrow> bool" where
  "is_empty p \<longleftrightarrow> bp_height p = 0"

text \<open>
  The cursor is shared: a position lies in two atomics, written and read one after the other without a
  lock. \<open>cached_store\<close> is the writes in their order; a load reads the height in one state and the
  timestamp in a later one.
\<close>

record cached =
  ca_height :: i64
  ca_timestamp :: nano

definition cached_store :: "block_pos \<Rightarrow> (cached \<Rightarrow> cached) list" where
  "cached_store p = [\<lambda>c. c\<lparr>ca_height := bp_height p\<rparr>, \<lambda>c. c\<lparr>ca_timestamp := bp_timestamp p\<rparr>]"

definition cached_load :: "cached \<Rightarrow> cached \<Rightarrow> block_pos" where
  "cached_load c c' = \<lparr>bp_height = ca_height c, bp_timestamp = ca_timestamp c'\<rparr>"

text \<open>Between stores a load is the position stored, which is how \<open>block_cursor\<close> has it.\<close>

record block_cursor =
  cu_first :: block_pos
  cu_last :: block_pos

definition new_cursor :: block_cursor where
  "new_cursor = \<lparr>cu_first = empty_pos, cu_last = empty_pos\<rparr>"

definition pos_of_row :: "row \<Rightarrow> block_pos" where
  "pos_of_row r = \<lparr>bp_height = int_cell r ''height'', bp_timestamp = int_cell r ''timestamp''\<rparr>"

text \<open>\<open>ORDER BY height DESC LIMIT 1\<close> and \<open>ASC\<close>.\<close>

definition first_row :: "(row \<Rightarrow> int) \<Rightarrow> row list \<Rightarrow> row option" where
  "first_row key rows = (case sort_key key rows of [] \<Rightarrow> None | r # _ \<Rightarrow> Some r)"

definition last_block :: "database \<Rightarrow> block_pos option" where
  "last_block db = map_option pos_of_row (first_row (\<lambda>r. - int_cell r ''height'') (db ''block_log''))"

definition first_block :: "database \<Rightarrow> block_pos option" where
  "first_block db = map_option pos_of_row (first_row (\<lambda>r. int_cell r ''height'') (db ''block_log''))"

definition hash_at :: "database \<Rightarrow> i64 \<Rightarrow> sql_value option" where
  "hash_at db height =
     map_option (\<lambda>r. cell r ''hash'') (List.find (\<lambda>r. int_cell r ''height'' = height) (db ''block_log''))"

definition refresh :: "block_cursor \<Rightarrow> database \<Rightarrow> block_cursor" where
  "refresh c db =
     (let c1 = (case first_block db of Some p \<Rightarrow> c\<lparr>cu_first := p\<rparr> | None \<Rightarrow> c)
      in case last_block db of Some p \<Rightarrow> c1\<lparr>cu_last := p\<rparr> | None \<Rightarrow> c1)"

definition observe :: "block_cursor \<Rightarrow> block_pos \<Rightarrow> block_cursor" where
  "observe c pos =
     (let c1 = (if is_empty (cu_first c) then c\<lparr>cu_first := pos\<rparr> else c) in c1\<lparr>cu_last := pos\<rparr>)"

definition now_second :: "block_cursor \<Rightarrow> second" where
  "now_second c = second_add (to_second (bp_timestamp (cu_last c))) 1"

definition next_height :: "block_cursor \<Rightarrow> i64" where
  "next_height c = wrap64 (bp_height (cu_last c) + 1)"

text \<open>The deletion is one transaction; the timestamp is read before it.\<close>

definition delete_where :: "(row \<Rightarrow> bool) \<Rightarrow> string \<Rightarrow> database \<Rightarrow> database" where
  "delete_where P table db = db(table := filter (\<lambda>r. \<not> P r) (db table))"

definition delete_from_height :: "tx_outcome \<Rightarrow> database \<Rightarrow> i64 \<Rightarrow> database \<times> bool" where
  "delete_from_height oc db height =
     (case List.find (\<lambda>r. int_cell r ''height'' = height) (db ''block_log'') of
        None \<Rightarrow> (db, True)
      | Some r0 \<Rightarrow>
          let timestamp = int_cell r0 ''timestamp'' in
          run_tx oc (\<lambda>db0.
            let db1 = fold (delete_where (\<lambda>r. timestamp \<le> int_cell r ''block_timestamp''))
                        rollback_tables db0
            in Some (delete_where (\<lambda>r. height \<le> int_cell r ''height'') ''block_log'' db1)) db)"

section \<open>Lemmas\<close>

text \<open>
  A load that does not overlap a store reads what was stored; one that overlaps it can read the height
  of one block with the time of another, though never a height or a time that was not stored.
\<close>

lemma load_stored: "c' = fold (\<lambda>w. w) (cached_store p) c \<Longrightarrow> cached_load c' c' = p"
  by (simp add: cached_store_def cached_load_def)

lemma load_during_store:
  "c1 = hd (cached_store p) c \<Longrightarrow> cached_load c1 c1 = \<lparr>bp_height = bp_height p, bp_timestamp = ca_timestamp c\<rparr>"
  by (simp add: cached_store_def cached_load_def)

lemma load_of_stores:
  fixes p :: block_pos and c :: cached
  assumes "i \<le> j" "j \<le> 2"
  defines "at k \<equiv> fold (\<lambda>w. w) (take k (cached_store p)) c"
  shows "bp_height (cached_load (at i) (at j)) \<in> {ca_height c, bp_height p}"
    "bp_timestamp (cached_load (at i) (at j)) \<in> {ca_timestamp c, bp_timestamp p}"
  using assms(1,2) by (auto simp: at_def cached_store_def cached_load_def take_Cons split: nat.splits)

lemma first_row_min:
  assumes "first_row key rows = Some r"
  shows "r \<in> set rows" "s \<in> set rows \<Longrightarrow> key r \<le> key s"
proof -
  obtain rs where rs: "sort_key key rows = r # rs"
    using assms by (auto simp: first_row_def split: list.splits)
  then show "r \<in> set rows" by (metis list.set_intros(1) set_sort)
  assume "s \<in> set rows"
  then have "s \<in> set (r # rs)" by (metis rs set_sort)
  moreover have "sorted (map key (r # rs))" by (metis rs sorted_sort_key)
  ultimately show "key r \<le> key s" by auto
qed

lemma first_row_None [simp]: "first_row key rows = None \<longleftrightarrow> rows = []"
  by (auto simp: first_row_def split: list.splits) (metis length_0_conv length_sort)

lemma fold_delete_where:
  "distinct ts \<Longrightarrow> fold (delete_where P) ts db t = (if t \<in> set ts then filter (\<lambda>r. \<not> P r) (db t) else db t)"
  by (induction ts arbitrary: db) (auto simp: delete_where_def)

lemma distinct_rollback_tables: "distinct rollback_tables"
  by (simp add: rollback_tables_def EVENT_TABLES_def DERIVED_TABLES_def)

lemma observe_last [simp]: "cu_last (observe c p) = p"
  by (simp add: observe_def Let_def)

text \<open>Observed in order, the cursor holds the first and the last block.\<close>

lemma observe_all:
  assumes "\<And>p. p \<in> set ps \<Longrightarrow> bp_height p \<noteq> 0" "ps \<noteq> []"
  shows "foldl observe new_cursor ps = \<lparr>cu_first = hd ps, cu_last = last ps\<rparr>"
proof -
  have *: "foldl observe \<lparr>cu_first = q, cu_last = r\<rparr> qs = \<lparr>cu_first = q, cu_last = last (r # qs)\<rparr>"
    if "bp_height q \<noteq> 0" for q r qs
    using that by (induction qs arbitrary: r) (auto simp: observe_def is_empty_def)
  obtain q qs where ps: "ps = q # qs" using assms(2) by (cases ps) auto
  with assms(1) have "bp_height q \<noteq> 0" by simp
  from * [OF this, of q qs] show ?thesis
    by (simp add: ps observe_def new_cursor_def empty_pos_def is_empty_def)
qed

text \<open>Reading the cursor back gives the extremes of \<open>block_log\<close>.\<close>

lemma last_block_max:
  "last_block db = Some p \<Longrightarrow> r \<in> set (db ''block_log'') \<Longrightarrow> int_cell r ''height'' \<le> bp_height p"
  by (auto simp: last_block_def pos_of_row_def dest: first_row_min(2))

lemma first_block_min:
  "first_block db = Some p \<Longrightarrow> r \<in> set (db ''block_log'') \<Longrightarrow> bp_height p \<le> int_cell r ''height''"
  by (auto simp: first_block_def pos_of_row_def dest: first_row_min(2))

lemma refresh_next_above:
  assumes "db ''block_log'' \<noteq> []" "\<And>r. r \<in> set (db ''block_log'') \<Longrightarrow> i64_ok (int_cell r ''height'' + 1)"
    "r \<in> set (db ''block_log'')"
  shows "int_cell r ''height'' < next_height (refresh c db)"
proof -
  obtain q where q: "first_row (\<lambda>r. - int_cell r ''height'') (db ''block_log'') = Some q"
    using assms(1) by (metis first_row_None not_None_eq)
  then have "int_cell r ''height'' \<le> int_cell q ''height''" "i64_ok (int_cell q ''height'' + 1)"
    using first_row_min [OF q] assms(2,3) by force+
  moreover have "bp_height (cu_last (refresh c db)) = int_cell q ''height''"
    using q by (simp add: refresh_def last_block_def Let_def pos_of_row_def split: option.splits)
  ultimately show ?thesis by (simp add: next_height_def)
qed

end
