(* ===== verification/Buckets.thy ===== *)
theory Buckets
  imports Calendar Block_Log
begin

text \<open>
  \<open>crates/midgard-db/src/buckets.rs\<close>: from the query parameters \<open>from\<close>, \<open>to\<close>,
  \<open>count\<close> and \<open>interval\<close> to the boundaries of the buckets.
\<close>

definition MAX_INTERVAL_COUNT :: nat where "MAX_INTERVAL_COUNT = 400"

definition CUTOFF_WINDOW_MULTIPLE :: i64 where "CUTOFF_WINDOW_MULTIPLE = 2 * int MAX_INTERVAL_COUNT"

record window =
  wi_from :: second
  wi_until :: second

record buckets =
  bu_timestamps :: "second list"
  bu_interval :: "interval option"

definition one_bucket :: "second \<Rightarrow> second \<Rightarrow> buckets" where
  "one_bucket from_s until_s = \<lparr>bu_timestamps = [from_s, until_s], bu_interval = None\<rparr>"

text \<open>\<open>timestamps\<close> has at least two entries: the lemmas below keep it so.\<close>

definition bu_start :: "buckets \<Rightarrow> second" where
  "bu_start b = bu_timestamps b ! 0"

definition bu_end :: "buckets \<Rightarrow> second" where
  "bu_end b = last (bu_timestamps b)"

definition bu_count :: "buckets \<Rightarrow> nat" where
  "bu_count b = length (bu_timestamps b) - 1"

definition bucket :: "buckets \<Rightarrow> nat \<Rightarrow> window" where
  "bucket b i = \<lparr>wi_from = bu_timestamps b ! i, wi_until = bu_timestamps b ! (i + 1)\<rparr>"

definition bu_window :: "buckets \<Rightarrow> window" where
  "bu_window b = \<lparr>wi_from = bu_start b, wi_until = bu_end b\<rparr>"

definition is_one_interval :: "buckets \<Rightarrow> bool" where
  "is_one_interval b \<longleftrightarrow> bu_interval b = None"

definition truncated_timestamp :: "buckets \<Rightarrow> string \<Rightarrow> string" where
  "truncated_timestamp b column = (case bu_interval b of
     None \<Rightarrow> ''('' @ int_to_string (bu_start b) @ '')::BIGINT''
   | Some iv \<Rightarrow> ''EXTRACT(EPOCH FROM date_trunc('' @ [CHR 39] @ date_trunc_field iv @ [CHR 39]
       @ '', to_timestamp('' @ column @ ''/1000000000/300*300)))::BIGINT'')"

record bucket_params =
  bp_from :: "second option"
  bp_to :: "second option"
  bp_count :: "i64 option"
  bp_interval :: "interval option"

definition newline :: string where "newline = [CHR 10]"

definition USAGE :: string where
  "USAGE = concat (map (\<lambda>l. l @ newline)
    [''Usage:'', [],
     ''With an interval parameter you get a series of buckets:'',
     ''- interval: 5min, hour, day, week, month, quarter, year'',
     ''- count: optional int, 1..400'',
     ''- from/to: optional int, unix seconds'', [],
     ''Possible configurations with interval:'',
     ''- ?interval=day&count=10                       - last 10 days'',
     ''- ?interval=day&count=10&to=1608825600         - last 10 days before to'',
     ''- ?interval=day&count=10&from=1606780800       - next 10 days after from'',
     ''- ?interval=day&from=1606780800&to=1608825600  - days between from and to'', [],
     ''Without interval you get a single span:'',
     ''- ?from=1606780842&to=1608825642               - meta for this span'',
     ''- ?from=1606780842                             - until now'',
     ''- ?to=1608825642                               - since the start of the chain''])
    @ ''- no parameters                                - the whole chain''"

section \<open>Boundaries\<close>

text \<open>
  The \<open>while\<close> of \<open>boundaries\<close>: the first argument is what may still be pushed before the
  loop breaks, \<open>MAX_INTERVAL_COUNT + 3\<close> at its start.
\<close>

fun boundary_loop :: "nat \<Rightarrow> interval \<Rightarrow> second \<Rightarrow> second \<Rightarrow> second list" where
  "boundary_loop 0 iv until_s t = [t]"
| "boundary_loop (Suc n) iv until_s t =
     (if t < until_s then t # boundary_loop n iv until_s (advance iv t) else [t])"

definition boundaries :: "interval \<Rightarrow> window \<Rightarrow> error + buckets" where
  "boundaries iv w =
     (if wi_until w \<le> wi_from w
      then Inl (BadRequest ([CHR 39] @ ''from'' @ [CHR 39] @ '' ('' @ int_to_string (wi_from w)
        @ '') must be before '' @ [CHR 39] @ ''to'' @ [CHR 39] @ '' ('' @ int_to_string (wi_until w)
        @ '').'' @ newline @ USAGE))
      else if max_duration iv * CUTOFF_WINDOW_MULTIPLE < second_diff (wi_until w) (wi_from w)
      then Inl (BadRequest (''Too wide range requested, max allowed intervals (''
        @ int_to_string (int MAX_INTERVAL_COUNT) @ '').'' @ newline @ USAGE))
      else
        let timestamps = boundary_loop (MAX_INTERVAL_COUNT + 3) iv (wi_until w) (Calendar.truncate iv (wi_from w)) in
        if length timestamps < 2
        then Inl (BadRequest (''No interval requested. Use count or a wider from/to range.'' @ newline @ USAGE))
        else Inr \<lparr>bu_timestamps = timestamps, bu_interval = Some iv\<rparr>)"

section \<open>Clamping\<close>

fun last_ok_loop :: "second \<Rightarrow> second list \<Rightarrow> nat \<Rightarrow> nat" where
  "last_ok_loop last_b ts 0 = 0"
| "last_ok_loop last_b ts (Suc n) =
     (if 1 < Suc n \<and> last_b < ts ! n then last_ok_loop last_b ts n else Suc n)"

function first_ok_loop :: "second \<Rightarrow> second list \<Rightarrow> nat \<Rightarrow> nat \<Rightarrow> nat" where
  "first_ok_loop first_b ts last_ok i =
     (if i < last_ok - 1 \<and> ts ! (i + 1) < first_b
      then first_ok_loop first_b ts last_ok (i + 1) else i)"
  by pat_completeness auto
termination by (relation "measure (\<lambda>(_, _, l, i). l - i)") auto

declare first_ok_loop.simps [simp del]

definition restrict_to :: "second \<Rightarrow> second \<Rightarrow> buckets \<Rightarrow> buckets" where
  "restrict_to first_b last_b b =
     (let ts = bu_timestamps b;
          last_ok = last_ok_loop last_b ts (length ts - 1);
          first_ok = first_ok_loop first_b ts last_ok 0
      in b\<lparr>bu_timestamps := take (last_ok + 1 - first_ok) (drop first_ok ts)\<rparr>)"

section \<open>Generating\<close>

definition generate :: "bucket_params \<Rightarrow> block_cursor \<Rightarrow> error + buckets" where
  "generate params cursor =
     (let first_b = to_second (bp_timestamp (cu_first cursor)); now = now_second cursor in
      case bp_interval params of
        None \<Rightarrow>
          if bp_count params \<noteq> None
          then Inl (BadRequest (''count was provided but no interval parameter.'' @ newline @ USAGE))
          else Inr (one_bucket (unwrap_or first_b (bp_from params)) (unwrap_or now (bp_to params)))
      | Some iv \<Rightarrow>
        (case bp_count params of
          None \<Rightarrow>
            bindE (boundaries iv \<lparr>wi_from = unwrap_or first_b (bp_from params),
                                  wi_until = unwrap_or now (bp_to params)\<rparr>) (\<lambda>b.
            let b1 = (if MAX_INTERVAL_COUNT < bu_count b
                      then b\<lparr>bu_timestamps := take (MAX_INTERVAL_COUNT + 1) (bu_timestamps b)\<rparr> else b)
            in Inr (restrict_to first_b now b1))
        | Some cnt \<Rightarrow>
            if cnt < 1 \<or> int MAX_INTERVAL_COUNT < cnt
            then Inl (BadRequest (''Count out of range: '' @ int_to_string cnt @ '', allowed [1..''
                   @ int_to_string (int MAX_INTERVAL_COUNT) @ ''].'' @ newline @ USAGE))
            else if bp_from params \<noteq> None \<and> bp_to params \<noteq> None
            then Inl (BadRequest (''Count and from and to was specified. Specify max 2 of them.''
                   @ newline @ USAGE))
            else
              let span = cnt * max_duration iv;
                  (w, trim_from_start) =
                    (case bp_from params of
                       Some f \<Rightarrow> (\<lparr>wi_from = f, wi_until = second_add f span\<rparr>, False)
                     | None \<Rightarrow> (let to_s = unwrap_or now (bp_to params) in
                         (\<lparr>wi_from = second_sub to_s span, wi_until = to_s\<rparr>, True)))
              in bindE (boundaries iv w) (\<lambda>b.
                 let b1 = restrict_to first_b now b; n = nat cnt in
                 if n < bu_count b1 then
                   Inr (b1\<lparr>bu_timestamps := (if trim_from_start
                          then drop (bu_count b1 - n) (bu_timestamps b1)
                          else take (n + 1) (bu_timestamps b1))\<rparr>)
                 else Inr b1)))"

section \<open>The boundaries are calendar edges\<close>

definition sane_time :: "second \<Rightarrow> bool" where
  "sane_time t \<longleftrightarrow> - 4000000000000000000 \<le> t \<and> t \<le> 4000000000000000000"

lemma loop_edges:
  assumes "time_ok (edge_of iv i)" "u \<le> 4611686018427387904"
  shows "\<exists>j. boundary_loop n iv u (edge_of iv i) = map (edge_of iv) [i..j] \<and> i \<le> j \<and> j \<le> i + int n \<and>
    (\<forall>k. i \<le> k \<longrightarrow> k < j \<longrightarrow> edge_of iv k < u) \<and> (u \<le> edge_of iv j \<or> j = i + int n)"
  using assms(1)
proof (induction n arbitrary: i)
  case 0
  then show ?case by (intro exI [of _ i]) auto
next
  case (Suc n)
  show ?case
  proof (cases "edge_of iv i < u")
    case False
    then show ?thesis by (intro exI [of _ i]) auto
  next
    case True
    have "edge_of iv i < edge_of iv (i + 1)" by simp
    show ?thesis
    proof (cases "edge_of iv (i + 1) < u")
      case more: True
      then have "time_ok (edge_of iv (i + 1))"
        using Suc.prems assms(2) \<open>edge_of iv i < edge_of iv (i + 1)\<close> unfolding time_ok_def by linarith
      from Suc.IH [OF this] obtain j where j: "boundary_loop n iv u (edge_of iv (i + 1)) = map (edge_of iv) [i + 1..j]"
        "i + 1 \<le> j" "j \<le> i + 1 + int n" "\<forall>k. i + 1 \<le> k \<longrightarrow> k < j \<longrightarrow> edge_of iv k < u"
        "u \<le> edge_of iv j \<or> j = i + 1 + int n" by blast
      have "edge_of iv k < u" if "i \<le> k" "k < j" for k using j(4) True that by (cases "k = i") auto
      then show ?thesis using True j cal.adv_edge [OF Suc.prems] by (intro exI [of _ j]) (auto simp: upto_rec1)
    next
      case False
      then have "boundary_loop n iv u (edge_of iv (i + 1)) = [edge_of iv (i + 1)]" by (cases n) simp_all
      then show ?thesis
        using True False cal.adv_edge [OF Suc.prems] by (intro exI [of _ "i + 1"]) (auto simp: upto_rec1)
    qed
  qed
qed

lemma truncated_ok:
  assumes "sane_time t"
  shows "time_ok (edge_of iv (index_of iv t))" "time_ok t"
  using assms index_bounds [of iv t] edge_step(2) [of iv "index_of iv t"] durations(3) [of iv]
  by (auto simp: sane_time_def time_ok_def)

lemma boundaries_edges:
  assumes "sane_time (wi_from w)" "wi_until w \<le> 4611686018427387904" "boundaries iv w = Inr b"
  obtains j where "bu_timestamps b = map (edge_of iv) [index_of iv (wi_from w)..j]"
    "index_of iv (wi_from w) < j" "bu_interval b = Some iv" "wi_from w < wi_until w"
    "j \<le> index_of iv (wi_from w) + 403"
    "\<forall>k. index_of iv (wi_from w) \<le> k \<longrightarrow> k < j \<longrightarrow> edge_of iv k < wi_until w"
    "wi_until w \<le> edge_of iv j \<or> j = index_of iv (wi_from w) + 403"
proof -
  let ?i = "index_of iv (wi_from w)"
  note ok = truncated_ok(1) [OF assms(1), of iv] truncated_ok(2) [OF assms(1)]
  obtain j where j: "boundary_loop 403 iv (wi_until w) (edge_of iv ?i) = map (edge_of iv) [?i..j]" "?i \<le> j"
    "j \<le> ?i + int 403" "\<forall>k. ?i \<le> k \<longrightarrow> k < j \<longrightarrow> edge_of iv k < wi_until w"
    "wi_until w \<le> edge_of iv j \<or> j = ?i + int 403"
    using loop_edges [OF ok(1) assms(2), of 403] by blast
  have b: "wi_from w < wi_until w" "bu_timestamps b = map (edge_of iv) [?i..j]" "bu_interval b = Some iv"
    using assms(3) j(1) cal.trunc_edge [OF ok(2), of iv]
    by (auto simp: boundaries_def Let_def MAX_INTERVAL_COUNT_def split: if_splits)
  moreover have "edge_of iv ?i < wi_until w" using b(1) index_bounds [of iv "wi_from w"] by linarith
  then have "j \<noteq> ?i" using j(5) by auto
  ultimately show thesis using j that by simp
qed

text \<open>The error for an empty list of boundaries is never returned.\<close>

lemma boundaries_total:
  assumes "sane_time (wi_from w)" "wi_until w \<le> 4611686018427387904" "wi_from w < wi_until w"
    and "wi_until w - wi_from w \<le> 800 * max_duration iv"
  shows "\<exists>b. boundaries iv w = Inr b"
proof -
  let ?i = "index_of iv (wi_from w)"
  note ok = truncated_ok(1) [OF assms(1), of iv] truncated_ok(2) [OF assms(1)]
  have "edge_of iv ?i < wi_until w" using assms(3) index_bounds [of iv "wi_from w"] by linarith
  moreover obtain t ts where "boundary_loop 402 iv (wi_until w) (advance iv (edge_of iv ?i)) = t # ts"
    by (cases "boundary_loop 402 iv (wi_until w) (advance iv (edge_of iv ?i))") (auto split: if_splits simp: numeral_eq_Suc)
  ultimately have "2 \<le> length (boundary_loop 403 iv (wi_until w) (edge_of iv ?i))"
    by (simp add: numeral_eq_Suc)
  moreover have "second_diff (wi_until w) (wi_from w) = wi_until w - wi_from w"
    using assms(1-3) by (simp add: second_diff_def i64_ok_def sane_time_def)
  ultimately show ?thesis
    using assms(3,4) cal.trunc_edge [OF ok(2), of iv]
    by (auto simp: boundaries_def Let_def MAX_INTERVAL_COUNT_def CUTOFF_WINDOW_MULTIPLE_def mult.commute)
qed

section \<open>Clamping keeps the data\<close>

lemma last_ok_spec:
  assumes "1 \<le> n"
  shows "1 \<le> last_ok_loop l ts n \<and> last_ok_loop l ts n \<le> n \<and>
    (\<forall>k. last_ok_loop l ts n \<le> k \<longrightarrow> k < n \<longrightarrow> l < ts ! k) \<and>
    (last_ok_loop l ts n = 1 \<or> ts ! (last_ok_loop l ts n - 1) \<le> l)"
  using assms
proof (induction n)
  case (Suc n)
  show ?case
  proof (cases "1 < Suc n \<and> l < ts ! n")
    case True
    then show ?thesis using Suc.IH by (auto simp: less_Suc_eq)
  qed auto
qed simp

lemma first_ok_spec:
  "i \<le> l - 1 \<Longrightarrow> i \<le> first_ok_loop f ts l i \<and> first_ok_loop f ts l i \<le> l - 1 \<and>
    (\<forall>k. i \<le> k \<longrightarrow> k < first_ok_loop f ts l i \<longrightarrow> ts ! (k + 1) < f) \<and>
    (first_ok_loop f ts l i = l - 1 \<or> f \<le> ts ! (first_ok_loop f ts l i + 1))"
proof (induction f ts l i rule: first_ok_loop.induct)
  case (1 f ts l i)
  show ?case
  proof (cases "i < l - 1 \<and> ts ! (i + 1) < f")
    case True
    then have "i + 1 \<le> l - 1" by simp
    note ih = 1(1) [OF True this]
    have step: "first_ok_loop f ts l i = first_ok_loop f ts l (i + 1)"
      using True by (subst first_ok_loop.simps) simp
    have "ts ! (k + 1) < f" if "i \<le> k" "k < first_ok_loop f ts l (i + 1)" for k
      using ih True that by (cases "k = i") auto
    with ih step show ?thesis by auto
  next
    case False
    then have "first_ok_loop f ts l i = i" by (subst first_ok_loop.simps) (rule if_not_P)
    with 1(2) False show ?thesis by auto
  qed
qed

text \<open>What is left, as positions of the old list.\<close>

lemma restrict_positions:
  assumes "2 \<le> length (bu_timestamps b)"
  obtains p q where "p < q" "q < length (bu_timestamps b)"
    "restrict_to f l b = b\<lparr>bu_timestamps := take (q + 1 - p) (drop p (bu_timestamps b))\<rparr>"
    "\<forall>k<p. bu_timestamps b ! (k + 1) < f" "\<forall>k. q \<le> k \<longrightarrow> k < length (bu_timestamps b) - 1 \<longrightarrow> l < bu_timestamps b ! k"
    "q = 1 \<or> bu_timestamps b ! (q - 1) \<le> l" "p = q - 1 \<or> f \<le> bu_timestamps b ! (p + 1)"
proof -
  let ?ts = "bu_timestamps b"
  define q where q: "q = last_ok_loop l ?ts (length ?ts - 1)"
  define p where p: "p = first_ok_loop f ?ts q 0"
  have n: "1 \<le> length ?ts - 1" using assms by simp
  note qs = last_ok_spec [OF n, of l ?ts, folded q]
  have ps: "p \<le> q - 1" "\<forall>k<p. ?ts ! (k + 1) < f" "p = q - 1 \<or> f \<le> ?ts ! (p + 1)"
    using first_ok_spec [of 0 q f ?ts, folded p] by auto
  have "p < q" "q < length ?ts" using qs ps(1) n by auto
  moreover have "restrict_to f l b = b\<lparr>bu_timestamps := take (q + 1 - p) (drop p ?ts)\<rparr>"
    by (simp add: restrict_to_def Let_def q p)
  ultimately show thesis using that qs ps by blast
qed

lemma take_drop_upto:
  assumes "p < q" "q < length [i..j]"
  shows "take (q + 1 - p) (drop p (map e [i..j])) = map e [i + int p..i + int q]"
proof (rule nth_equalityI)
  show "length (take (q + 1 - p) (drop p (map e [i..j]))) = length (map e [i + int p..i + int q])"
    using assms by auto
qed (use assms in \<open>auto simp: add.assoc\<close>)

text \<open>No time with data falls out of the window when it is clamped.\<close>

lemma restrict_keeps_data:
  assumes "2 \<le> length (bu_timestamps b)" "sorted_wrt (<) (bu_timestamps b)"
    and "bu_start b \<le> s" "s < bu_end b" "f \<le> s" "s \<le> l"
  shows "bu_start (restrict_to f l b) \<le> s" "s < bu_end (restrict_to f l b)"
proof -
  let ?ts = "bu_timestamps b"
  obtain p q where pq: "p < q" "q < length ?ts"
    "restrict_to f l b = b\<lparr>bu_timestamps := take (q + 1 - p) (drop p ?ts)\<rparr>"
    "\<forall>k<p. ?ts ! (k + 1) < f" "\<forall>k. q \<le> k \<longrightarrow> k < length ?ts - 1 \<longrightarrow> l < ?ts ! k"
    using restrict_positions [OF assms(1)] by metis
  have st: "bu_start (restrict_to f l b) = ?ts ! p" using pq(1-3) by (simp add: bu_start_def)
  have en: "bu_end (restrict_to f l b) = ?ts ! q"
  proof -
    have len: "length (take (q + 1 - p) (drop p ?ts)) = q + 1 - p" using pq(1,2) by simp
    then have "take (q + 1 - p) (drop p ?ts) \<noteq> []" using pq(1) by force
    then show ?thesis using pq(1-3) len by (simp add: bu_end_def last_conv_nth)
  qed
  show "bu_start (restrict_to f l b) \<le> s"
  proof (cases p)
    case 0
    then show ?thesis using assms(3) st by (simp add: bu_start_def)
  next
    case (Suc k)
    then have "?ts ! p < f" using pq(4) by auto
    with st assms(5) show ?thesis by simp
  qed
  show "s < bu_end (restrict_to f l b)"
  proof (cases "q = length ?ts - 1")
    case True
    have "?ts \<noteq> []" using assms(1) by auto
    from last_conv_nth [OF this] True show ?thesis using assms(4) en by (simp add: bu_end_def)
  next
    case False
    then have "l < ?ts ! q" using pq(2,5) by auto
    with en assms(6) show ?thesis by simp
  qed
qed

lemma sorted_edges: "sorted_wrt (<) (map (edge_of iv) [i..j])"
  by (simp add: sorted_wrt_map)

lemma restrict_edges:
  assumes "bu_timestamps b = map (edge_of iv) [i..j]" "i < j"
  obtains i' j' where "restrict_to f l b = b\<lparr>bu_timestamps := map (edge_of iv) [i'..j']\<rparr>"
    "i \<le> i'" "i' < j'" "j' \<le> j"
    "i' = i \<or> edge_of iv i' < f" "j' = j \<or> l < edge_of iv j'"
    "j' = i + 1 \<or> edge_of iv (j' - 1) \<le> l" "i' = j' - 1 \<or> f \<le> edge_of iv (i' + 1)"
proof -
  have len: "2 \<le> length (bu_timestamps b)" "length (bu_timestamps b) = nat (j - i + 1)"
    using assms by auto
  have nth: "bu_timestamps b ! k = edge_of iv (i + int k)" if "k < length (bu_timestamps b)" for k
    using that assms(1) by auto
  obtain p q where pq: "p < q" "q < length (bu_timestamps b)"
    "restrict_to f l b = b\<lparr>bu_timestamps := take (q + 1 - p) (drop p (bu_timestamps b))\<rparr>"
    "\<forall>k<p. bu_timestamps b ! (k + 1) < f" "\<forall>k. q \<le> k \<longrightarrow> k < length (bu_timestamps b) - 1 \<longrightarrow> l < bu_timestamps b ! k"
    "q = 1 \<or> bu_timestamps b ! (q - 1) \<le> l" "p = q - 1 \<or> f \<le> bu_timestamps b ! (p + 1)"
    by (rule restrict_positions [OF len(1), of f l])
  show thesis
  proof (rule that [of "i + int p" "i + int q"])
    show "restrict_to f l b = b\<lparr>bu_timestamps := map (edge_of iv) [i + int p..i + int q]\<rparr>"
      using pq(1-3) assms(1) take_drop_upto [of p q i j "edge_of iv"] by simp
    show "i + int p = i \<or> edge_of iv (i + int p) < f"
      using pq(1,2,4) nth [of p] by (cases p) auto
    show "i + int q = j \<or> l < edge_of iv (i + int q)"
      using pq(2,5) nth [of q] len(2) by (cases "q = length (bu_timestamps b) - 1") auto
    have "int (q - 1) = int q - 1" using pq(1) by simp
    then show "i + int q = i + 1 \<or> edge_of iv (i + int q - 1) \<le> l"
      using pq(1,2,6) nth [of "q - 1"] by (auto simp: algebra_simps)
    show "i + int p = i + int q - 1 \<or> f \<le> edge_of iv (i + int p + 1)"
      using pq(1,2,7) nth [of "p + 1"] by (auto simp: algebra_simps)
  qed (use pq(1,2) len(2) in auto)
qed

section \<open>What is generated\<close>

definition cursor_sane :: "block_cursor \<Rightarrow> bool" where
  "cursor_sane c \<longleftrightarrow> i64_ok (bp_timestamp (cu_first c)) \<and> i64_ok (bp_timestamp (cu_last c))"

definition params_sane :: "bucket_params \<Rightarrow> bool" where
  "params_sane p \<longleftrightarrow> pred_option (\<lambda>t. \<bar>t\<bar> \<le> 3900000000000000000) (bp_from p)
     \<and> pred_option (\<lambda>t. \<bar>t\<bar> \<le> 3900000000000000000) (bp_to p)"

abbreviation data_start :: "block_cursor \<Rightarrow> second" where
  "data_start c \<equiv> to_second (bp_timestamp (cu_first c))"

lemma to_second_bounds: "i64_ok n \<Longrightarrow> - 9223372037 \<le> to_second n \<and> to_second n \<le> 9223372037"
proof -
  assume n: "i64_ok n"
  have "\<bar>n\<bar> div 1000000000 \<le> 9223372037" using n by (auto simp: i64_ok_def intro: order.trans [OF zdiv_mono1 [of _ 9223372036854775808]])
  moreover have "\<bar>to_second n\<bar> = \<bar>n\<bar> div 1000000000"
    by (cases "n = 0")
      (simp_all add: to_second_def NANOS_PER_SECOND_def signed_divide_int_def abs_mult abs_sgn_eq
        pos_imp_zdiv_nonneg_iff)
  ultimately show ?thesis by linarith
qed

lemma cursor_times:
  assumes "cursor_sane c"
  shows "- 9223372038 \<le> data_start c" "data_start c \<le> 9223372038"
    "- 9223372038 \<le> now_second c" "now_second c \<le> 9223372038"
  using assms to_second_bounds [of "bp_timestamp (cu_first c)"] to_second_bounds [of "bp_timestamp (cu_last c)"]
  by (auto simp: cursor_sane_def now_second_def second_add_def i64_ok_def)

text \<open>The window a request with an interval asks for, before clamping.\<close>

definition requested_window :: "interval \<Rightarrow> bucket_params \<Rightarrow> block_cursor \<Rightarrow> window" where
  "requested_window iv p c =
     (case bp_count p of
        None \<Rightarrow> \<lparr>wi_from = unwrap_or (data_start c) (bp_from p), wi_until = unwrap_or (now_second c) (bp_to p)\<rparr>
      | Some n \<Rightarrow>
          (case bp_from p of
             Some f \<Rightarrow> \<lparr>wi_from = f, wi_until = second_add f (n * max_duration iv)\<rparr>
           | None \<Rightarrow> \<lparr>wi_from = second_sub (unwrap_or (now_second c) (bp_to p)) (n * max_duration iv),
                     wi_until = unwrap_or (now_second c) (bp_to p)\<rparr>))"

lemma requested_sane:
  assumes "cursor_sane c" "params_sane p" "pred_option (\<lambda>n. 1 \<le> n \<and> n \<le> 400) (bp_count p)"
  shows "sane_time (wi_from (requested_window iv p c))" "wi_until (requested_window iv p c) \<le> 4611686018427387904"
proof -
  have d: "0 \<le> n * max_duration iv" "n * max_duration iv \<le> 400 * (366 * 86400)"
    if "1 \<le> n" "n \<le> 400" for n
    using that durations [of iv] mult_mono [of n 400 "max_duration iv" "366 * 86400"] by simp_all
  have t: "\<bar>unwrap_or x q\<bar> \<le> 3900000000000000000" if "\<bar>x\<bar> \<le> 9223372038" "q = None \<or> \<bar>the q\<bar> \<le> 3900000000000000000" for x :: int and q
    using that by (cases q) auto
  have "\<bar>unwrap_or (data_start c) (bp_from p)\<bar> \<le> 3900000000000000000"
    "\<bar>unwrap_or (now_second c) (bp_to p)\<bar> \<le> 3900000000000000000"
    using cursor_times [OF assms(1)] assms(2) by (auto intro!: t simp: params_sane_def pred_option_def)
  then have none: "sane_time (unwrap_or (data_start c) (bp_from p))"
    "\<bar>unwrap_or (now_second c) (bp_to p)\<bar> \<le> 3900000000000000000"
    by (auto simp: sane_time_def)
  show "sane_time (wi_from (requested_window iv p c))" "wi_until (requested_window iv p c) \<le> 4611686018427387904"
  proof (atomize (full), cases "bp_count p")
    case None
    with none show "sane_time (wi_from (requested_window iv p c)) \<and>
        wi_until (requested_window iv p c) \<le> 4611686018427387904"
      by (simp add: requested_window_def)
  next
    case (Some n)
    then have n: "0 \<le> n * max_duration iv" "n * max_duration iv \<le> 400 * (366 * 86400)" using d assms(3) by auto
    show "sane_time (wi_from (requested_window iv p c)) \<and>
        wi_until (requested_window iv p c) \<le> 4611686018427387904"
    proof (cases "bp_from p")
      case None
      define u where "u = unwrap_or (now_second c) (bp_to p)"
      have u: "\<bar>u\<bar> \<le> 3900000000000000000" using none(2) by (simp add: u_def)
      then have "i64_ok (u - n * max_duration iv)" using n by (auto simp: i64_ok_def)
      with u n Some None show ?thesis
        by (auto simp: requested_window_def second_sub_def sane_time_def u_def [symmetric])
    next
      case from_t: (Some t)
      then have t: "\<bar>t\<bar> \<le> 3900000000000000000" using assms(2) by (simp add: params_sane_def)
      then have "i64_ok (t + n * max_duration iv)" using n by (auto simp: i64_ok_def)
      with t n Some from_t show ?thesis
        by (auto simp: requested_window_def second_add_def sane_time_def)
    qed
  qed
qed

lemma take_upto: "0 \<le> n \<Longrightarrow> i + n \<le> j \<Longrightarrow> take (nat n + 1) (map e [i..j]) = map e [i..i + n]"
  by (rule nth_equalityI) auto

lemma drop_upto: "int k \<le> j - i + 1 \<Longrightarrow> drop k (map e [i..j]) = map e [i + int k..j]"
  by (rule nth_equalityI) (auto simp: add.assoc)

lemma generate_interval:
  assumes "generate p c = Inr b" "bp_interval p = Some iv"
  obtains b0 where "boundaries iv (requested_window iv p c) = Inr b0"
    "case bp_count p of
       None \<Rightarrow> b = restrict_to (data_start c) (now_second c)
                 (if 400 < bu_count b0 then b0\<lparr>bu_timestamps := take 401 (bu_timestamps b0)\<rparr> else b0)
     | Some n \<Rightarrow> 1 \<le> n \<and> n \<le> 400 \<and> (bp_from p = None \<or> bp_to p = None) \<and>
         (let b1 = restrict_to (data_start c) (now_second c) b0 in
          b = (if nat n < bu_count b1
               then b1\<lparr>bu_timestamps := if bp_from p = None then drop (bu_count b1 - nat n) (bu_timestamps b1)
                                        else take (nat n + 1) (bu_timestamps b1)\<rparr>
               else b1))"
  using assms
  by (cases "bp_count p"; cases "bp_from p")
    (auto simp: generate_def requested_window_def Let_def bindE_eq_Inr MAX_INTERVAL_COUNT_def
      split: if_splits)

text \<open>The buckets of an interval are consecutive calendar intervals, at most as many as asked for.\<close>

lemma generate_edges:
  assumes "cursor_sane c" "params_sane p" "generate p c = Inr b" "bp_interval p = Some iv"
  obtains i j where "bu_timestamps b = map (edge_of iv) [i..j]" "i < j" "bu_interval b = Some iv"
    "j - i \<le> unwrap_or 400 (bp_count p)"
proof -
  obtain b0 where b0: "boundaries iv (requested_window iv p c) = Inr b0"
    and b: "case bp_count p of
       None \<Rightarrow> b = restrict_to (data_start c) (now_second c)
                 (if 400 < bu_count b0 then b0\<lparr>bu_timestamps := take 401 (bu_timestamps b0)\<rparr> else b0)
     | Some n \<Rightarrow> 1 \<le> n \<and> n \<le> 400 \<and> (bp_from p = None \<or> bp_to p = None) \<and>
         (let b1 = restrict_to (data_start c) (now_second c) b0 in
          b = (if nat n < bu_count b1
               then b1\<lparr>bu_timestamps := if bp_from p = None then drop (bu_count b1 - nat n) (bu_timestamps b1)
                                        else take (nat n + 1) (bu_timestamps b1)\<rparr>
               else b1))"
    by (rule generate_interval [OF assms(3,4)])
  have "pred_option (\<lambda>n. 1 \<le> n \<and> n \<le> 400) (bp_count p)" using b by (cases "bp_count p") auto
  note sane = requested_sane [OF assms(1,2) this, of iv]
  obtain i j where ts: "bu_timestamps b0 = map (edge_of iv) [i..j]" "i < j" "bu_interval b0 = Some iv"
    by (rule boundaries_edges [OF sane b0])
  show thesis
  proof (cases "bp_count p")
    case None
    define b1 where "b1 = (if 400 < bu_count b0 then b0\<lparr>bu_timestamps := take 401 (bu_timestamps b0)\<rparr> else b0)"
    obtain j1 where b1: "bu_timestamps b1 = map (edge_of iv) [i..j1]" "i < j1" "j1 \<le> i + 400"
      "bu_interval b1 = Some iv"
    proof (cases "400 < bu_count b0")
      case True
      then show thesis using ts take_upto [of 400 i j "edge_of iv"] that [of "i + 400"]
        by (simp add: b1_def bu_count_def)
    next
      case False
      then show thesis using ts that [of j] by (simp add: b1_def bu_count_def)
    qed
    from b None have eq: "b = restrict_to (data_start c) (now_second c) b1" by (simp add: b1_def)
    obtain i' j' where "b = b1\<lparr>bu_timestamps := map (edge_of iv) [i'..j']\<rparr>" "i \<le> i'" "i' < j'" "j' \<le> j1"
      unfolding eq by (rule restrict_edges [OF b1(1,2)])
    then show thesis using that [of i' j'] b1 None by simp
  next
    case (Some n)
    define b1 where "b1 = restrict_to (data_start c) (now_second c) b0"
    obtain i' j' where r: "b1 = b0\<lparr>bu_timestamps := map (edge_of iv) [i'..j']\<rparr>" "i' < j'"
      unfolding b1_def by (rule restrict_edges [OF ts(1,2)])
    have cnt: "bu_count b1 = nat (j' - i')" using r by (simp add: bu_count_def)
    from b Some have n: "1 \<le> n" and eq: "b = (if nat n < bu_count b1
        then b1\<lparr>bu_timestamps := if bp_from p = None then drop (bu_count b1 - nat n) (bu_timestamps b1)
                                 else take (nat n + 1) (bu_timestamps b1)\<rparr> else b1)"
      by (simp_all add: Let_def b1_def)
    show thesis
    proof (cases "nat n < bu_count b1")
      case True
      then have "n < j' - i'" using cnt n by simp
      then have "drop (bu_count b1 - nat n) (bu_timestamps b1) = map (edge_of iv) [j' - n..j']"
        "take (nat n + 1) (bu_timestamps b1) = map (edge_of iv) [i'..i' + n]"
        using r n cnt drop_upto [of "bu_count b1 - nat n" j' i' "edge_of iv"] take_upto [of n i' j' "edge_of iv"]
        by (simp_all add: of_nat_diff)
      then show thesis
        using that [of "j' - n" j'] that [of i' "i' + n"] True eq n r ts Some by (cases "bp_from p") simp_all
    next
      case False
      then show thesis using that [of i' j'] eq r ts Some cnt n by simp
    qed
  qed
qed

lemma edge_distance:
  "0 \<le> n \<Longrightarrow> edge_of iv i + n * min_duration iv \<le> edge_of iv (i + n) \<and>
     edge_of iv (i + n) \<le> edge_of iv i + n * max_duration iv"
proof (induction n rule: int_ge_induct)
  case (step n)
  then show ?case using edge_step [of iv "i + n"] by (simp add: add.assoc distrib_right)
qed simp

text \<open>
  With \<open>interval\<close> and no \<open>count\<close>, a window of at most 399 shortest intervals is
  covered: no time with data in it is lost.
\<close>

lemma generate_covers_window:
  assumes "cursor_sane c" "params_sane p" "generate p c = Inr b" "bp_interval p = Some iv" "bp_count p = None"
    and "w = requested_window iv p c" "wi_until w - wi_from w \<le> 399 * min_duration iv"
    and "wi_from w \<le> t" "t < wi_until w" "data_start c \<le> t" "t \<le> now_second c"
  shows "bu_start b \<le> t \<and> t < bu_end b"
proof -
  obtain b0 where b0: "boundaries iv w = Inr b0"
    and b: "case bp_count p of
       None \<Rightarrow> b = restrict_to (data_start c) (now_second c)
                 (if 400 < bu_count b0 then b0\<lparr>bu_timestamps := take 401 (bu_timestamps b0)\<rparr> else b0)
     | Some n \<Rightarrow> 1 \<le> n \<and> n \<le> 400 \<and> (bp_from p = None \<or> bp_to p = None) \<and>
         (let b1 = restrict_to (data_start c) (now_second c) b0 in
          b = (if nat n < bu_count b1
               then b1\<lparr>bu_timestamps := if bp_from p = None then drop (bu_count b1 - nat n) (bu_timestamps b1)
                                        else take (nat n + 1) (bu_timestamps b1)\<rparr>
               else b1))"
    unfolding assms(6) by (rule generate_interval [OF assms(3,4)])
  have "pred_option (\<lambda>n. 1 \<le> n \<and> n \<le> 400) (bp_count p)" using assms(5) by simp
  note sane = requested_sane [OF assms(1,2) this, of iv, folded assms(6)]
  let ?i = "index_of iv (wi_from w)"
  obtain j where ts: "bu_timestamps b0 = map (edge_of iv) [?i..j]" "?i < j"
    "\<forall>k. ?i \<le> k \<longrightarrow> k < j \<longrightarrow> edge_of iv k < wi_until w" "wi_until w \<le> edge_of iv j \<or> j = ?i + 403"
    by (rule boundaries_edges [OF sane b0])
  have short: "j - ?i \<le> 400"
  proof (rule ccontr)
    assume "\<not> j - ?i \<le> 400"
    then have "edge_of iv (?i + 1) + 399 * min_duration iv \<le> edge_of iv (?i + 1 + 399)" "?i + 400 < j"
      using edge_distance [of 399 iv "?i + 1"] by simp_all
    moreover have "edge_of iv (?i + 400) < wi_until w" using ts(3) \<open>?i + 400 < j\<close> by simp
    ultimately show False using index_bounds [of iv "wi_from w"] assms(7) by (simp add: add.assoc)
  qed
  have eq: "b = restrict_to (data_start c) (now_second c) b0"
    using b assms(5) short ts(1,2) by (simp add: bu_count_def)
  have st: "bu_start b0 = edge_of iv ?i" "bu_end b0 = edge_of iv j"
    using ts(1,2) by (simp_all add: bu_start_def bu_end_def upto_rec1 [of ?i] last_map) (simp add: upto_rec2)
  have "bu_start b0 \<le> t" "t < bu_end b0"
    using st index_bounds [of iv "wi_from w"] assms(8,9) ts(4) short by auto
  with ts(1,2) have "bu_start b \<le> t" "t < bu_end b"
    unfolding eq by (intro restrict_keeps_data; use assms(10,11) sorted_edges in simp)+
  then show ?thesis by blast
qed

text \<open>The last \<open>n\<close> intervals: exactly \<open>n\<close>, the last one with the present in it.\<close>

lemma generate_latest:
  assumes "cursor_sane c" "p = \<lparr>bp_from = None, bp_to = None, bp_count = Some n, bp_interval = Some iv\<rparr>"
    and "1 \<le> n" "n \<le> 400" "n * max_duration iv \<le> 401 * min_duration iv"
    and "data_start c \<le> now_second c - n * max_duration iv"
  shows "\<exists>b j. generate p c = Inr b \<and> bu_timestamps b = map (edge_of iv) [j - n..j] \<and>
    edge_of iv (j - 1) < now_second c \<and> now_second c \<le> edge_of iv j"
proof -
  let ?now = "now_second c" and ?span = "n * max_duration iv"
  have span: "0 < ?span" "?span \<le> 400 * (366 * 86400)"
    using assms(3,4) durations [of iv] mult_mono [of n 400 "max_duration iv" "366 * 86400"] by simp_all
  note times = cursor_times [OF assms(1)]
  define w where "w = \<lparr>wi_from = ?now - ?span, wi_until = ?now\<rparr>"
  have w: "requested_window iv p c = w"
    using times span by (simp add: assms(2) requested_window_def w_def second_sub_def i64_ok_def)
  have sane: "sane_time (wi_from w)" "wi_until w \<le> 4611686018427387904"
    using times span by (simp_all add: w_def sane_time_def)
  obtain b0 where b0: "boundaries iv w = Inr b0"
  proof -
    have "?span \<le> 800 * max_duration iv" using assms(4) durations [of iv] by (intro mult_right_mono) simp_all
    then show thesis using boundaries_total [OF sane, of iv] span(1) that by (auto simp: w_def)
  qed
  let ?i = "index_of iv (wi_from w)"
  obtain j where ts: "bu_timestamps b0 = map (edge_of iv) [?i..j]" "?i < j" "bu_interval b0 = Some iv"
    "j \<le> ?i + 403" "\<forall>k. ?i \<le> k \<longrightarrow> k < j \<longrightarrow> edge_of iv k < wi_until w"
    "wi_until w \<le> edge_of iv j \<or> j = ?i + 403"
    by (rule boundaries_edges [OF sane b0])
  have ib: "edge_of iv ?i \<le> ?now - ?span" "?now - ?span < edge_of iv (?i + 1)"
    using index_bounds [of iv "wi_from w"] by (simp_all add: w_def)
  have before: "edge_of iv (j - 1) < ?now" using ts(2,5) by (simp add: w_def)
  have reach: "?now \<le> edge_of iv j"
  proof (rule ccontr)
    assume "\<not> ?now \<le> edge_of iv j"
    then have "j = ?i + 403" using ts(6) by (simp add: w_def)
    then have "j - 1 = ?i + 402" by simp
    with before have "edge_of iv (?i + 402) < ?now" by (simp only:)
    with edge_distance [of 401 iv "?i + 1"] ib assms(5) show False by (simp add: add.assoc)
  qed
  have "n \<le> j - ?i"
  proof (rule ccontr)
    assume "\<not> n \<le> j - ?i"
    then have "(j - ?i) * max_duration iv < ?span" using durations [of iv] by simp
    with edge_distance [of "j - ?i" iv ?i] ts(2) ib reach show False by simp
  qed
  define b1 where "b1 = restrict_to (data_start c) ?now b0"
  obtain i' j' where r: "b1 = b0\<lparr>bu_timestamps := map (edge_of iv) [i'..j']\<rparr>" "?i \<le> i'" "i' < j'" "j' \<le> j"
    "i' = ?i \<or> edge_of iv i' < data_start c" "j' = j \<or> ?now < edge_of iv j'"
    unfolding b1_def by (rule restrict_edges [OF ts(1,2)])
  have "j' = j"
  proof (rule ccontr)
    assume "j' \<noteq> j"
    then have "?now < edge_of iv j'" "edge_of iv j' \<le> edge_of iv (j - 1)" using r(4,6) by simp_all
    with before show False by linarith
  qed
  moreover have "i' = ?i"
  proof (rule ccontr)
    assume "i' \<noteq> ?i"
    then have "edge_of iv i' < data_start c" "edge_of iv (?i + 1) \<le> edge_of iv i'" using r(2,5) by simp_all
    with ib assms(6) show False by linarith
  qed
  ultimately have b1: "bu_timestamps b1 = map (edge_of iv) [?i..j]" "bu_count b1 = nat (j - ?i)"
    using r(1) by (simp_all add: bu_count_def)
  define b where "b = (if nat n < bu_count b1
     then b1\<lparr>bu_timestamps := drop (bu_count b1 - nat n) (bu_timestamps b1)\<rparr> else b1)"
  have "generate p c = Inr b"
    using assms(3,4) b0 w
    by (simp add: generate_def assms(2) requested_window_def Let_def MAX_INTERVAL_COUNT_def b_def b1_def)
  moreover have "bu_timestamps b = map (edge_of iv) [j - n..j]"
  proof (cases "nat n < bu_count b1")
    case True
    then have "?i + int (bu_count b1 - nat n) = j - n" using b1(2) assms(3)
      by (simp add: nat_diff_distrib [symmetric])
    with True b1 assms(3) drop_upto [of "bu_count b1 - nat n" j ?i "edge_of iv"] show ?thesis by (simp add: b_def)
  next
    case False
    then have "j - n = ?i" using b1(2) ts(2) \<open>n \<le> j - ?i\<close> by simp
    with False b1 show ?thesis by (simp add: b_def)
  qed
  ultimately show ?thesis using before reach by blast
qed

text \<open>
  Where 403 intervals from the start of the widened window do not reach the present, the loop
  breaks first and the buckets end before it.
\<close>

lemma loop_breaks:
  assumes "cursor_sane c" "p = \<lparr>bp_from = None, bp_to = None, bp_count = Some n, bp_interval = Some iv\<rparr>"
    and "generate p c = Inr b"
    and "edge_of iv (index_of iv (now_second c - n * max_duration iv) + 403) \<le> now_second c"
  shows "bu_end b = edge_of iv (index_of iv (now_second c - n * max_duration iv) + 403)"
proof -
  let ?now = "now_second c" and ?span = "n * max_duration iv"
  obtain b0 where b0: "boundaries iv (requested_window iv p c) = Inr b0" and n: "1 \<le> n" "n \<le> 400"
    and b: "let b1 = restrict_to (data_start c) ?now b0 in
          b = (if nat n < bu_count b1
               then b1\<lparr>bu_timestamps := drop (bu_count b1 - nat n) (bu_timestamps b1)\<rparr> else b1)"
    by (rule generate_interval [OF assms(3), of iv]) (auto simp: assms(2) Let_def)
  have span: "0 < ?span" "?span \<le> 400 * (366 * 86400)"
    using n durations [of iv] mult_mono [of n 400 "max_duration iv" "366 * 86400"] by simp_all
  note times = cursor_times [OF assms(1)]
  define w where "w = \<lparr>wi_from = ?now - ?span, wi_until = ?now\<rparr>"
  have w: "requested_window iv p c = w"
    using times span by (simp add: assms(2) requested_window_def w_def second_sub_def i64_ok_def)
  have sane: "sane_time (wi_from w)" "wi_until w \<le> 4611686018427387904"
    using times span by (simp_all add: w_def sane_time_def)
  let ?i = "index_of iv (?now - ?span)"
  obtain j where ts: "bu_timestamps b0 = map (edge_of iv) [?i..j]" "?i < j" "j \<le> ?i + 403"
    "\<forall>k. ?i \<le> k \<longrightarrow> k < j \<longrightarrow> edge_of iv k < ?now" "?now \<le> edge_of iv j \<or> j = ?i + 403"
    using boundaries_edges [OF sane b0 [unfolded w]] by (auto simp: w_def)
  have "j = ?i + 403"
  proof (rule ccontr)
    assume "j \<noteq> ?i + 403"
    then have "j < ?i + 403" "?now \<le> edge_of iv j" using ts(3,5) by auto
    moreover have "edge_of iv j < edge_of iv (?i + 403)" using \<open>j < ?i + 403\<close> by simp
    ultimately show False using assms(4) by linarith
  qed
  obtain i' j' where r: "restrict_to (data_start c) ?now b0 = b0\<lparr>bu_timestamps := map (edge_of iv) [i'..j']\<rparr>"
    "i' < j'" "j' \<le> j" "j' = j \<or> ?now < edge_of iv j'"
    by (rule restrict_edges [OF ts(1,2)])
  have "j' = j"
  proof (rule ccontr)
    assume "j' \<noteq> j"
    then have "?now < edge_of iv j'" "edge_of iv j' < edge_of iv j" using r(3,4) by auto
    moreover have "edge_of iv j \<le> ?now" using assms(4) \<open>j = ?i + 403\<close> by (simp only:)
    ultimately show False by linarith
  qed
  have "bu_end b = edge_of iv j'"
  proof -
    have last_edge: "last (map (edge_of iv) [m..j']) = edge_of iv j'" if "m \<le> j'" for m
      using that by (simp add: last_map upto_rec2)
    show ?thesis
      using b r(1,2) n last_edge [of i'] last_edge [of "i' + int (nat (j' - i') - nat n)"]
        drop_upto [of "nat (j' - i') - nat n" j' i' "edge_of iv"]
      by (auto simp: Let_def bu_end_def bu_count_def split: if_splits)
  qed
  with \<open>j' = j\<close> \<open>j = ?i + 403\<close> show ?thesis by simp
qed

end
