(* ===== verification/Bucket_Properties.thy ===== *)
theory Bucket_Properties
  imports Buckets
begin

text \<open>The properties of the buckets of the history endpoints.\<close>


definition sample_cursor :: block_cursor where
  "sample_cursor = \<lparr>cu_first = \<lparr>bp_height = 1, bp_timestamp = 1609459200000000000\<rparr>,
     cu_last = \<lparr>bp_height = 9, bp_timestamp = 1704067199000000000\<rparr>\<rparr>"

lemma sample_cursor_times:
  "cursor_sane sample_cursor" "now_second sample_cursor = 1704067200"
  "to_second (bp_timestamp (cu_first sample_cursor)) = 1609459200"
  by (simp_all add: cursor_sane_def sample_cursor_def i64_ok_def now_second_def second_add_def to_second_def
      NANOS_PER_SECOND_def sdiv_nonneg)

definition latest_params :: "interval \<Rightarrow> i64 \<Rightarrow> bucket_params" where
  "latest_params iv n = \<lparr>bp_from = None, bp_to = None, bp_count = Some n, bp_interval = Some iv\<rparr>"

lemma latest_generates:
  assumes "1 \<le> n" "n \<le> 400"
  shows "\<exists>b. generate (latest_params iv n) sample_cursor = Inr b"
proof -
  have span: "0 < n * max_duration iv" "n * max_duration iv \<le> 400 * (366 * 86400)"
    "n * max_duration iv \<le> 800 * max_duration iv"
    using assms durations [of iv] mult_mono [of n 400 "max_duration iv" "366 * 86400"] by simp_all
  let ?w = "\<lparr>wi_from = 1704067200 - n * max_duration iv, wi_until = 1704067200\<rparr>"
  have "\<exists>b. boundaries iv ?w = Inr b"
    by (rule boundaries_total) (use span in \<open>simp_all add: sane_time_def\<close>)
  then show ?thesis
    using assms span by (auto simp: generate_def latest_params_def Let_def MAX_INTERVAL_COUNT_def
        sample_cursor_times second_sub_def i64_ok_def)
qed




text \<open>C23: with an interval and no count, a request for at most 399 shortest intervals loses no time
  for which there is data: every second of the window between the first and the last block is inside
  the buckets, however they were clamped.\<close>

theorem buckets_cover_the_data:
  assumes "cursor_sane c" "params_sane p" "generate p c = Inr b" "bp_interval p = Some iv" "bp_count p = None"
    and "w = requested_window iv p c" "wi_until w - wi_from w \<le> 399 * min_duration iv"
    and "wi_from w \<le> t" "t < wi_until w" "data_start c \<le> t" "t \<le> now_second c"
  shows "bu_start b \<le> t \<and> t < bu_end b"
  using generate_covers_window [OF assms] .

theorem buckets_cover_the_data_witness:
  "\<exists>b. generate \<lparr>bp_from = Some 1700000000, bp_to = Some 1700100000, bp_count = None, bp_interval = Some Hour\<rparr>
       sample_cursor = Inr b \<and> bu_start b \<le> 1700050000 \<and> 1700050000 < bu_end b"
proof -
  let ?p = "\<lparr>bp_from = Some 1700000000, bp_to = Some 1700100000, bp_count = None, bp_interval = Some Hour\<rparr>"
  have "\<exists>b. boundaries Hour \<lparr>wi_from = 1700000000, wi_until = 1700100000\<rparr> = Inr b"
    by (rule boundaries_total) (simp_all add: sane_time_def)
  then obtain b where b: "generate ?p sample_cursor = Inr b" by (auto simp: generate_def Let_def)
  have w: "requested_window Hour ?p sample_cursor = \<lparr>wi_from = 1700000000, wi_until = 1700100000\<rparr>"
    by (simp add: requested_window_def)
  have "params_sane ?p" by (simp add: params_sane_def)
  from buckets_cover_the_data [OF sample_cursor_times(1) this b _ _ refl, of Hour 1700050000] b show ?thesis
    by (simp add: w sample_cursor_times)
qed

text \<open>C24: \<open>interval\<close> and \<open>count\<close> alone give exactly the last \<open>count\<close> intervals, the
  last of them holding the present, as long as the chain goes back far enough and the widened window
  fits the loop (always for the intervals of fixed length, up to 362 months).\<close>

theorem count_gives_the_last_intervals:
  assumes "cursor_sane c" "1 \<le> n" "n \<le> 400" "n * max_duration iv \<le> 401 * min_duration iv"
    and "data_start c \<le> now_second c - n * max_duration iv"
  shows "\<exists>b j. generate (latest_params iv n) c = Inr b \<and> bu_timestamps b = map (edge_of iv) [j - n..j] \<and>
    edge_of iv (j - 1) < now_second c \<and> now_second c \<le> edge_of iv j"
  using generate_latest [OF assms(1) refl assms(2-5)] by (simp add: latest_params_def)

theorem count_gives_the_last_intervals_witness:
  "\<exists>b j. generate (latest_params Month 24) sample_cursor = Inr b \<and>
     bu_timestamps b = map (edge_of Month) [j - 24..j] \<and> edge_of Month (j - 1) < 1704067200 \<and>
     1704067200 \<le> edge_of Month j"
  using count_gives_the_last_intervals [OF sample_cursor_times(1), of 24 Month]
  by (simp add: sample_cursor_times)


end
