(* ===== verification/Query.thy ===== *)
theory Query
  imports Buckets "HOL-Library.List_Lexorder" "HOL-Library.Char_ord"
begin

text \<open>
  \<open>crates/midgard-api/src/query.rs\<close>: the query parameters of a request, with the record of
  those that were asked for. A parser takes the parameters and returns its result with the
  parameters after it; \<open>then_take\<close> is the source's \<open>?\<close> between two of them.
\<close>

record params =
  pa_values :: "(string \<times> string) list"
  pa_consumed :: "string list"

definition new_params :: "(string \<times> string) list \<Rightarrow> params" where
  "new_params values = \<lparr>pa_values = values, pa_consumed = []\<rparr>"

type_synonym 'a parser = "params \<Rightarrow> (error + 'a) \<times> params"

definition then_take :: "'a parser \<Rightarrow> ('a \<Rightarrow> 'b parser) \<Rightarrow> 'b parser" where
  "then_take m f p = (case m p of (Inl e, p') \<Rightarrow> (Inl e, p') | (Inr a, p') \<Rightarrow> f a p')"

definition done_with :: "'a \<Rightarrow> 'a parser" where
  "done_with a p = (Inr a, p)"

definition fail_with :: "error \<Rightarrow> 'a parser" where
  "fail_with e p = (Inl e, p)"

definition take_key :: "string \<Rightarrow> params \<Rightarrow> string option \<times> params" where
  "take_key key p =
     (case map_of (pa_values p) key of Some v \<Rightarrow> if v = [] then None else Some v | None \<Rightarrow> None,
      p\<lparr>pa_consumed := pa_consumed p @ [key]\<rparr>)"

definition quoted :: "string \<Rightarrow> string" where
  "quoted s = [CHR 39] @ s @ [CHR 39]"

definition take_i64 :: "string \<Rightarrow> i64 option parser" where
  "take_i64 key p = (case take_key key p of
     (None, p') \<Rightarrow> (Inr None, p')
   | (Some v, p') \<Rightarrow>
       (map_ok Some (ok_or (BadRequest (quoted key @ '' is not an integer: '' @ v)) (parse_i64 v)), p'))"

definition take_second :: "string \<Rightarrow> second option parser" where
  "take_second key = take_i64 key"

definition take_string :: "string \<Rightarrow> string option parser" where
  "take_string key p = (case take_key key p of (v, p') \<Rightarrow> (Inr v, p'))"

definition reject_unknown :: "params \<Rightarrow> error + unit" where
  "reject_unknown p =
     (let unknown = filter (\<lambda>k. k \<notin> set (pa_consumed p)) (map fst (pa_values p)) in
      if unknown = [] then Inr ()
      else Inl (BadRequest (''unknown query parameter(s): '' @ join '', '' (sort unknown))))"

definition take_interval :: "interval option parser" where
  "take_interval p = (case take_key ''interval'' p of
     (None, p') \<Rightarrow> (Inr None, p')
   | (Some raw, p') \<Rightarrow>
       (map_ok Some (ok_or (BadRequest (''invalid interval '' @ quoted raw
          @ '', accepted values: 5min, hour, day, week, month, quarter, year'')) (interval_parse raw)), p'))"

definition take_buckets :: "bucket_params parser" where
  "take_buckets =
     then_take (take_second ''from'') (\<lambda>from_s.
     then_take (take_second ''to'') (\<lambda>to_s.
     then_take (take_i64 ''count'') (\<lambda>cnt.
     then_take take_interval (\<lambda>iv.
     done_with \<lparr>bp_from = from_s, bp_to = to_s, bp_count = cnt, bp_interval = iv\<rparr>))))"

text \<open>What every handler with parameters does: parse them, refuse the unknown, answer.\<close>

definition with_params :: "(string \<times> string) list \<Rightarrow> 'a parser \<Rightarrow> ('a \<Rightarrow> error + 'b) \<Rightarrow> error + 'b" where
  "with_params raw m answer =
     (case m (new_params raw) of
        (Inl e, _) \<Rightarrow> Inl e
      | (Inr a, p) \<Rightarrow> bindE (reject_unknown p) (\<lambda>_. answer a))"

section \<open>Which parameters a parser knows\<close>

text \<open>
  \<open>knows m ks\<close>: the parser leaves the values alone, records no names outside \<open>ks\<close>, and
  fails with a bad request only.
\<close>

definition knows :: "'a parser \<Rightarrow> string set \<Rightarrow> bool" where
  "knows m ks \<longleftrightarrow> (\<forall>p. pa_values (snd (m p)) = pa_values p \<and>
     set (pa_consumed (snd (m p))) \<subseteq> set (pa_consumed p) \<union> ks \<and>
     (\<forall>e. fst (m p) = Inl e \<longrightarrow> (\<exists>msg. e = BadRequest msg)))"

named_theorems knows_intros \<open>the parameters of a parser\<close>

lemma knows_done [knows_intros]: "knows (done_with a) ks"
  by (simp add: knows_def done_with_def)

lemma knows_fail [knows_intros]: "knows (fail_with (BadRequest msg)) ks"
  by (simp add: knows_def fail_with_def)

lemma knows_take [knows_intros]:
  "key \<in> ks \<Longrightarrow> knows (take_string key) ks" "key \<in> ks \<Longrightarrow> knows (take_i64 key) ks"
  "key \<in> ks \<Longrightarrow> knows (take_second key) ks"
  by (auto simp: knows_def take_string_def take_i64_def take_second_def take_key_def ok_or_eq_Inl
      split: option.split prod.split if_splits)

lemma knows_interval [knows_intros]: "''interval'' \<in> ks \<Longrightarrow> knows take_interval ks"
  by (auto simp: knows_def take_interval_def take_key_def ok_or_eq_Inl split: option.split prod.split if_splits)

lemma knows_run:
  assumes "knows m ks" "m p = (r, p')"
  shows "pa_values p' = pa_values p" "set (pa_consumed p') \<subseteq> set (pa_consumed p) \<union> ks"
    "r = Inl e \<Longrightarrow> \<exists>msg. e = BadRequest msg"
  using spec [OF assms(1) [unfolded knows_def], of p] assms(2) by simp_all

lemma knows_then [knows_intros]:
  assumes "knows m ks" "\<And>a. knows (f a) ks"
  shows "knows (then_take m f) ks"
  unfolding knows_def
proof (intro allI)
  fix p
  obtain r p' where m: "m p = (r, p')" by force
  note p' = knows_run [OF assms(1) m]
  show "pa_values (snd (then_take m f p)) = pa_values p \<and>
     set (pa_consumed (snd (then_take m f p))) \<subseteq> set (pa_consumed p) \<union> ks \<and>
     (\<forall>e. fst (then_take m f p) = Inl e \<longrightarrow> (\<exists>msg. e = BadRequest msg))"
  proof (cases r)
    case (Inl e)
    then show ?thesis using m p' by (auto simp: then_take_def)
  next
    case (Inr a)
    then have "then_take m f p = f a p'" using m by (simp add: then_take_def)
    moreover note knows_run [OF assms(2) [of a] prod.collapse [symmetric], of p']
    ultimately show ?thesis using p'(1,2) by (auto dest: sym)
  qed
qed

lemma knows_buckets [knows_intros]:
  "{''from'', ''to'', ''count'', ''interval''} \<subseteq> ks \<Longrightarrow> knows take_buckets ks"
  unfolding take_buckets_def by (intro knows_intros) auto

lemma reject_unknown_iff: "reject_unknown p = Inr () \<longleftrightarrow> set (map fst (pa_values p)) \<subseteq> set (pa_consumed p)"
  by (auto simp: reject_unknown_def Let_def filter_empty_conv)

text \<open>A request with a parameter the handler does not know is a bad request.\<close>

lemma with_params_unknown:
  assumes "knows m ks" "k \<in> set (map fst raw)" "k \<notin> ks"
  shows "\<exists>msg. with_params raw m answer = Inl (BadRequest msg)"
proof -
  obtain r p' where m: "m (new_params raw) = (r, p')" by force
  note kn = knows_run [OF assms(1) m]
  have p': "pa_values p' = raw" "set (pa_consumed p') \<subseteq> ks"
    using kn(1,2) by (simp_all add: new_params_def)
  show ?thesis
  proof (cases r)
    case (Inl e)
    then show ?thesis using m kn(3) [of e] by (auto simp: with_params_def)
  next
    case (Inr a)
    have "reject_unknown p' \<noteq> Inr ()" using p'(1,2) assms(2,3) unfolding reject_unknown_iff by blast
    then obtain msg where "reject_unknown p' = Inl (BadRequest msg)"
      by (auto simp: reject_unknown_def Let_def split: if_splits)
    then show ?thesis using m Inr by (simp add: with_params_def)
  qed
qed

end
