(* ===== verification/Models.thy ===== *)
theory Models
  imports Json Units
begin

text \<open>
  \<open>crates/midgard-api/src/models.rs\<close>: the response bodies and their form on the wire. A
  record per struct, and its \<open>Serialize\<close> with the names of the \<open>serde\<close> attributes as a
  function to JSON.
\<close>

record height_ts =
  ht_height :: i64
  ht_timestamp :: i64

definition json_of_height_ts :: "height_ts \<Rightarrow> json" where
  "json_of_height_ts x = JObj
    [(''height'', JInt (ht_height x)),
     (''timestamp'', JInt (ht_timestamp x))]"

record health =
  he_database :: bool
  he_in_sync :: bool
  he_scanner_height :: string
  he_last_committed :: height_ts
  he_last_fetched :: height_ts
  he_last_thornode :: height_ts
  he_last_aggregated :: height_ts

definition json_of_health :: "health \<Rightarrow> json" where
  "json_of_health x = JObj
    [(''database'', JBool (he_database x)),
     (''inSync'', JBool (he_in_sync x)),
     (''scannerHeight'', JStr (he_scanner_height x)),
     (''lastCommitted'', json_of_height_ts (he_last_committed x)),
     (''lastFetched'', json_of_height_ts (he_last_fetched x)),
     (''lastThorNode'', json_of_height_ts (he_last_thornode x)),
     (''lastAggregated'', json_of_height_ts (he_last_aggregated x))]"

record pool_detail =
  po_asset :: string
  po_status :: string
  po_asset_depth :: string
  po_rune_depth :: string
  po_asset_price :: string
  po_asset_price_usd :: string
  po_liquidity_units :: string
  po_synth_units :: string
  po_synth_supply :: string
  po_units :: string
  po_native_decimal :: string
  po_savers_depth :: string
  po_savers_units :: string
  po_volume_24h :: string
  po_annual_percentage_rate :: string
  po_pool_apy :: string
  po_earnings :: string
  po_earnings_annual_as_percent_of_depth :: string
  po_liquidity_in_usd :: string
  po_lp_luvi :: string
  po_savers_apr :: string
  po_total_collateral :: string
  po_total_debt_tor :: string

definition json_of_pool_detail :: "pool_detail \<Rightarrow> json" where
  "json_of_pool_detail x = JObj
    [(''asset'', JStr (po_asset x)),
     (''status'', JStr (po_status x)),
     (''assetDepth'', JStr (po_asset_depth x)),
     (''runeDepth'', JStr (po_rune_depth x)),
     (''assetPrice'', JStr (po_asset_price x)),
     (''assetPriceUSD'', JStr (po_asset_price_usd x)),
     (''liquidityUnits'', JStr (po_liquidity_units x)),
     (''synthUnits'', JStr (po_synth_units x)),
     (''synthSupply'', JStr (po_synth_supply x)),
     (''units'', JStr (po_units x)),
     (''nativeDecimal'', JStr (po_native_decimal x)),
     (''saversDepth'', JStr (po_savers_depth x)),
     (''saversUnits'', JStr (po_savers_units x)),
     (''volume24h'', JStr (po_volume_24h x)),
     (''annualPercentageRate'', JStr (po_annual_percentage_rate x)),
     (''poolAPY'', JStr (po_pool_apy x)),
     (''earnings'', JStr (po_earnings x)),
     (''earningsAnnualAsPercentOfDepth'', JStr (po_earnings_annual_as_percent_of_depth x)),
     (''liquidityInUSD'', JStr (po_liquidity_in_usd x)),
     (''lpLuvi'', JStr (po_lp_luvi x)),
     (''saversAPR'', JStr (po_savers_apr x)),
     (''totalCollateral'', JStr (po_total_collateral x)),
     (''totalDebtTor'', JStr (po_total_debt_tor x))]"

record 'a history =
  hi_intervals :: "'a list"
  hi_meta :: 'a

definition json_of_history :: "('a \<Rightarrow> json) \<Rightarrow> 'a history \<Rightarrow> json" where
  "json_of_history item x = JObj [(''intervals'', JArr (map item (hi_intervals x))), (''meta'', item (hi_meta x))]"

record depth_history_item =
  dh_start_time :: string
  dh_end_time :: string
  dh_asset_depth :: string
  dh_rune_depth :: string
  dh_asset_price :: string
  dh_asset_price_usd :: string
  dh_liquidity_units :: string
  dh_synth_units :: string
  dh_synth_supply :: string
  dh_units :: string
  dh_members_count :: string
  dh_luvi :: string

definition json_of_depth_history_item :: "depth_history_item \<Rightarrow> json" where
  "json_of_depth_history_item x = JObj
    [(''startTime'', JStr (dh_start_time x)),
     (''endTime'', JStr (dh_end_time x)),
     (''assetDepth'', JStr (dh_asset_depth x)),
     (''runeDepth'', JStr (dh_rune_depth x)),
     (''assetPrice'', JStr (dh_asset_price x)),
     (''assetPriceUSD'', JStr (dh_asset_price_usd x)),
     (''liquidityUnits'', JStr (dh_liquidity_units x)),
     (''synthUnits'', JStr (dh_synth_units x)),
     (''synthSupply'', JStr (dh_synth_supply x)),
     (''units'', JStr (dh_units x)),
     (''membersCount'', JStr (dh_members_count x)),
     (''luvi'', JStr (dh_luvi x))]"

record depth_history_meta =
  dm_start_time :: string
  dm_end_time :: string
  dm_start_asset_depth :: string
  dm_start_rune_depth :: string
  dm_start_lp_units :: string
  dm_start_synth_units :: string
  dm_start_member_count :: string
  dm_end_asset_depth :: string
  dm_end_rune_depth :: string
  dm_end_lp_units :: string
  dm_end_synth_units :: string
  dm_end_member_count :: string
  dm_luvi_increase :: string
  dm_price_shift_loss :: string

definition json_of_depth_history_meta :: "depth_history_meta \<Rightarrow> json" where
  "json_of_depth_history_meta x = JObj
    [(''startTime'', JStr (dm_start_time x)),
     (''endTime'', JStr (dm_end_time x)),
     (''startAssetDepth'', JStr (dm_start_asset_depth x)),
     (''startRuneDepth'', JStr (dm_start_rune_depth x)),
     (''startLPUnits'', JStr (dm_start_lp_units x)),
     (''startSynthUnits'', JStr (dm_start_synth_units x)),
     (''startMemberCount'', JStr (dm_start_member_count x)),
     (''endAssetDepth'', JStr (dm_end_asset_depth x)),
     (''endRuneDepth'', JStr (dm_end_rune_depth x)),
     (''endLPUnits'', JStr (dm_end_lp_units x)),
     (''endSynthUnits'', JStr (dm_end_synth_units x)),
     (''endMemberCount'', JStr (dm_end_member_count x)),
     (''luviIncrease'', JStr (dm_luvi_increase x)),
     (''priceShiftLoss'', JStr (dm_price_shift_loss x))]"

record depth_history =
  dp_intervals :: "depth_history_item list"
  dp_meta :: depth_history_meta

definition json_of_depth_history :: "depth_history \<Rightarrow> json" where
  "json_of_depth_history x = JObj
    [(''intervals'', JArr (map json_of_depth_history_item (dp_intervals x))),
     (''meta'', json_of_depth_history_meta (dp_meta x))]"

record swap_history_item =
  si_start_time :: string
  si_end_time :: string
  si_to_asset_count :: string
  si_to_rune_count :: string
  si_synth_mint_count :: string
  si_synth_redeem_count :: string
  si_total_count :: string
  si_to_asset_volume :: string
  si_to_rune_volume :: string
  si_synth_mint_volume :: string
  si_synth_redeem_volume :: string
  si_total_volume :: string
  si_to_asset_fees :: string
  si_to_rune_fees :: string
  si_synth_mint_fees :: string
  si_synth_redeem_fees :: string
  si_total_fees :: string
  si_to_asset_average_slip :: string
  si_to_rune_average_slip :: string
  si_synth_mint_average_slip :: string
  si_synth_redeem_average_slip :: string
  si_average_slip :: string
  si_rune_price_usd :: string

definition json_of_swap_history_item :: "swap_history_item \<Rightarrow> json" where
  "json_of_swap_history_item x = JObj
    [(''startTime'', JStr (si_start_time x)),
     (''endTime'', JStr (si_end_time x)),
     (''toAssetCount'', JStr (si_to_asset_count x)),
     (''toRuneCount'', JStr (si_to_rune_count x)),
     (''synthMintCount'', JStr (si_synth_mint_count x)),
     (''synthRedeemCount'', JStr (si_synth_redeem_count x)),
     (''totalCount'', JStr (si_total_count x)),
     (''toAssetVolume'', JStr (si_to_asset_volume x)),
     (''toRuneVolume'', JStr (si_to_rune_volume x)),
     (''synthMintVolume'', JStr (si_synth_mint_volume x)),
     (''synthRedeemVolume'', JStr (si_synth_redeem_volume x)),
     (''totalVolume'', JStr (si_total_volume x)),
     (''toAssetFees'', JStr (si_to_asset_fees x)),
     (''toRuneFees'', JStr (si_to_rune_fees x)),
     (''synthMintFees'', JStr (si_synth_mint_fees x)),
     (''synthRedeemFees'', JStr (si_synth_redeem_fees x)),
     (''totalFees'', JStr (si_total_fees x)),
     (''toAssetAverageSlip'', JStr (si_to_asset_average_slip x)),
     (''toRuneAverageSlip'', JStr (si_to_rune_average_slip x)),
     (''synthMintAverageSlip'', JStr (si_synth_mint_average_slip x)),
     (''synthRedeemAverageSlip'', JStr (si_synth_redeem_average_slip x)),
     (''averageSlip'', JStr (si_average_slip x)),
     (''runePriceUSD'', JStr (si_rune_price_usd x))]"

record earnings_history_item_pool =
  ep_pool :: string
  ep_asset_liquidity_fees :: string
  ep_rune_liquidity_fees :: string
  ep_total_liquidity_fees_rune :: string
  ep_rewards :: string
  ep_earnings :: string
  ep_saver_earning :: string

definition json_of_earnings_history_item_pool :: "earnings_history_item_pool \<Rightarrow> json" where
  "json_of_earnings_history_item_pool x = JObj
    [(''pool'', JStr (ep_pool x)),
     (''assetLiquidityFees'', JStr (ep_asset_liquidity_fees x)),
     (''runeLiquidityFees'', JStr (ep_rune_liquidity_fees x)),
     (''totalLiquidityFeesRune'', JStr (ep_total_liquidity_fees_rune x)),
     (''rewards'', JStr (ep_rewards x)),
     (''earnings'', JStr (ep_earnings x)),
     (''saverEarning'', JStr (ep_saver_earning x))]"

record earnings_history_item =
  eh_start_time :: string
  eh_end_time :: string
  eh_liquidity_fees :: string
  eh_block_rewards :: string
  eh_earnings :: string
  eh_bonding_earnings :: string
  eh_liquidity_earnings :: string
  eh_avg_node_count :: string
  eh_rune_price_usd :: string
  eh_pools :: "earnings_history_item_pool list"

definition json_of_earnings_history_item :: "earnings_history_item \<Rightarrow> json" where
  "json_of_earnings_history_item x = JObj
    [(''startTime'', JStr (eh_start_time x)),
     (''endTime'', JStr (eh_end_time x)),
     (''liquidityFees'', JStr (eh_liquidity_fees x)),
     (''blockRewards'', JStr (eh_block_rewards x)),
     (''earnings'', JStr (eh_earnings x)),
     (''bondingEarnings'', JStr (eh_bonding_earnings x)),
     (''liquidityEarnings'', JStr (eh_liquidity_earnings x)),
     (''avgNodeCount'', JStr (eh_avg_node_count x)),
     (''runePriceUSD'', JStr (eh_rune_price_usd x)),
     (''pools'', JArr (map json_of_earnings_history_item_pool (eh_pools x)))]"

record liquidity_history_item =
  li_start_time :: string
  li_end_time :: string
  li_add_liquidity_count :: string
  li_add_liquidity_volume :: string
  li_add_asset_liquidity_volume :: string
  li_add_rune_liquidity_volume :: string
  li_withdraw_count :: string
  li_withdraw_volume :: string
  li_withdraw_asset_volume :: string
  li_withdraw_rune_volume :: string
  li_net :: string
  li_rune_price_usd :: string

definition json_of_liquidity_history_item :: "liquidity_history_item \<Rightarrow> json" where
  "json_of_liquidity_history_item x = JObj
    [(''startTime'', JStr (li_start_time x)),
     (''endTime'', JStr (li_end_time x)),
     (''addLiquidityCount'', JStr (li_add_liquidity_count x)),
     (''addLiquidityVolume'', JStr (li_add_liquidity_volume x)),
     (''addAssetLiquidityVolume'', JStr (li_add_asset_liquidity_volume x)),
     (''addRuneLiquidityVolume'', JStr (li_add_rune_liquidity_volume x)),
     (''withdrawCount'', JStr (li_withdraw_count x)),
     (''withdrawVolume'', JStr (li_withdraw_volume x)),
     (''withdrawAssetVolume'', JStr (li_withdraw_asset_volume x)),
     (''withdrawRuneVolume'', JStr (li_withdraw_rune_volume x)),
     (''net'', JStr (li_net x)),
     (''runePriceUSD'', JStr (li_rune_price_usd x))]"

record tvl_pool_depth =
  td_pool :: string
  td_total_depth :: string

definition json_of_tvl_pool_depth :: "tvl_pool_depth \<Rightarrow> json" where
  "json_of_tvl_pool_depth x = JObj
    [(''pool'', JStr (td_pool x)),
     (''totalDepth'', JStr (td_total_depth x))]"

record tvl_history_item =
  tv_start_time :: string
  tv_end_time :: string
  tv_total_value_pooled :: string
  tv_total_value_bonded :: string
  tv_total_value_locked :: string
  tv_rune_price_usd :: string
  tv_pools_depth :: "tvl_pool_depth list"

definition json_of_tvl_history_item :: "tvl_history_item \<Rightarrow> json" where
  "json_of_tvl_history_item x = JObj
    [(''startTime'', JStr (tv_start_time x)),
     (''endTime'', JStr (tv_end_time x)),
     (''totalValuePooled'', JStr (tv_total_value_pooled x)),
     (''totalValueBonded'', JStr (tv_total_value_bonded x)),
     (''totalValueLocked'', JStr (tv_total_value_locked x)),
     (''runePriceUSD'', JStr (tv_rune_price_usd x)),
     (''poolsDepth'', JArr (map json_of_tvl_pool_depth (tv_pools_depth x)))]"

record member_pool =
  mp_pool :: string
  mp_rune_address :: string
  mp_asset_address :: string
  mp_liquidity_units :: string
  mp_rune_added :: string
  mp_asset_added :: string
  mp_rune_withdrawn :: string
  mp_asset_withdrawn :: string
  mp_rune_pending :: string
  mp_asset_pending :: string
  mp_date_first_added :: string
  mp_date_last_added :: string

definition json_of_member_pool :: "member_pool \<Rightarrow> json" where
  "json_of_member_pool x = JObj
    [(''pool'', JStr (mp_pool x)),
     (''runeAddress'', JStr (mp_rune_address x)),
     (''assetAddress'', JStr (mp_asset_address x)),
     (''liquidityUnits'', JStr (mp_liquidity_units x)),
     (''runeAdded'', JStr (mp_rune_added x)),
     (''assetAdded'', JStr (mp_asset_added x)),
     (''runeWithdrawn'', JStr (mp_rune_withdrawn x)),
     (''assetWithdrawn'', JStr (mp_asset_withdrawn x)),
     (''runePending'', JStr (mp_rune_pending x)),
     (''assetPending'', JStr (mp_asset_pending x)),
     (''dateFirstAdded'', JStr (mp_date_first_added x)),
     (''dateLastAdded'', JStr (mp_date_last_added x))]"

record member_details =
  md_pools :: "member_pool list"

definition json_of_member_details :: "member_details \<Rightarrow> json" where
  "json_of_member_details x = JObj
    [(''pools'', JArr (map json_of_member_pool (md_pools x)))]"

record action_coin =
  ac_asset :: string
  ac_amount :: string

definition json_of_action_coin :: "action_coin \<Rightarrow> json" where
  "json_of_action_coin x = JObj
    [(''asset'', JStr (ac_asset x)),
     (''amount'', JStr (ac_amount x))]"

record transaction =
  tn_address :: string
  tn_tx_id :: string
  tn_coins :: "action_coin list"

definition json_of_transaction :: "transaction \<Rightarrow> json" where
  "json_of_transaction x = JObj
    [(''address'', JStr (tn_address x)),
     (''txID'', JStr (tn_tx_id x)),
     (''coins'', JArr (map json_of_action_coin (tn_coins x)))]"

record action =
  an_date :: string
  an_height :: string
  an_action_type :: string
  an_status :: string
  an_pools :: "string list"
  an_inputs :: "transaction list"
  an_outputs :: "transaction list"
  an_metadata :: json

definition json_of_action :: "action \<Rightarrow> json" where
  "json_of_action x = JObj
    [(''date'', JStr (an_date x)),
     (''height'', JStr (an_height x)),
     (''type'', JStr (an_action_type x)),
     (''status'', JStr (an_status x)),
     (''pools'', JArr (map JStr (an_pools x))),
     (''in'', JArr (map json_of_transaction (an_inputs x))),
     (''out'', JArr (map json_of_transaction (an_outputs x))),
     (''metadata'', an_metadata x)]"

record actions_meta =
  am_next_page_token :: string
  am_prev_page_token :: string

definition json_of_actions_meta :: "actions_meta \<Rightarrow> json" where
  "json_of_actions_meta x = JObj
    [(''nextPageToken'', JStr (am_next_page_token x)),
     (''prevPageToken'', JStr (am_prev_page_token x))]"

record actions =
  fa_actions :: "action list"
  fa_count :: string
  fa_meta :: actions_meta

definition json_of_actions :: "actions \<Rightarrow> json" where
  "json_of_actions x = JObj
    [(''actions'', JArr (map json_of_action (fa_actions x))),
     (''count'', JStr (fa_count x)),
     (''meta'', json_of_actions_meta (fa_meta x))]"

record bond_metrics =
  bm_total_active_bond :: string
  bm_average_active_bond :: string
  bm_median_active_bond :: string
  bm_minimum_active_bond :: string
  bm_maximum_active_bond :: string

definition json_of_bond_metrics :: "bond_metrics \<Rightarrow> json" where
  "json_of_bond_metrics x = JObj
    [(''totalActiveBond'', JStr (bm_total_active_bond x)),
     (''averageActiveBond'', JStr (bm_average_active_bond x)),
     (''medianActiveBond'', JStr (bm_median_active_bond x)),
     (''minimumActiveBond'', JStr (bm_minimum_active_bond x)),
     (''maximumActiveBond'', JStr (bm_maximum_active_bond x))]"

record network =
  nw_active_node_count :: string
  nw_standby_node_count :: string
  nw_total_reserve :: string
  nw_total_pooled_rune :: string
  nw_bonding_apy :: string
  nw_liquidity_apy :: string
  nw_pool_activation_countdown :: string
  nw_next_churn_height :: string
  nw_bond_metrics :: bond_metrics

definition json_of_network :: "network \<Rightarrow> json" where
  "json_of_network x = JObj
    [(''activeNodeCount'', JStr (nw_active_node_count x)),
     (''standbyNodeCount'', JStr (nw_standby_node_count x)),
     (''totalReserve'', JStr (nw_total_reserve x)),
     (''totalPooledRune'', JStr (nw_total_pooled_rune x)),
     (''bondingAPY'', JStr (nw_bonding_apy x)),
     (''liquidityAPY'', JStr (nw_liquidity_apy x)),
     (''poolActivationCountdown'', JStr (nw_pool_activation_countdown x)),
     (''nextChurnHeight'', JStr (nw_next_churn_height x)),
     (''bondMetrics'', json_of_bond_metrics (nw_bond_metrics x))]"

record stats =
  sx_rune_price_usd :: string
  sx_switched_rune :: string
  sx_rune_depth :: string
  sx_swap_volume :: string
  sx_swap_count :: string
  sx_swap_count_24h :: string
  sx_to_asset_count :: string
  sx_to_rune_count :: string
  sx_synth_mint_count :: string
  sx_synth_burn_count :: string
  sx_daily_active_users :: string
  sx_monthly_active_users :: string
  sx_unique_swapper_count :: string
  sx_add_liquidity_volume :: string
  sx_add_liquidity_count :: string
  sx_withdraw_volume :: string
  sx_withdraw_count :: string
  sx_impermanent_loss_protection_paid :: string

definition json_of_stats :: "stats \<Rightarrow> json" where
  "json_of_stats x = JObj
    [(''runePriceUSD'', JStr (sx_rune_price_usd x)),
     (''switchedRune'', JStr (sx_switched_rune x)),
     (''runeDepth'', JStr (sx_rune_depth x)),
     (''swapVolume'', JStr (sx_swap_volume x)),
     (''swapCount'', JStr (sx_swap_count x)),
     (''swapCount24h'', JStr (sx_swap_count_24h x)),
     (''toAssetCount'', JStr (sx_to_asset_count x)),
     (''toRuneCount'', JStr (sx_to_rune_count x)),
     (''synthMintCount'', JStr (sx_synth_mint_count x)),
     (''synthBurnCount'', JStr (sx_synth_burn_count x)),
     (''dailyActiveUsers'', JStr (sx_daily_active_users x)),
     (''monthlyActiveUsers'', JStr (sx_monthly_active_users x)),
     (''uniqueSwapperCount'', JStr (sx_unique_swapper_count x)),
     (''addLiquidityVolume'', JStr (sx_add_liquidity_volume x)),
     (''addLiquidityCount'', JStr (sx_add_liquidity_count x)),
     (''withdrawVolume'', JStr (sx_withdraw_volume x)),
     (''withdrawCount'', JStr (sx_withdraw_count x)),
     (''impermanentLossProtectionPaid'', JStr (sx_impermanent_loss_protection_paid x))]"

section \<open>Numbers travel as text\<close>

text \<open>A JSON value without a JSON number in it.\<close>

fun no_numbers :: "json \<Rightarrow> bool" where
  "no_numbers (JInt _) = False"
| "no_numbers (JFloat _) = False"
| "no_numbers (JArr xs) = list_all no_numbers xs"
| "no_numbers (JObj kvs) = list_all (\<lambda>(_, v). no_numbers v) kvs"
| "no_numbers _ = True"

lemmas wire_defs =
  json_of_height_ts_def
  json_of_health_def
  json_of_pool_detail_def
  json_of_history_def
  json_of_depth_history_item_def
  json_of_depth_history_meta_def
  json_of_depth_history_def
  json_of_swap_history_item_def
  json_of_earnings_history_item_pool_def
  json_of_earnings_history_item_def
  json_of_liquidity_history_item_def
  json_of_tvl_pool_depth_def
  json_of_tvl_history_item_def
  json_of_member_pool_def
  json_of_member_details_def
  json_of_action_coin_def
  json_of_transaction_def
  json_of_action_def
  json_of_actions_meta_def
  json_of_actions_def
  json_of_bond_metrics_def
  json_of_network_def
  json_of_stats_def

end
