(* ===== verification/Cache.thy ===== *)
theory Cache
  imports Prelude
begin

text \<open>
  \<open>crates/midgard-api/src/cache.rs\<close>: one value, kept with the block height it was computed at.
  The lock is held across the computation, so requests are served one after another; a run of
  requests is a list of heights with what computing would give at that moment.
\<close>

type_synonym 'a height_cache = "(i64 \<times> 'a) option"

definition new_cache :: "'a height_cache" where
  "new_cache = None"

text \<open>The result, the cache after it, and whether the computation ran.\<close>

definition get_or_compute ::
    "i64 \<Rightarrow> 'e + 'a \<Rightarrow> 'a height_cache \<Rightarrow> ('e + 'a) \<times> 'a height_cache \<times> bool" where
  "get_or_compute height compute c =
     (case c of
        Some (h, v) \<Rightarrow> if h = height then (Inr v, c, False)
          else (case compute of Inl e \<Rightarrow> (Inl e, c, True) | Inr w \<Rightarrow> (Inr w, Some (height, w), True))
      | None \<Rightarrow> (case compute of Inl e \<Rightarrow> (Inl e, c, True) | Inr w \<Rightarrow> (Inr w, Some (height, w), True)))"

definition cached_height :: "'a height_cache \<Rightarrow> i64 option" where
  "cached_height c = map_option fst c"

fun serve :: "'a height_cache \<Rightarrow> (i64 \<times> ('e + 'a)) list \<Rightarrow> ('e + 'a) list \<times> 'a height_cache \<times> nat" where
  "serve c [] = ([], c, 0)"
| "serve c ((h, compute) # reqs) =
     (case get_or_compute h compute c of (r, c', fresh) \<Rightarrow>
        case serve c' reqs of (rs, c'', n) \<Rightarrow> (r # rs, c'', n + (if fresh then 1 else 0)))"

lemma get_or_compute_cases:
  "get_or_compute h compute c =
     (case c of Some (k, v) \<Rightarrow> if k = h then (Inr v, c, False)
        else (compute, case compute of Inl e \<Rightarrow> c | Inr w \<Rightarrow> Some (h, w), True)
      | None \<Rightarrow> (compute, case compute of Inl e \<Rightarrow> c | Inr w \<Rightarrow> Some (h, w), True))"
  by (auto simp: get_or_compute_def split: option.split sum.split)

text \<open>With an answer that depends on the height alone, the cache cannot be told from computing.\<close>

definition cache_agrees :: "(i64 \<Rightarrow> 'e + 'a) \<Rightarrow> 'a height_cache \<Rightarrow> bool" where
  "cache_agrees answer c \<longleftrightarrow> (\<forall>h v. c = Some (h, v) \<longrightarrow> answer h = Inr v)"

lemma get_agrees:
  assumes "cache_agrees answer c" "get_or_compute h (answer h) c = (r, c', fresh)"
  shows "r = answer h" "cache_agrees answer c'"
  using assms by (auto simp: get_or_compute_cases cache_agrees_def split: option.splits sum.splits if_splits)

lemma serve_agrees:
  "cache_agrees answer c \<Longrightarrow> fst (serve c (map (\<lambda>h. (h, answer h)) hs)) = map answer hs"
proof (induction hs arbitrary: c)
  case (Cons h hs)
  obtain r c' fresh where g: "get_or_compute h (answer h) c = (r, c', fresh)" by (metis prod_cases3)
  from get_agrees [OF Cons.prems g] Cons.IH [of c'] g show ?case by (auto split: prod.split)
qed simp

text \<open>The requests at one height, once one has been computed, are all answered without computing.\<close>

lemma serve_cached:
  "serve (Some (h, v)) (map (Pair h) cs) = (replicate (length cs) (Inr v), Some (h, v), 0)"
  by (induction cs) (simp_all add: get_or_compute_def)

end
