(* ===== verification/Rpc.thy ===== *)
theory Rpc
  imports Json Units "HOL-Library.Multiset"
begin

text \<open>
  \<open>crates/midgard-chain/src/rpc.rs\<close>: JSON-RPC calls, single and in batches. The exchange over
  HTTP (\<open>send\<close>), the printing of JSON (\<open>show\<close>) and the decoding of a result
  (\<open>from_value\<close>) belong to \<open>reqwest\<close> and \<open>serde_json\<close> and are parameters. The lemmas: a
  batch answered in any order is returned in the order of the calls, and every result of a batch
  that succeeds comes from the response with its own id.
\<close>

datatype rpc_error =
    Http string string
  | Rpc string i64 string
  | Malformed string string

fun rpc_error_str :: "rpc_error \<Rightarrow> string" where
  "rpc_error_str (Http url source) = ''HTTP request to '' @ url @ '' failed: '' @ source"
| "rpc_error_str (Rpc meth c message) =
     meth @ '' returned an error: '' @ message @ '' (code '' @ int_to_string c @ '')''"
| "rpc_error_str (Malformed meth message) = meth @ '': malformed response: '' @ message"

definition trim_end_slashes :: "string \<Rightarrow> string" where
  "trim_end_slashes s = rev (dropWhile (\<lambda>c. c = CHR ''/'') (rev s))"

definition extract_result ::
    "(json \<Rightarrow> string) \<Rightarrow> (json \<Rightarrow> string + 'a) \<Rightarrow> string \<Rightarrow> json \<Rightarrow> rpc_error + 'a" where
  "extract_result show from_value meth envelope =
     (case (case json_get envelope ''error'' of Some e \<Rightarrow> if e = JNull then None else Some e
            | None \<Rightarrow> None) of
        Some error \<Rightarrow>
          Inl (Rpc meth
            (unwrap_or 0 (Option.bind (json_get error ''code'') as_i64))
            (unwrap_or ''unknown'' (Option.bind (json_get error ''message'') as_str)
             @ unwrap_or [] (map_option (\<lambda>d. '': '' @ d) (Option.bind (json_get error ''data'') as_str))))
      | None \<Rightarrow>
          bindE (ok_or (Malformed meth (''no result field in '' @ show envelope))
                   (json_get envelope ''result''))
            (\<lambda>result. map_err (Malformed meth) (from_value result)))"

definition request :: "i64 \<Rightarrow> string \<Rightarrow> json \<Rightarrow> json" where
  "request i meth params =
     JObj [(''jsonrpc'', JStr ''2.0''), (''id'', JInt i), (''method'', JStr meth), (''params'', params)]"

definition rpc_call ::
    "(json \<Rightarrow> string) \<Rightarrow> (json \<Rightarrow> string + 'a) \<Rightarrow> (json \<Rightarrow> rpc_error + json) \<Rightarrow> string \<Rightarrow> json \<Rightarrow>
     rpc_error + 'a" where
  "rpc_call show from_value send meth params =
     bindE (send (request 0 meth params)) (extract_result show from_value meth)"

text \<open>The two loops over a batch: into the map by id, and out of it by position.\<close>

fun collect_ids ::
    "(json \<Rightarrow> string) \<Rightarrow> string \<Rightarrow> json list \<Rightarrow> (i64 \<Rightarrow> json option) \<Rightarrow> rpc_error + (i64 \<Rightarrow> json option)" where
  "collect_ids show meth [] by_id = Inr by_id"
| "collect_ids show meth (entry # entries) by_id =
     bindE (ok_or (Malformed meth (''response has no usable id: '' @ show entry))
              (Option.bind (json_get entry ''id'') as_i64))
       (\<lambda>i. collect_ids show meth entries (by_id(i \<mapsto> entry)))"

fun take_ids ::
    "(json \<Rightarrow> string) \<Rightarrow> (json \<Rightarrow> string + 'a) \<Rightarrow> string \<Rightarrow> int list \<Rightarrow> (i64 \<Rightarrow> json option) \<Rightarrow>
     rpc_error + 'a list" where
  "take_ids show from_value meth [] by_id = Inr []"
| "take_ids show from_value meth (i # is) by_id =
     bindE (ok_or (Malformed meth (''no response with id '' @ int_to_string i)) (by_id i))
       (\<lambda>entry. bindE (extract_result show from_value meth entry)
         (\<lambda>r. bindE (take_ids show from_value meth is (by_id(i := None)))
           (\<lambda>rs. Inr (r # rs))))"

definition call_batch ::
    "(json \<Rightarrow> string) \<Rightarrow> (json \<Rightarrow> string + 'a) \<Rightarrow> (json \<Rightarrow> rpc_error + json) \<Rightarrow> string \<Rightarrow> json list \<Rightarrow>
     rpc_error + 'a list" where
  "call_batch show from_value send meth params =
     (if params = [] then Inr []
      else
        let n = int (length params);
            body = JArr (map (\<lambda>(i, p). request (int i) meth p) (List.enumerate 0 params)) in
        bindE (send body) (\<lambda>response.
        bindE (ok_or (Malformed meth (''expected an array of responses, got '' @ show response))
                 (as_array response)) (\<lambda>entries.
        if length entries \<noteq> length params
        then Inl (Malformed meth (''asked for '' @ int_to_string n @ '' responses, got ''
                    @ int_to_string (int (length entries))))
        else bindE (collect_ids show meth entries Map.empty)
               (take_ids show from_value meth [0..n - 1]))))"

section \<open>Lemmas\<close>

definition entry_id :: "json \<Rightarrow> i64 option" where
  "entry_id e = Option.bind (json_get e ''id'') as_i64"

lemma collect_ids_Inr:
  "collect_ids show meth es m = Inr m' \<longleftrightarrow>
   (\<forall>e\<in>set es. entry_id e \<noteq> None) \<and> m' = m ++ map_of (rev (map (\<lambda>e. (the (entry_id e), e)) es))"
proof (induction es arbitrary: m)
  case (Cons e es)
  show ?case
  proof (cases "entry_id e")
    case None
    then show ?thesis by (simp add: entry_id_def)
  next
    case (Some i)
    then have "collect_ids show meth (e # es) m = collect_ids show meth es (m(i \<mapsto> e))"
      by (simp add: entry_id_def)
    moreover have "m(i \<mapsto> e) ++ f = m ++ ([i \<mapsto> e] ++ f)" for f
      by (simp add: fun_eq_iff map_add_def split: option.splits)
    ultimately show ?thesis by (simp only: Cons.IH) (simp add: Some)
  qed
qed auto

lemma take_ids_Inr:
  "distinct is \<Longrightarrow> take_ids show fv meth is m = Inr rs \<longleftrightarrow>
   list_all2 (\<lambda>i r. \<exists>e. m i = Some e \<and> extract_result show fv meth e = Inr r) is rs"
proof (induction "is" arbitrary: m rs)
  case (Cons i "is")
  have "list_all2 (\<lambda>j r. \<exists>e. (m(i := None)) j = Some e \<and> extract_result show fv meth e = Inr r) is rs' =
      list_all2 (\<lambda>j r. \<exists>e. m j = Some e \<and> extract_result show fv meth e = Inr r) is rs'" for rs'
    using Cons.prems by (intro list.rel_cong) auto
  with Cons show ?case by (auto simp: bindE_eq_Inr list_all2_Cons1)
qed auto

lemma upto_map: "[0..int n - 1] = map int [0..<n]"
proof (induction n)
  case (Suc n)
  then show ?case using upto_rec2 [of 0 "int n"] by simp
qed simp

text \<open>Each result of a batch is the result of the response with the position as its id.\<close>

lemma call_batch_results:
  assumes "call_batch show fv send meth params = Inr rs" "params \<noteq> []"
  shows "length rs = length params \<and>
    (\<exists>body entries. send body = Inr (JArr entries) \<and> length entries = length params \<and>
       (\<forall>i<length params. \<exists>e\<in>set entries. entry_id e = Some (int i) \<and>
          extract_result show fv meth e = Inr (rs ! i)))"
proof -
  let ?n = "length params"
  obtain body response entries m where r: "send body = Inr response" "as_array response = Some entries"
    "length entries = ?n" "collect_ids show meth entries Map.empty = Inr m"
    "take_ids show fv meth [0..int ?n - 1] m = Inr rs"
    using assms by (auto simp: call_batch_def Let_def bindE_eq_Inr split: if_splits)
  have l: "list_all2 (\<lambda>i r. \<exists>e. m i = Some e \<and> extract_result show fv meth e = Inr r) (map int [0..<?n]) rs"
    using r(5) take_ids_Inr [of "map int [0..<?n]" "show" fv meth m rs]
    by (simp add: upto_map distinct_map inj_on_def)
  have resp: "response = JArr entries" using r(2) by (cases response) auto
  have m: "m i = Some e \<Longrightarrow> e \<in> set entries \<and> entry_id e = Some i" for i e
    using r(4) by (auto simp: collect_ids_Inr dest!: map_of_SomeD)
  have "\<forall>i<?n. \<exists>e\<in>set entries. entry_id e = Some (int i) \<and> extract_result show fv meth e = Inr (rs ! i)"
    using l m by (fastforce simp: list_all2_conv_all_nth)
  moreover have "length rs = ?n" using list_all2_lengthD [OF l] by simp
  ultimately show ?thesis using r(1,3) resp by blast
qed

lemma call_batch_length: "call_batch show fv send meth params = Inr rs \<Longrightarrow> length rs = length params"
proof (cases "params = []")
  case True
  moreover assume "call_batch show fv send meth params = Inr rs"
  ultimately show ?thesis by (simp add: call_batch_def)
next
  case False
  moreover assume "call_batch show fv send meth params = Inr rs"
  ultimately show ?thesis using call_batch_results by blast
qed

text \<open>A response that carries a result.\<close>

definition response_for :: "nat \<Rightarrow> json \<Rightarrow> json" where
  "response_for i result = JObj [(''jsonrpc'', JStr ''2.0''), (''id'', JInt (int i)), (''result'', result)]"

lemma response_for_simps [simp]:
  "i64_ok (int i) \<Longrightarrow> entry_id (response_for i r) = Some (int i)"
  "extract_result show fv meth (response_for i r) = map_err (Malformed meth) (fv r)"
  by (simp_all add: response_for_def entry_id_def extract_result_def)

lemma call_batch_any_order:
  assumes "params \<noteq> []" "i64_ok (int (length params))"
    and "mset entries = mset (map (\<lambda>i. response_for i (result i)) [0..<length params])"
    and "\<And>i. i < length params \<Longrightarrow> fv (result i) = Inr (value i)"
    and "send (JArr (map (\<lambda>(i, p). request (int i) meth p) (List.enumerate 0 params))) = Inr (JArr entries)"
  shows "call_batch show fv send meth params = Inr (map value [0..<length params])"
proof -
  let ?n = "length params"
  let ?sent = "map (\<lambda>i. response_for i (result i)) [0..<?n]"
  have small: "i64_ok (int i)" if "i < ?n" for i using assms(2) that by (simp add: i64_ok_def)
  have set: "set entries = set ?sent" using assms(3) by (metis set_mset_mset)
  have len: "length entries = ?n" using mset_eq_length [OF assms(3)] by simp
  let ?m = "map_of (rev (map (\<lambda>e. (the (entry_id e), e)) entries))"
  have ids: "\<forall>e\<in>set entries. entry_id e \<noteq> None" using small by (auto simp: set)
  have "mset (map (\<lambda>e. the (entry_id e)) entries) = mset (map (\<lambda>e. the (entry_id e)) ?sent)"
    using assms(3) by (simp only: mset_map)
  also have "map (\<lambda>e. the (entry_id e)) ?sent = map int [0..<?n]" using small by simp
  finally have "distinct (map (\<lambda>e. the (entry_id e)) entries) = distinct (map int [0..<?n])"
    by (rule mset_eq_imp_distinct_iff)
  then have d: "distinct (map (\<lambda>e. the (entry_id e)) entries)"
    by (simp add: distinct_map inj_on_def)
  have m: "?m (int i) = Some (response_for i (result i))" if "i < ?n" for i
  proof (rule map_of_is_SomeI)
    show "distinct (map fst (rev (map (\<lambda>e. (the (entry_id e), e)) entries)))"
      using d by (simp add: rev_map [symmetric] comp_def)
    show "(int i, response_for i (result i)) \<in> set (rev (map (\<lambda>e. (the (entry_id e), e)) entries))"
      using that small set by (auto simp: image_iff)
  qed
  have "take_ids show fv meth (map int [0..<?n]) ?m = Inr (map value [0..<?n])"
    by (subst take_ids_Inr) (auto simp: distinct_map inj_on_def list_all2_conv_all_nth m assms(4))
  moreover have "collect_ids show meth entries Map.empty = Inr ?m"
    using ids by (simp add: collect_ids_Inr)
  ultimately show ?thesis
    unfolding call_batch_def Let_def assms(5)
    using assms(1) len by (simp add: upto_map)
qed

end
