(* ===== verification/Thornode.thy ===== *)
theory Thornode
  imports Rpc
begin

text \<open>
  \<open>crates/midgard-chain/src/thornode.rs\<close>: THORNode's REST answers. The exchange over HTTP and the
  decoding of its JSON are a parameter: from a URL to the decoded body, a failed request
  (\<open>Inl (True, _)\<close>) or a body that does not decode (\<open>Inl (False, _)\<close>).
\<close>

datatype thornode_error = NodeHttp string string | NodeDecode string string

fun thornode_error_str :: "thornode_error \<Rightarrow> string" where
  "thornode_error_str (NodeHttp path source) = ''THORNode request to '' @ path @ '' failed: '' @ source"
| "thornode_error_str (NodeDecode path source) = ''THORNode '' @ path @ '': malformed response: '' @ source"

definition rpc_error_of_thornode :: "thornode_error \<Rightarrow> rpc_error" where
  "rpc_error_of_thornode e = Malformed ''thornode'' (thornode_error_str e)"

definition e8_of :: "string \<Rightarrow> i64" where
  "e8_of s = unwrap_or 0 (parse_i64 s)"

record thor_node =
  no_address :: string
  no_status :: string
  no_total_bond :: string
  no_version :: string

definition bond_e8 :: "thor_node \<Rightarrow> i64" where
  "bond_e8 n = e8_of (no_total_bond n)"

definition is_active :: "thor_node \<Rightarrow> bool" where
  "is_active n = eq_ignore_ascii_case (no_status n) ''active''"

record thor_pool =
  tp_asset :: string
  tp_status :: string
  tp_balance_asset :: string
  tp_balance_rune :: string
  tp_pool_units :: string
  tp_lp_units :: string
  tp_synth_units :: string
  tp_synth_supply :: string
  tp_savers_depth :: string
  tp_savers_units :: string
  tp_decimals :: "i64 option"

definition pool_asset_e8 :: "thor_pool \<Rightarrow> i64" where "pool_asset_e8 p = e8_of (tp_balance_asset p)"
definition pool_rune_e8 :: "thor_pool \<Rightarrow> i64" where "pool_rune_e8 p = e8_of (tp_balance_rune p)"
definition pool_units_of :: "thor_pool \<Rightarrow> i64" where "pool_units_of p = e8_of (tp_pool_units p)"
definition pool_synth_e8 :: "thor_pool \<Rightarrow> i64" where "pool_synth_e8 p = e8_of (tp_synth_supply p)"

definition thornode_base :: "string \<Rightarrow> string" where
  "thornode_base base_url = trim_end_slashes base_url"

definition thornode_get :: "(string \<Rightarrow> bool \<times> string + 'a) \<Rightarrow> string \<Rightarrow> string \<Rightarrow> thornode_error + 'a" where
  "thornode_get http base path =
     map_err (\<lambda>(request, source). if request then NodeHttp path source else NodeDecode path source)
       (http (base @ path))"

definition get_nodes :: "(string \<Rightarrow> bool \<times> string + thor_node list) \<Rightarrow> string \<Rightarrow> thornode_error + thor_node list" where
  "get_nodes http base = thornode_get http base ''/nodes''"

definition get_pools :: "(string \<Rightarrow> bool \<times> string + thor_pool list) \<Rightarrow> string \<Rightarrow> thornode_error + thor_pool list" where
  "get_pools http base = thornode_get http base ''/pools''"

record thor_network =
  nt_bond_reward_rune :: string
  nt_total_bond_units :: string
  nt_total_reserve :: string

definition get_network :: "(string \<Rightarrow> bool \<times> string + thor_network) \<Rightarrow> string \<Rightarrow> thornode_error + thor_network" where
  "get_network http base = thornode_get http base ''/network''"

definition get_mimir :: "(string \<Rightarrow> bool \<times> string + (string \<times> i64) list) \<Rightarrow> string \<Rightarrow> thornode_error + (string \<times> i64) list" where
  "get_mimir http base = thornode_get http base ''/mimir''"

lemma e8_of_ok [simp]: "i64_ok (e8_of s)"
proof (cases "parse_i64 s")
  case None
  then show ?thesis by (simp add: e8_of_def unwrap_or_def i64_ok_def)
next
  case (Some n)
  then show ?thesis using parse_i64_ok [OF Some] by (simp add: e8_of_def unwrap_or_def)
qed

lemma e8_of_round_trip: "i64_ok n \<Longrightarrow> e8_of (int_to_string n) = n"
  by (simp add: e8_of_def parse_int_to_string)

end
