(* ===== verification/Config_Schema.thy ===== *)
theory Config_Schema
  imports Strings
begin

text \<open>
  \<open>crates/midgard-config/src/schema.rs\<close>: the configuration tree and its defaults. A duration is
  its number of nanoseconds.
\<close>

definition from_secs :: "int \<Rightarrow> int" where
  "from_secs s = s * 1000000000"

definition from_millis :: "int \<Rightarrow> int" where
  "from_millis ms = ms * 1000000"

record thor_chain =
  tendermint_url :: string
  thornode_url :: string
  fetch_batch_size :: nat
  parallelism :: nat
  tc_read_timeout :: int
  last_chain_backoff :: int
  max_status_retries :: nat
  status_retry_backoff :: int

record time_scale =
  ts_host :: string
  ts_port :: int
  ts_user_name :: string
  ts_password :: string
  ts_database :: string
  ts_sslmode :: string
  max_open_conns :: int
  commit_batch_size :: nat
  no_auto_update_ddl :: bool

record genesis =
  initial_block_height :: i64
  initial_block_hash :: string

record event_recorder =
  on_transfer_enabled :: bool
  on_message_enabled :: bool

record action_params =
  max_limit :: int
  max_addresses :: nat
  max_assets :: nat
  max_tx_type :: nat

record endpoints =
  ep_action_params :: action_params

record logs =
  console_logger :: bool
  no_color :: bool
  log_level :: string

record config =
  listen_port :: int
  shutdown_timeout :: int
  read_timeout :: int
  write_timeout :: int
  max_block_age :: int
  cf_thorchain :: thor_chain
  cf_timescale :: time_scale
  cf_genesis :: genesis
  cf_event_recorder :: event_recorder
  cf_endpoints :: endpoints
  cf_logs :: logs
  usd_pools :: "string list"
  pools_decimal :: "(string \<times> i64) list"
  filtered_addresses :: "(string \<times> string) list"
  case_insensitive_chains :: "(string \<times> bool) list"

definition default_thor_chain :: thor_chain where
  "default_thor_chain =
     \<lparr>tendermint_url = ''http://localhost:26657/websocket'',
      thornode_url = ''http://localhost:1317/thorchain'',
      fetch_batch_size = 1, parallelism = 1, tc_read_timeout = from_secs 8,
      last_chain_backoff = from_secs 7, max_status_retries = 10,
      status_retry_backoff = from_secs 5\<rparr>"

definition default_time_scale :: time_scale where
  "default_time_scale =
     \<lparr>ts_host = ''localhost'', ts_port = 5432, ts_user_name = ''midgard'', ts_password = ''password'',
      ts_database = ''midgard'', ts_sslmode = ''disable'', max_open_conns = 80,
      commit_batch_size = 100, no_auto_update_ddl = False\<rparr>"

definition default_genesis :: genesis where
  "default_genesis = \<lparr>initial_block_height = 0, initial_block_hash = []\<rparr>"

definition default_event_recorder :: event_recorder where
  "default_event_recorder = \<lparr>on_transfer_enabled = True, on_message_enabled = False\<rparr>"

definition default_action_params :: action_params where
  "default_action_params = \<lparr>max_limit = 50, max_addresses = 50, max_assets = 4, max_tx_type = 4\<rparr>"

definition default_logs :: logs where
  "default_logs = \<lparr>console_logger = True, no_color = False, log_level = ''info''\<rparr>"

definition default_config :: config where
  "default_config =
     \<lparr>listen_port = 8080, shutdown_timeout = from_secs 20, read_timeout = from_secs 20,
      write_timeout = from_secs 20, max_block_age = from_secs 60,
      cf_thorchain = default_thor_chain, cf_timescale = default_time_scale,
      cf_genesis = default_genesis, cf_event_recorder = default_event_recorder,
      cf_endpoints = \<lparr>ep_action_params = default_action_params\<rparr>, cf_logs = default_logs,
      usd_pools = [''BNB.BUSD-BD1'', ''ETH.USDT-0XDAC17F958D2EE523A2206206994597C13D831EC7'',
                   ''ETH.USDC-0XA0B86991C6218B36C1D19D4A2E9EB0CE3606EB48''],
      pools_decimal = [], filtered_addresses = [], case_insensitive_chains = [(''ETH'', True)]\<rparr>"

definition connection_string :: "time_scale \<Rightarrow> string" where
  "connection_string t =
     ''postgres://'' @ ts_user_name t @ '':'' @ ts_password t @ ''@'' @ ts_host t @ '':''
     @ int_to_string (ts_port t) @ ''/'' @ ts_database t @ ''?sslmode='' @ ts_sslmode t"

definition split_tendermint_url :: "thor_chain \<Rightarrow> string \<times> string" where
  "split_tendermint_url cfg = (case strip_suffix ''/websocket'' (tendermint_url cfg) of
     Some base \<Rightarrow> (base, ''/websocket'') | None \<Rightarrow> (tendermint_url cfg, []))"

end
