(* ===== verification/Requests.thy ===== *)
theory Requests
  imports Query Models Cache Thornode Config_Schema
begin

text \<open>
  What the handlers of \<open>crates/midgard-api\<close> share: the queries of a request with the errors they
  may end in, the SQL they are made of, the application state, the bucket key of the history
  queries, the errors on the wire (\<open>error.rs\<close>) and the price of RUNE (\<open>usd.rs\<close>).

  A request runs its queries one after another, without a transaction around them: \<open>reads k\<close> is
  the database the \<open>k\<close>-th query of the request sees, or the message of its failure. A computation
  with queries gives its result and the number of queries it has run.
\<close>

section \<open>Queries of a request\<close>

type_synonym reads = "nat \<Rightarrow> string + database"
type_synonym 'a asks = "reads \<Rightarrow> (error + 'a) \<times> nat"

definition returns :: "error + 'a \<Rightarrow> 'a asks" where
  "returns r reads = (r, 0)"

definition ask :: "(database \<Rightarrow> string + 'a) \<Rightarrow> 'a asks" where
  "ask query reads = (map_err Internal (bindE (reads 0) query), 1)"

definition ask_then :: "'a asks \<Rightarrow> ('a \<Rightarrow> 'b asks) \<Rightarrow> 'b asks" where
  "ask_then m f reads = (case m reads of
     (Inl e, n) \<Rightarrow> (Inl e, n)
   | (Inr a, n) \<Rightarrow> (case f a (\<lambda>k. reads (n + k)) of (b, k) \<Rightarrow> (b, n + k)))"

fun ask_each :: "('a \<Rightarrow> 'b asks) \<Rightarrow> 'a list \<Rightarrow> 'b list asks" where
  "ask_each f [] = returns (Inr [])"
| "ask_each f (x # xs) = ask_then (f x) (\<lambda>y. ask_then (ask_each f xs) (\<lambda>ys. returns (Inr (y # ys))))"

text \<open>The answer when every query of the request sees the same database.\<close>

definition answer :: "'a asks \<Rightarrow> database \<Rightarrow> error + 'a" where
  "answer m db = fst (m (\<lambda>_. Inr db))"

lemma answer_simps [simp]:
  "answer (returns r) db = r"
  "answer (ask query) db = map_err Internal (query db)"
  "answer (ask_then m f) db = bindE (answer m db) (\<lambda>a. answer (f a) db)"
  by (auto simp: answer_def returns_def ask_def ask_then_def split: prod.split sum.split)

lemma answer_each [simp]: "answer (ask_each f xs) db = collectE (\<lambda>x. answer (f x) db) xs"
  by (induction xs) auto

text \<open>The answer when the database changes between the queries: each has its own.\<close>

lemma ask_then_Inr:
  "fst (ask_then m f reads) = Inr b \<longleftrightarrow> (\<exists>a n. m reads = (Inr a, n) \<and> fst (f a (\<lambda>k. reads (n + k))) = Inr b)"
  by (auto simp: ask_then_def split: prod.split sum.split)

lemma ask_each_Inr:
  "fst (ask_each f xs reads) = Inr ys \<Longrightarrow>
   length ys = length xs \<and> (\<forall>i<length xs. \<exists>n. fst (f (xs ! i) (\<lambda>k. reads (n + k))) = Inr (ys ! i))"
proof (induction xs arbitrary: reads ys)
  case (Cons x xs)
  then obtain y n zs where y: "f x reads = (Inr y, n)" "fst (ask_each f xs (\<lambda>k. reads (n + k))) = Inr zs" "ys = y # zs"
    by (auto simp: ask_then_Inr returns_def)
  note rest = Cons.IH [OF y(2)]
  have "\<exists>m. fst (f ((x # xs) ! i) (\<lambda>k. reads (m + k))) = Inr (ys ! i)" if "i < length (x # xs)" for i
  proof (cases i)
    case 0
    with y show ?thesis by (intro exI [of _ 0]) simp
  next
    case (Suc j)
    then have "j < length xs" using that by simp
    then obtain m where "fst (f (xs ! j) (\<lambda>k. reads (n + (m + k)))) = Inr (zs ! j)" using rest by blast
    with Suc y(3) show ?thesis by (intro exI [of _ "n + m"]) (simp add: add.assoc)
  qed
  with rest y(3) show ?case by simp
qed (simp add: returns_def)

text \<open>A failed query ends the request, with an internal error.\<close>

definition fails_clean :: "'a asks \<Rightarrow> bool" where
  "fails_clean m \<longleftrightarrow> (\<forall>reads k msg. k < snd (m reads) \<longrightarrow> reads k = Inl msg \<longrightarrow>
     m reads = (Inl (Internal msg), Suc k))"

named_theorems clean_intros \<open>a failed query ends the request\<close>

lemma clean_returns [clean_intros]: "fails_clean (returns r)"
  by (simp add: fails_clean_def returns_def)

lemma clean_ask [clean_intros]: "fails_clean (ask query)"
  by (simp add: fails_clean_def ask_def)

lemma clean_then [clean_intros]:
  assumes m: "fails_clean m" and f: "\<And>a. fails_clean (f a)"
  shows "fails_clean (ask_then m f)"
  unfolding fails_clean_def
proof (intro allI impI)
  fix reads k msg
  assume k: "k < snd (ask_then m f reads)" and msg: "reads k = Inl msg"
  show "ask_then m f reads = (Inl (Internal msg), Suc k)"
  proof (cases "k < snd (m reads)")
    case True
    with m msg have "m reads = (Inl (Internal msg), Suc k)" by (simp add: fails_clean_def)
    then show ?thesis by (simp add: ask_then_def)
  next
    case False
    obtain a n where a: "m reads = (Inr a, n)"
      using k False by (cases "m reads") (auto simp: ask_then_def split: sum.splits prod.splits)
    have "k - n < snd (f a (\<lambda>k. reads (n + k)))" "n \<le> k"
      using k False a by (auto simp: ask_then_def split: prod.splits)
    moreover from this msg have "reads (n + (k - n)) = Inl msg" by simp
    ultimately have "f a (\<lambda>k. reads (n + k)) = (Inl (Internal msg), Suc (k - n))"
      using f [of a] by (simp add: fails_clean_def)
    with a \<open>n \<le> k\<close> show ?thesis by (simp add: ask_then_def)
  qed
qed

lemma clean_each [clean_intros]: "(\<And>x. fails_clean (f x)) \<Longrightarrow> fails_clean (ask_each f xs)"
  by (induction xs) (auto intro!: clean_intros)

section \<open>SQL\<close>

text \<open>A cast to \<open>BIGINT\<close>, and \<open>BIGINT\<close> arithmetic: out of range is an error of the query.\<close>

definition to_bigint :: "int \<Rightarrow> string + i64" where
  "to_bigint n = (if i64_ok n then Inr n else Inl ''bigint out of range'')"

text \<open>\<open>COALESCE(SUM(...), 0)\<close> before the cast: the sum of a \<open>BIGINT\<close> column is a \<open>NUMERIC\<close>.\<close>

definition sum_of :: "('r \<Rightarrow> int) \<Rightarrow> 'r list \<Rightarrow> int" where
  "sum_of f rows = sum_list (map f rows)"

definition group_by :: "('r \<Rightarrow> 'k) \<Rightarrow> ('r list \<Rightarrow> string + 'v) \<Rightarrow> 'r list \<Rightarrow> string + ('k \<times> 'v) list" where
  "group_by key agg rows =
     collectE (\<lambda>k. map_ok (Pair k) (agg (filter (\<lambda>r. key r = k) rows))) (remdups (map key rows))"

definition ts_of :: "row \<Rightarrow> nano" where
  "ts_of r = int_cell r ''block_timestamp''"

text \<open>
  \<open>SELECT DISTINCT ON (c) ... ORDER BY c, block_timestamp DESC\<close>: a newest row for each value of
  \<open>c\<close>, in the order of the collation. Of rows that tie, the one inserted first.
\<close>

definition distinct_on :: "(string list \<Rightarrow> string list) \<Rightarrow> string \<Rightarrow> row list \<Rightarrow> row list" where
  "distinct_on collate c rows = List.map_filter
     (\<lambda>v. first_row (\<lambda>r. - ts_of r) (filter (\<lambda>r. text_cell r c = v) rows))
     (collate (remdups (map (\<lambda>r. text_cell r c) rows)))"

lemma sum_of_simps [simp]: "sum_of f [] = 0" "sum_of f (r # rs) = f r + sum_of f rs"
  "sum_of f (rs @ rs') = sum_of f rs + sum_of f rs'"
  by (simp_all add: sum_of_def)

lemma sum_of_perm: "mset xs = mset ys \<Longrightarrow> sum_of f xs = sum_of f ys"
  unfolding sum_of_def by (metis mset_map sum_mset_sum_list)

lemma to_bigint_eq [simp]: "to_bigint n = Inr m \<longleftrightarrow> m = n \<and> i64_ok n" "to_bigint n = Inl e \<longleftrightarrow> \<not> i64_ok n \<and> e = ''bigint out of range''"
  by (auto simp: to_bigint_def)

lemma group_by_lookup:
  assumes "group_by key agg rows = Inr g"
  shows "map_of g k = (if k \<in> key ` set rows then ok (agg (filter (\<lambda>r. key r = k) rows)) else None)"
    "k \<in> key ` set rows \<Longrightarrow> \<exists>v. agg (filter (\<lambda>r. key r = k) rows) = Inr v"
proof -
  have *: "map_of g k = (if k \<in> set ks then ok (agg (filter (\<lambda>r. key r = k) rows)) else None) \<and>
      (k \<in> set ks \<longrightarrow> (\<exists>v. agg (filter (\<lambda>r. key r = k) rows) = Inr v))"
    if "collectE (\<lambda>k. map_ok (Pair k) (agg (filter (\<lambda>r. key r = k) rows))) ks = Inr g" for ks
    using that
  proof (induction ks arbitrary: g)
    case (Cons x xs)
    then show ?case by (auto simp: bindE_eq_Inr map_ok_eq_Inr ok_def)
  qed simp
  from * [OF assms [unfolded group_by_def]]
  show "map_of g k = (if k \<in> key ` set rows then ok (agg (filter (\<lambda>r. key r = k) rows)) else None)"
    "k \<in> key ` set rows \<Longrightarrow> \<exists>v. agg (filter (\<lambda>r. key r = k) rows) = Inr v" by auto
qed

lemma group_by_keys: "group_by key agg rows = Inr g \<Longrightarrow> map fst g = remdups (map key rows)"
proof -
  have "map fst g = ks"
    if "collectE (\<lambda>k. map_ok (Pair k) (agg (filter (\<lambda>r. key r = k) rows))) ks = Inr g" for ks
    using that by (induction ks arbitrary: g) (auto simp: bindE_eq_Inr map_ok_eq_Inr)
  then show "group_by key agg rows = Inr g \<Longrightarrow> map fst g = remdups (map key rows)"
    by (simp add: group_by_def)
qed

section \<open>The application state\<close>

text \<open>
  What a request reads besides the database. Outside the sources: the answers of THORNode over
  HTTP, the clock in seconds, whether a ping of the database succeeds, PostgreSQL's
  \<open>date_trunc(field, to_timestamp(s))\<close> in seconds, the order its collation puts texts in, and
  the order in which a \<open>HashMap\<close> yields its keys.
\<close>

record app_state =
  as_cursor :: block_cursor
  as_config :: config
  as_thornode :: string
  as_chain_height :: i64
  as_node_http :: "string \<Rightarrow> bool \<times> string + thor_node list"
  as_clock :: i64
  as_ping :: bool
  as_date_trunc :: "string \<Rightarrow> second \<Rightarrow> second"
  as_collate :: "string list \<Rightarrow> string list"
  as_hash_order :: "string list \<Rightarrow> string list"

text \<open>A request with query parameters: parse, refuse the unknown, answer.\<close>

definition with_query :: "(string \<times> string) list \<Rightarrow> 'a parser \<Rightarrow> ('a \<Rightarrow> 'b asks) \<Rightarrow> 'b asks" where
  "with_query raw m f = ask_then (returns (with_params raw m Inr)) f"

lemma clean_query [clean_intros]: "(\<And>a. fails_clean (f a)) \<Longrightarrow> fails_clean (with_query raw m f)"
  unfolding with_query_def by (intro clean_intros)

lemma query_unknown:
  assumes "knows m ks" "k \<in> set (map fst raw)" "k \<notin> ks"
  shows "\<exists>msg. with_query raw m f reads = (Inl (BadRequest msg), 0)"
  using with_params_unknown [OF assms, of Inr] by (auto simp: with_query_def ask_then_def returns_def)

section \<open>Buckets in SQL\<close>

text \<open>The value of the expression \<open>truncated_timestamp\<close> at a block timestamp.\<close>

definition bucket_key :: "(string \<Rightarrow> second \<Rightarrow> second) \<Rightarrow> buckets \<Rightarrow> nano \<Rightarrow> second" where
  "bucket_key date_trunc b ts = (case bu_interval b of
     None \<Rightarrow> bu_start b
   | Some iv \<Rightarrow> date_trunc (date_trunc_field iv) (ts sdiv 1000000000 sdiv 300 * 300))"

text \<open>\<open>block_timestamp >= $1 AND block_timestamp < $2\<close>.\<close>

definition in_span :: "second \<Rightarrow> second \<Rightarrow> nano \<Rightarrow> bool" where
  "in_span from_s until_s ts \<longleftrightarrow> to_nano from_s \<le> ts \<and> ts < to_nano until_s"

definition of_pool :: "string option \<Rightarrow> row \<Rightarrow> bool" where
  "of_pool pool r \<longleftrightarrow> (case pool of None \<Rightarrow> True | Some p \<Rightarrow> text_cell r ''pool'' = p)"

section \<open>Errors on the wire\<close>

datatype body = JsonBody json | TextBody string

record response =
  rs_status :: int
  rs_body :: body

definition into_response :: "error \<Rightarrow> response" where
  "into_response e = \<lparr>rs_status = status_code e, rs_body = JsonBody (JObj [(''error'', JStr (public_message e))])\<rparr>"

section \<open>The price of RUNE\<close>

text \<open>\<open>Iterator::max_by_key\<close>: of several greatest elements, the last.\<close>

fun max_by :: "('a \<Rightarrow> int) \<Rightarrow> 'a list \<Rightarrow> 'a option" where
  "max_by key [] = None"
| "max_by key (x # xs) = (case max_by key xs of None \<Rightarrow> Some x
     | Some y \<Rightarrow> if key x \<le> key y then Some y else Some x)"

definition price_from_depths :: "(string \<times> i64 \<times> i64) list \<Rightarrow> f64" where
  "price_from_depths rows =
     (case max_by (\<lambda>(_, _, rune_e8). rune_e8) (filter (\<lambda>(_, asset_e8, rune_e8). 0 < asset_e8 \<and> 0 < rune_e8) rows) of
        Some (_, asset_e8, rune_e8) \<Rightarrow> f64_div (f64_of_i64 asset_e8) (f64_of_i64 rune_e8)
      | None \<Rightarrow> Zero False)"

definition depths_until :: "(string list \<Rightarrow> string list) \<Rightarrow> nano \<Rightarrow> database \<Rightarrow> row list" where
  "depths_until collate at db = distinct_on collate ''pool'' (filter (\<lambda>r. ts_of r \<le> at) (db ''block_pool_depths''))"

definition rune_price_at :: "app_state \<Rightarrow> string list \<Rightarrow> second \<Rightarrow> f64 asks" where
  "rune_price_at s pools at =
     (if pools = [] then returns (Inr (Zero False))
      else ask (\<lambda>db. Inr (price_from_depths
        (map (\<lambda>r. (text_cell r ''pool'', int_cell r ''asset_e8'', int_cell r ''rune_e8''))
          (distinct_on (as_collate s) ''pool''
            (filter (\<lambda>r. text_cell r ''pool'' \<in> set pools \<and> ts_of r \<le> to_nano at)
              (db ''block_pool_depths'')))))))"

definition rune_price_now :: "app_state \<Rightarrow> second \<Rightarrow> f64 asks" where
  "rune_price_now s now = rune_price_at s (usd_pools (as_config s)) now"

lemma clean_price [clean_intros]: "fails_clean (rune_price_now s now)"
  by (auto simp: rune_price_now_def rune_price_at_def intro: clean_intros)

lemma max_by_None [simp]: "max_by key xs = None \<longleftrightarrow> xs = []"
  by (cases xs) (auto split: option.split)

lemma max_by_max:
  "max_by key xs = Some x \<Longrightarrow> x \<in> set xs \<and> (\<forall>y\<in>set xs. key y \<le> key x)"
proof (induction xs arbitrary: x)
  case (Cons z zs)
  show ?case
  proof (cases "max_by key zs")
    case None
    with Cons.prems show ?thesis by simp
  next
    case (Some y)
    from Cons.IH [OF Some] Cons.prems Some show ?thesis by (force split: if_splits)
  qed
qed simp

end
