(* ===== verification/Histories.thy ===== *)
theory Histories
  imports Requests
begin

text \<open>
  What the history endpoints that sum events share. A query groups the rows of the window by
  bucket key; the handler walks the buckets, takes each one's totals, and adds them up for
  \<open>meta\<close>. The locale \<open>bucket_totals\<close> is the contract of such totals; under it every bucket has the
  sums of the rows in its own span and \<open>meta\<close> those of the whole window.
\<close>

section \<open>Walking the buckets\<close>

definition totals_at :: "'t \<Rightarrow> (second \<times> 't) list \<Rightarrow> buckets \<Rightarrow> nat \<Rightarrow> 't" where
  "totals_at zero by_bucket b i = unwrap_or zero (map_of by_bucket (wi_from (bucket b i)))"

definition history_of ::
    "(second \<Rightarrow> second \<Rightarrow> 't \<Rightarrow> 'i) \<Rightarrow> 't \<Rightarrow> ('t \<Rightarrow> 't \<Rightarrow> 't) \<Rightarrow> buckets \<Rightarrow> (second \<times> 't) list \<Rightarrow> 'i history" where
  "history_of item zero add b by_bucket =
     \<lparr>hi_intervals = map (\<lambda>i. item (wi_from (bucket b i)) (wi_until (bucket b i)) (totals_at zero by_bucket b i))
        [0..<bu_count b],
      hi_meta = item (bu_start b) (bu_end b) (foldl add zero (map (totals_at zero by_bucket b) [0..<bu_count b]))\<rparr>"

section \<open>The database agrees with the calendar\<close>

text \<open>\<open>date_trunc\<close> in a session whose time zone is UTC, from 1970 on.\<close>

definition utc :: "(string \<Rightarrow> second \<Rightarrow> second) \<Rightarrow> bool" where
  "utc date_trunc \<longleftrightarrow> (\<forall>t\<ge>0. date_trunc ''minute'' t = t div 60 * 60 \<and>
     (\<forall>iv. iv \<noteq> Min5 \<longrightarrow> date_trunc (date_trunc_field iv) t = edge_of iv (index_of iv t)))"

definition utc_trunc :: "string \<Rightarrow> second \<Rightarrow> second" where
  "utc_trunc field t =
     (if field = ''minute'' then t div 60 * 60
      else case List.find (\<lambda>iv. date_trunc_field iv = field) [Hour, Day, Week, Month, Quarter, Year] of
        Some iv \<Rightarrow> edge_of iv (index_of iv t) | None \<Rightarrow> t)"

lemma utc_utc_trunc: "utc utc_trunc"
proof -
  have "utc_trunc (date_trunc_field iv) t = edge_of iv (index_of iv t)" if "iv \<noteq> Min5" for iv t
    using that by (cases iv) (simp_all add: utc_trunc_def)
  then show ?thesis by (simp add: utc_def utc_trunc_def)
qed

text \<open>The shape of what \<open>generate\<close> returns, at times that nanoseconds in 64 bits can express.\<close>

definition buckets_ok :: "buckets \<Rightarrow> bool" where
  "buckets_ok b \<longleftrightarrow> (\<forall>t\<in>set (bu_timestamps b). 0 \<le> t \<and> t \<le> 9223372036) \<and>
     (case bu_interval b of None \<Rightarrow> length (bu_timestamps b) = 2
      | Some iv \<Rightarrow> \<exists>i j. i < j \<and> bu_timestamps b = map (edge_of iv) [i..j])"

lemma generate_ok:
  assumes "cursor_sane c" "params_sane p" "generate p c = Inr b"
    and "\<forall>t\<in>set (bu_timestamps b). 0 \<le> t \<and> t \<le> 9223372036"
  shows "buckets_ok b"
proof (cases "bp_interval p")
  case None
  then have "bu_interval b = None" "length (bu_timestamps b) = 2"
    using assms(3) by (auto simp: generate_def Let_def one_bucket_def split: if_splits)
  with assms(4) show ?thesis by (simp add: buckets_ok_def)
next
  case (Some iv)
  obtain i j where "bu_timestamps b = map (edge_of iv) [i..j]" "i < j" "bu_interval b = Some iv"
    by (rule generate_edges [OF assms(1-3) Some])
  with assms(4) show ?thesis unfolding buckets_ok_def by auto
qed

lemma edge_multiple: "edge_of iv i mod 300 = 0"
proof -
  have m: "(300 * n) mod 300 = 0" for n :: int by simp
  from m [of "288 * n" for n] m [of "12 * n" for n] m [of "n * 2016 - 864" for n] m show ?thesis
    by (cases iv) (simp_all add: month_start_def algebra_simps)
qed

text \<open>Rounding down to five minutes does not leave the interval.\<close>

lemma index_of_rounded: "index_of iv (t div 300 * 300) = index_of iv t"
proof -
  let ?i = "index_of iv t"
  have b: "edge_of iv ?i \<le> t" "t < edge_of iv (?i + 1)" using index_bounds [of iv t] by auto
  have "edge_of iv ?i div 300 * 300 = edge_of iv ?i"
    using edge_multiple [of iv ?i] div_mult_mod_eq [of "edge_of iv ?i" 300] by simp
  moreover have "edge_of iv ?i div 300 \<le> t div 300" using b(1) by (simp add: zdiv_mono1)
  ultimately have "edge_of iv ?i \<le> t div 300 * 300" by (metis mult_right_mono zero_le_numeral)
  moreover have "t div 300 * 300 < edge_of iv (?i + 1)" using div_bounds(1) [of 300 t] b(2) by simp
  ultimately show ?thesis by (rule cal.idx_unique)
qed

lemma bucket_key_edge:
  assumes "utc date_trunc" "bu_interval b = Some iv" "0 \<le> ts"
  shows "bucket_key date_trunc b ts = edge_of iv (index_of iv (ts div 1000000000))"
proof -
  let ?s = "ts div 1000000000"
  have s: "0 \<le> ?s" "0 \<le> ?s div 300 * 300" using assms(3) by (simp_all add: pos_imp_zdiv_nonneg_iff)
  have key: "bucket_key date_trunc b ts = date_trunc (date_trunc_field iv) (?s div 300 * 300)"
    using assms(2,3) s by (simp add: bucket_key_def sdiv_nonneg)
  show ?thesis
  proof (cases "iv = Min5")
    case True
    have "?s div 300 * 300 = (?s div 300 * 5) * 60" by simp
    then have "?s div 300 * 300 div 60 * 60 = ?s div 300 * 300" by (metis nonzero_mult_div_cancel_right zero_neq_numeral)
    with key True assms(1) s(2) show ?thesis by (simp add: utc_def)
  next
    case False
    with key assms(1) s(2) index_of_rounded [of iv ?s] show ?thesis by (simp add: utc_def)
  qed
qed

lemma nano_seconds:
  assumes "0 \<le> t" "t \<le> 9223372036"
  shows "to_nano t = t * 1000000000" "to_nano t \<le> ts \<longleftrightarrow> t \<le> ts div 1000000000" "ts < to_nano t \<longleftrightarrow> ts div 1000000000 < t"
proof -
  have n: "to_nano t = t * 1000000000"
    using assms by (simp add: to_nano_def NANOS_PER_SECOND_def i64_ok_def)
  then show "to_nano t = t * 1000000000" .
  have "t \<le> ts div 1000000000" if "t * 1000000000 \<le> ts" using zdiv_mono1 [OF that, of 1000000000] by simp
  moreover have "t * 1000000000 \<le> ts" if "t \<le> ts div 1000000000"
    using that div_bounds(1) [of 1000000000 ts] by linarith
  ultimately have "t * 1000000000 \<le> ts \<longleftrightarrow> t \<le> ts div 1000000000" by blast
  then show "to_nano t \<le> ts \<longleftrightarrow> t \<le> ts div 1000000000" "ts < to_nano t \<longleftrightarrow> ts div 1000000000 < t"
    unfolding n by linarith+
qed

section \<open>Every row of the window is in exactly one bucket\<close>

lemma bucket_times:
  assumes "buckets_ok b" "i < bu_count b"
  shows "0 \<le> wi_from (bucket b i)" "wi_from (bucket b i) \<le> 9223372036"
    "0 \<le> wi_until (bucket b i)" "wi_until (bucket b i) \<le> 9223372036" "0 \<le> bu_start b" "bu_start b \<le> 9223372036"
proof -
  have "0 \<le> bu_timestamps b ! k \<and> bu_timestamps b ! k \<le> 9223372036" if "k < length (bu_timestamps b)" for k
    using assms(1) nth_mem [OF that] by (auto simp: buckets_ok_def)
  moreover have "i < length (bu_timestamps b)" "i + 1 < length (bu_timestamps b)" "0 < length (bu_timestamps b)"
    using assms(2) by (auto simp: bu_count_def)
  ultimately show "0 \<le> wi_from (bucket b i)" "wi_from (bucket b i) \<le> 9223372036"
    "0 \<le> wi_until (bucket b i)" "wi_until (bucket b i) \<le> 9223372036" "0 \<le> bu_start b" "bu_start b \<le> 9223372036"
    by (simp_all add: bucket_def bu_start_def)
qed

lemma bucket_key_iff:
  assumes "utc date_trunc" "buckets_ok b" "i < bu_count b" "in_span (bu_start b) (bu_end b) ts"
  shows "bucket_key date_trunc b ts = wi_from (bucket b i) \<longleftrightarrow> in_span (wi_from (bucket b i)) (wi_until (bucket b i)) ts"
proof (cases "bu_interval b")
  case None
  with assms(2) obtain x y where "bu_timestamps b = [x, y]" by (auto simp: buckets_ok_def length_Suc_conv numeral_2_eq_2)
  with None assms(3,4) show ?thesis
    by (auto simp: bucket_key_def bucket_def bu_count_def bu_start_def bu_end_def)
next
  case (Some iv)
  with assms(2) obtain k l where ts: "bu_timestamps b = map (edge_of iv) [k..l]" "k < l"
    by (auto simp: buckets_ok_def)
  have i: "bucket b i = \<lparr>wi_from = edge_of iv (k + int i), wi_until = edge_of iv (k + int i + 1)\<rparr>"
    using assms(3) ts by (simp add: bucket_def bu_count_def ac_simps)
  note n = bucket_times [OF assms(2,3)]
  have "0 \<le> ts" using assms(4) nano_seconds(1) [OF n(5,6)] n(5) by (simp add: in_span_def)
  then have key: "bucket_key date_trunc b ts = edge_of iv (index_of iv (ts div 1000000000))"
    by (rule bucket_key_edge [OF assms(1) Some])
  have "edge_of iv (index_of iv s) = edge_of iv m \<longleftrightarrow> edge_of iv m \<le> s \<and> s < edge_of iv (m + 1)" for s m
    using index_bounds [of iv s] cal.idx_unique [of iv m s] cal.idx_edge [of iv] by metis
  from this [of "ts div 1000000000" "k + int i"] show ?thesis
    using nano_seconds(2) [OF n(1,2), of ts] nano_seconds(3) [OF n(3,4), of ts] i by (simp add: key in_span_def)
qed

lemma bucket_in_window:
  assumes "buckets_ok b" "i < bu_count b" "in_span (wi_from (bucket b i)) (wi_until (bucket b i)) ts"
  shows "in_span (bu_start b) (bu_end b) ts"
proof (cases "bu_interval b")
  case None
  with assms(1) obtain x y where "bu_timestamps b = [x, y]" by (auto simp: buckets_ok_def length_Suc_conv numeral_2_eq_2)
  with assms(2,3) show ?thesis by (simp add: bucket_def bu_count_def bu_start_def bu_end_def)
next
  case (Some iv)
  with assms(1) obtain k l where ts: "bu_timestamps b = map (edge_of iv) [k..l]" "k < l"
    by (auto simp: buckets_ok_def)
  have "int i < l - k" using assms(2) ts by (simp add: bu_count_def)
  then have "edge_of iv k \<le> edge_of iv (k + int i)" "edge_of iv (k + int i + 1) \<le> edge_of iv l" by simp_all
  moreover have w: "bucket b i = \<lparr>wi_from = edge_of iv (k + int i), wi_until = edge_of iv (k + int i + 1)\<rparr>"
    using assms(2) ts by (simp add: bucket_def bu_count_def ac_simps)
  note t = bucket_times [OF assms(1,2), unfolded w, simplified]
  have s: "edge_of iv (k + int i) \<le> ts div 1000000000" "ts div 1000000000 < edge_of iv (k + int i + 1)"
    using assms(3) nano_seconds(2) [OF t(1,2)] nano_seconds(3) [OF t(3,4)] by (simp_all add: w in_span_def)
  ultimately have "edge_of iv k \<le> ts div 1000000000" "ts div 1000000000 < edge_of iv l" by linarith+
  moreover have "bu_start b = edge_of iv k" "bu_end b = edge_of iv l"
    using ts by (simp_all add: bu_start_def bu_end_def last_map last_conv_nth)
  moreover have "0 \<le> edge_of iv k" "edge_of iv l \<le> 9223372036" "0 \<le> edge_of iv l" "edge_of iv k \<le> 9223372036"
    using assms(1) ts by (auto simp: buckets_ok_def)
  ultimately show ?thesis using nano_seconds(2,3) by (simp add: in_span_def)
qed

definition checked :: "('t \<Rightarrow> bool) \<Rightarrow> ('r list \<Rightarrow> 't) \<Rightarrow> 'r list \<Rightarrow> string + 't" where
  "checked fits sums rows = (if fits (sums rows) then Inr (sums rows) else Inl ''bigint out of range'')"

text \<open>\<open>SELECT ... FROM rows WHERE (in the window) GROUP BY bucket\<close>.\<close>

definition grouped ::
    "('r \<Rightarrow> nano) \<Rightarrow> ('r list \<Rightarrow> 't) \<Rightarrow> ('t \<Rightarrow> bool) \<Rightarrow> (string \<Rightarrow> second \<Rightarrow> second) \<Rightarrow> buckets \<Rightarrow> 'r list \<Rightarrow>
     string + (second \<times> 't) list" where
  "grouped time sums fits date_trunc b rows =
     group_by (\<lambda>r. bucket_key date_trunc b (time r)) (checked fits sums)
       (filter (\<lambda>r. in_span (bu_start b) (bu_end b) (time r)) rows)"

locale bucket_totals =
  fixes time :: "'r \<Rightarrow> nano" and sums :: "'r list \<Rightarrow> 't" and fits :: "'t \<Rightarrow> bool"
    and wrapped :: "'t \<Rightarrow> 't" and zero :: 't and add :: "'t \<Rightarrow> 't \<Rightarrow> 't"
  assumes sums_Nil: "sums [] = zero"
    and sums_perm: "mset xs = mset ys \<Longrightarrow> sums xs = sums ys"
    and fits_zero: "fits zero"
    and wrapped_fits: "fits t \<Longrightarrow> wrapped t = t"
    and add_sums: "add (wrapped (sums xs)) (wrapped (sums ys)) = wrapped (sums (xs @ ys))"
begin

lemma totals_at_bucket:
  assumes ok: "utc date_trunc" "buckets_ok b" "i < bu_count b" and g: "grouped time sums fits date_trunc b rows = Inr g"
  defines "B \<equiv> filter (\<lambda>r. in_span (wi_from (bucket b i)) (wi_until (bucket b i)) (time r)) rows"
  shows "totals_at zero g b i = sums B" "fits (sums B)"
proof -
  let ?R = "filter (\<lambda>r. in_span (bu_start b) (bu_end b) (time r)) rows"
  let ?k = "wi_from (bucket b i)"
  have B: "filter (\<lambda>r. bucket_key date_trunc b (time r) = ?k) ?R = B"
    unfolding B_def filter_filter
    by (rule filter_cong) (use bucket_key_iff [OF ok] bucket_in_window [OF ok(2,3)] in auto)
  note look = group_by_lookup [OF g [unfolded grouped_def], of ?k, unfolded B]
  show "totals_at zero g b i = sums B"
  proof (cases "?k \<in> (\<lambda>r. bucket_key date_trunc b (time r)) ` set ?R")
    case True
    from look(2) [OF True] look(1) True show ?thesis
      by (auto simp: totals_at_def checked_def ok_def split: if_splits)
  next
    case False
    then have "B = []" unfolding B [symmetric] filter_empty_conv by (metis image_eqI)
    then have "sums B = zero" by (simp add: sums_Nil)
    with look(1) False show ?thesis by (simp add: totals_at_def)
  qed
  show "fits (sums B)"
  proof (cases "B = []")
    case False
    then have "?k \<in> (\<lambda>r. bucket_key date_trunc b (time r)) ` set ?R"
      unfolding B [symmetric] by (auto simp: filter_empty_conv intro: rev_image_eqI)
    from look(2) [OF this] show ?thesis by (auto simp: checked_def split: if_splits)
  qed (simp add: sums_Nil fits_zero)
qed

lemma totals_upto:
  assumes ok: "utc date_trunc" "buckets_ok b" and g: "grouped time sums fits date_trunc b rows = Inr g" and n: "n \<le> bu_count b"
  shows "foldl add zero (map (totals_at zero g b) [0..<n]) =
    wrapped (sums (filter (\<lambda>r. in_span (bu_start b) (bu_timestamps b ! n) (time r)) rows))"
  using n
proof (induction n)
  case 0
  have "filter (\<lambda>r. in_span (bu_start b) (bu_timestamps b ! 0) (time r)) rows = []"
    by (simp add: in_span_def bu_start_def)
  then show ?case by (simp add: sums_Nil wrapped_fits fits_zero)
next
  case (Suc n)
  let ?w = "bucket b n"
  let ?A = "filter (\<lambda>r. in_span (bu_start b) (bu_timestamps b ! n) (time r)) rows"
  let ?B = "filter (\<lambda>r. in_span (wi_from ?w) (wi_until ?w) (time r)) rows"
  have n: "n < bu_count b" using Suc.prems by simp
  note B = totals_at_bucket [OF ok n g]
  have start: "to_nano (bu_start b) \<le> to_nano (bu_timestamps b ! n)"
    "to_nano (bu_timestamps b ! n) \<le> to_nano (bu_timestamps b ! Suc n) \<or> n = 0"
  proof -
    have "bu_start b \<le> bu_timestamps b ! n" "bu_timestamps b ! n \<le> bu_timestamps b ! Suc n \<or> n = 0"
      using ok(2) n by (cases "bu_interval b"; force simp: buckets_ok_def bu_count_def bu_start_def)+
    with bucket_times [OF ok(2) n] show "to_nano (bu_start b) \<le> to_nano (bu_timestamps b ! n)"
      "to_nano (bu_timestamps b ! n) \<le> to_nano (bu_timestamps b ! Suc n) \<or> n = 0"
      by (auto simp: bucket_def nano_seconds(1))
  qed
  have "mset (?A @ ?B) = mset (filter (\<lambda>r. in_span (bu_start b) (bu_timestamps b ! Suc n) (time r)) rows)"
    using start by (induction rows) (auto simp: in_span_def bucket_def bu_start_def)
  from sums_perm [OF this] add_sums [of ?A ?B] wrapped_fits [OF B(2)] B(1) Suc.IH n show ?case by simp
qed

text \<open>The history: each bucket the sums of its rows, \<open>meta\<close> those of all of them, at 64 bits.\<close>

lemma history_exact:
  assumes "utc date_trunc" "buckets_ok b" "grouped time sums fits date_trunc b rows = Inr g"
  shows "history_of item zero add b g =
    \<lparr>hi_intervals = map (\<lambda>i. let w = bucket b i in
        item (wi_from w) (wi_until w) (sums (filter (\<lambda>r. in_span (wi_from w) (wi_until w) (time r)) rows)))
        [0..<bu_count b],
     hi_meta = item (bu_start b) (bu_end b)
        (wrapped (sums (filter (\<lambda>r. in_span (bu_start b) (bu_end b) (time r)) rows)))\<rparr>"
proof -
  have "bu_timestamps b \<noteq> []" using assms(2) by (cases "bu_interval b") (auto simp: buckets_ok_def)
  then have "bu_timestamps b ! bu_count b = bu_end b" by (simp add: bu_count_def bu_end_def last_conv_nth)
  with totals_upto [OF assms order_refl] totals_at_bucket(1) [OF assms(1,2) _ assms(3)] show ?thesis
    by (simp add: history_of_def Let_def)
qed

end

end
