(* ===== verification/Swap_History.thy ===== *)
theory Swap_History
  imports Histories
begin

text \<open>
  \<open>crates/midgard-api/src/handlers/swaps.rs\<close>: swap counts, volumes, fees and slips by direction
  and bucket.
\<close>

record swap_totals =
  tt_to_asset_count :: i64
  tt_to_rune_count :: i64
  tt_synth_mint_count :: i64
  tt_synth_redeem_count :: i64
  tt_to_asset_volume :: i64
  tt_to_rune_volume :: i64
  tt_synth_mint_volume :: i64
  tt_synth_redeem_volume :: i64
  tt_to_asset_fees :: i64
  tt_to_rune_fees :: i64
  tt_synth_mint_fees :: i64
  tt_synth_redeem_fees :: i64
  tt_to_asset_slip :: i64
  tt_to_rune_slip :: i64
  tt_synth_mint_slip :: i64
  tt_synth_redeem_slip :: i64

definition swap_zero :: swap_totals where
  "swap_zero =
     \<lparr>tt_to_asset_count = 0, tt_to_rune_count = 0, tt_synth_mint_count = 0, tt_synth_redeem_count = 0,
      tt_to_asset_volume = 0, tt_to_rune_volume = 0, tt_synth_mint_volume = 0, tt_synth_redeem_volume = 0,
      tt_to_asset_fees = 0, tt_to_rune_fees = 0, tt_synth_mint_fees = 0, tt_synth_redeem_fees = 0,
      tt_to_asset_slip = 0, tt_to_rune_slip = 0, tt_synth_mint_slip = 0, tt_synth_redeem_slip = 0\<rparr>"

definition swap_add :: "swap_totals \<Rightarrow> swap_totals \<Rightarrow> swap_totals" where
  "swap_add a o' =
     \<lparr>tt_to_asset_count = wrap64 (tt_to_asset_count a + tt_to_asset_count o'),
      tt_to_rune_count = wrap64 (tt_to_rune_count a + tt_to_rune_count o'),
      tt_synth_mint_count = wrap64 (tt_synth_mint_count a + tt_synth_mint_count o'),
      tt_synth_redeem_count = wrap64 (tt_synth_redeem_count a + tt_synth_redeem_count o'),
      tt_to_asset_volume = wrap64 (tt_to_asset_volume a + tt_to_asset_volume o'),
      tt_to_rune_volume = wrap64 (tt_to_rune_volume a + tt_to_rune_volume o'),
      tt_synth_mint_volume = wrap64 (tt_synth_mint_volume a + tt_synth_mint_volume o'),
      tt_synth_redeem_volume = wrap64 (tt_synth_redeem_volume a + tt_synth_redeem_volume o'),
      tt_to_asset_fees = wrap64 (tt_to_asset_fees a + tt_to_asset_fees o'),
      tt_to_rune_fees = wrap64 (tt_to_rune_fees a + tt_to_rune_fees o'),
      tt_synth_mint_fees = wrap64 (tt_synth_mint_fees a + tt_synth_mint_fees o'),
      tt_synth_redeem_fees = wrap64 (tt_synth_redeem_fees a + tt_synth_redeem_fees o'),
      tt_to_asset_slip = wrap64 (tt_to_asset_slip a + tt_to_asset_slip o'),
      tt_to_rune_slip = wrap64 (tt_to_rune_slip a + tt_to_rune_slip o'),
      tt_synth_mint_slip = wrap64 (tt_synth_mint_slip a + tt_synth_mint_slip o'),
      tt_synth_redeem_slip = wrap64 (tt_synth_redeem_slip a + tt_synth_redeem_slip o')\<rparr>"

definition total_count :: "swap_totals \<Rightarrow> i64" where
  "total_count t = wrap64 (tt_to_asset_count t + tt_to_rune_count t + tt_synth_mint_count t + tt_synth_redeem_count t)"

definition total_volume :: "swap_totals \<Rightarrow> i64" where
  "total_volume t = wrap64 (tt_to_asset_volume t + tt_to_rune_volume t + tt_synth_mint_volume t + tt_synth_redeem_volume t)"

definition total_fees :: "swap_totals \<Rightarrow> i64" where
  "total_fees t = wrap64 (tt_to_asset_fees t + tt_to_rune_fees t + tt_synth_mint_fees t + tt_synth_redeem_fees t)"

definition average_slip :: "swap_totals \<Rightarrow> f64" where
  "average_slip t =
     (let total_slip = wrap64 (tt_to_asset_slip t + tt_to_rune_slip t + tt_synth_mint_slip t + tt_synth_redeem_slip t)
      in ratio (f64_of_i64 total_slip) (f64_of_i64 (total_count t)))"

definition swap_item :: "f64 \<Rightarrow> second \<Rightarrow> second \<Rightarrow> swap_totals \<Rightarrow> swap_history_item" where
  "swap_item rune_usd start_s end_s t =
     (let avg = \<lambda>slip cnt. float_str (ratio (f64_of_i64 slip) (f64_of_i64 cnt)) in
     \<lparr>si_start_time = int_to_string start_s, si_end_time = int_to_string end_s,
      si_to_asset_count = int_str (tt_to_asset_count t), si_to_rune_count = int_str (tt_to_rune_count t),
      si_synth_mint_count = int_str (tt_synth_mint_count t),
      si_synth_redeem_count = int_str (tt_synth_redeem_count t),
      si_total_count = int_str (total_count t),
      si_to_asset_volume = int_str (tt_to_asset_volume t), si_to_rune_volume = int_str (tt_to_rune_volume t),
      si_synth_mint_volume = int_str (tt_synth_mint_volume t),
      si_synth_redeem_volume = int_str (tt_synth_redeem_volume t),
      si_total_volume = int_str (total_volume t),
      si_to_asset_fees = int_str (tt_to_asset_fees t), si_to_rune_fees = int_str (tt_to_rune_fees t),
      si_synth_mint_fees = int_str (tt_synth_mint_fees t),
      si_synth_redeem_fees = int_str (tt_synth_redeem_fees t),
      si_total_fees = int_str (total_fees t),
      si_to_asset_average_slip = avg (tt_to_asset_slip t) (tt_to_asset_count t),
      si_to_rune_average_slip = avg (tt_to_rune_slip t) (tt_to_rune_count t),
      si_synth_mint_average_slip = avg (tt_synth_mint_slip t) (tt_synth_mint_count t),
      si_synth_redeem_average_slip = avg (tt_synth_redeem_slip t) (tt_synth_redeem_count t),
      si_average_slip = float_str (average_slip t),
      si_rune_price_usd = float_str rune_usd\<rparr>)"

section \<open>The query\<close>

text \<open>\<open>SUM(CASE WHEN _direction IN (...) THEN f ELSE 0 END)\<close>.\<close>

definition directed :: "int list \<Rightarrow> (row \<Rightarrow> int) \<Rightarrow> row list \<Rightarrow> int" where
  "directed ds f = sum_of (\<lambda>r. if int_cell r ''_direction'' \<in> set ds then f r else 0)"

definition swap_sums :: "row list \<Rightarrow> swap_totals" where
  "swap_sums rows =
     (let one = (\<lambda>_. 1); from_e8 = (\<lambda>r. int_cell r ''from_e8''); to_e8 = (\<lambda>r. int_cell r ''to_e8'');
          fee = (\<lambda>r. int_cell r ''liq_fee_in_rune_e8''); slip = (\<lambda>r. int_cell r ''swap_slip_bp'') in
     \<lparr>tt_to_asset_count = directed [0,4,6] one rows, tt_to_rune_count = directed [1,5,7] one rows,
      tt_synth_mint_count = directed [2] one rows, tt_synth_redeem_count = directed [3] one rows,
      tt_to_asset_volume = directed [0,4,6] from_e8 rows, tt_to_rune_volume = directed [1,5,7] to_e8 rows,
      tt_synth_mint_volume = directed [2] from_e8 rows, tt_synth_redeem_volume = directed [3] to_e8 rows,
      tt_to_asset_fees = directed [0,4,6] fee rows, tt_to_rune_fees = directed [1,5,7] fee rows,
      tt_synth_mint_fees = directed [2] fee rows, tt_synth_redeem_fees = directed [3] fee rows,
      tt_to_asset_slip = directed [0,4,6] slip rows, tt_to_rune_slip = directed [1,5,7] slip rows,
      tt_synth_mint_slip = directed [2] slip rows, tt_synth_redeem_slip = directed [3] slip rows\<rparr>)"

definition swap_fits :: "swap_totals \<Rightarrow> bool" where
  "swap_fits t \<longleftrightarrow> list_all i64_ok
     [tt_to_asset_count t, tt_to_rune_count t, tt_synth_mint_count t, tt_synth_redeem_count t,
      tt_to_asset_volume t, tt_to_rune_volume t, tt_synth_mint_volume t, tt_synth_redeem_volume t,
      tt_to_asset_fees t, tt_to_rune_fees t, tt_synth_mint_fees t, tt_synth_redeem_fees t,
      tt_to_asset_slip t, tt_to_rune_slip t, tt_synth_mint_slip t, tt_synth_redeem_slip t]"

definition swap_query_totals :: "app_state \<Rightarrow> buckets \<Rightarrow> string option \<Rightarrow> (second \<times> swap_totals) list asks" where
  "swap_query_totals s b pool = ask (\<lambda>db. grouped ts_of swap_sums swap_fits (as_date_trunc s) b
     (filter (of_pool pool) (db ''swap_events'')))"

definition swap_params :: "(bucket_params \<times> string option) parser" where
  "swap_params = then_take take_buckets (\<lambda>bp. then_take (take_string ''pool'') (\<lambda>pool. done_with (bp, pool)))"

definition swap_history :: "app_state \<Rightarrow> (string \<times> string) list \<Rightarrow> swap_history_item history asks" where
  "swap_history s raw = with_query raw swap_params (\<lambda>(bp, pool).
     ask_then (returns (generate bp (as_cursor s))) (\<lambda>b.
     ask_then (swap_query_totals s b pool) (\<lambda>by_bucket.
     ask_then (rune_price_now s (bu_end b)) (\<lambda>rune_usd.
     returns (Inr (history_of (swap_item rune_usd) swap_zero swap_add b by_bucket))))))"

section \<open>Lemmas\<close>

definition swap_wrapped :: "swap_totals \<Rightarrow> swap_totals" where
  "swap_wrapped t = swap_add t swap_zero"

lemma directed_simps [simp]:
  "directed ds f [] = 0" "directed ds f (xs @ ys) = directed ds f xs + directed ds f ys"
  by (simp_all add: directed_def)

lemma directed_perm: "mset xs = mset ys \<Longrightarrow> directed ds f xs = directed ds f ys"
  unfolding directed_def by (rule sum_of_perm)

interpretation swaps: bucket_totals ts_of swap_sums swap_fits swap_wrapped swap_zero swap_add
proof
  show "swap_sums [] = swap_zero" by (simp add: swap_sums_def swap_zero_def Let_def)
  show "swap_sums xs = swap_sums ys" if "mset xs = mset ys" for xs ys
    unfolding swap_sums_def by (simp only: directed_perm [OF that])
  show "swap_fits swap_zero" by (simp add: swap_fits_def swap_zero_def i64_ok_def)
  show "swap_wrapped t = t" if "swap_fits t" for t
    using that by (simp add: swap_fits_def swap_wrapped_def swap_add_def swap_zero_def)
  show "swap_add (swap_wrapped (swap_sums xs)) (swap_wrapped (swap_sums ys)) = swap_wrapped (swap_sums (xs @ ys))" for xs ys
    by (simp add: swap_wrapped_def swap_add_def swap_zero_def swap_sums_def Let_def)
qed

lemma knows_swap_params: "knows swap_params {''from'', ''to'', ''count'', ''interval'', ''pool''}"
  unfolding swap_params_def by (intro knows_intros) auto

lemma clean_swap_history [clean_intros]: "fails_clean (swap_history s raw)"
  unfolding swap_history_def swap_query_totals_def by (intro clean_intros) (auto intro!: clean_intros)

end
