(* ===== verification/Liquidity_History.thy ===== *)
theory Liquidity_History
  imports Histories
begin

text \<open>
  \<open>crates/midgard-api/src/handlers/liquidity.rs\<close>: deposits and withdrawals by bucket. The query
  unites the rows of two tables; a row of the union is tagged with the table it comes from.
\<close>

record liquidity_totals =
  lt_add_count :: i64
  lt_add_rune :: i64
  lt_add_asset :: i64
  lt_withdraw_count :: i64
  lt_withdraw_rune :: i64
  lt_withdraw_asset :: i64

definition liquidity_zero :: liquidity_totals where
  "liquidity_zero = \<lparr>lt_add_count = 0, lt_add_rune = 0, lt_add_asset = 0,
     lt_withdraw_count = 0, lt_withdraw_rune = 0, lt_withdraw_asset = 0\<rparr>"

definition liquidity_add :: "liquidity_totals \<Rightarrow> liquidity_totals \<Rightarrow> liquidity_totals" where
  "liquidity_add a t =
     \<lparr>lt_add_count = wrap64 (lt_add_count a + lt_add_count t),
      lt_add_rune = wrap64 (lt_add_rune a + lt_add_rune t),
      lt_add_asset = wrap64 (lt_add_asset a + lt_add_asset t),
      lt_withdraw_count = wrap64 (lt_withdraw_count a + lt_withdraw_count t),
      lt_withdraw_rune = wrap64 (lt_withdraw_rune a + lt_withdraw_rune t),
      lt_withdraw_asset = wrap64 (lt_withdraw_asset a + lt_withdraw_asset t)\<rparr>"

definition add_volume :: "liquidity_totals \<Rightarrow> i64" where
  "add_volume t = wrap64 (lt_add_rune t + lt_add_asset t)"

definition withdraw_volume :: "liquidity_totals \<Rightarrow> i64" where
  "withdraw_volume t = wrap64 (lt_withdraw_rune t + lt_withdraw_asset t)"

definition net :: "liquidity_totals \<Rightarrow> i64" where
  "net t = wrap64 (add_volume t - withdraw_volume t)"

definition liquidity_item :: "f64 \<Rightarrow> second \<Rightarrow> second \<Rightarrow> liquidity_totals \<Rightarrow> liquidity_history_item" where
  "liquidity_item rune_usd start_s end_s t =
     \<lparr>li_start_time = int_to_string start_s, li_end_time = int_to_string end_s,
      li_add_liquidity_count = int_str (lt_add_count t),
      li_add_liquidity_volume = int_str (add_volume t),
      li_add_asset_liquidity_volume = int_str (lt_add_asset t),
      li_add_rune_liquidity_volume = int_str (lt_add_rune t),
      li_withdraw_count = int_str (lt_withdraw_count t),
      li_withdraw_volume = int_str (withdraw_volume t),
      li_withdraw_asset_volume = int_str (lt_withdraw_asset t),
      li_withdraw_rune_volume = int_str (lt_withdraw_rune t),
      li_net = int_str (net t),
      li_rune_price_usd = float_str rune_usd\<rparr>"

section \<open>The query\<close>

datatype move = Added row | Withdrawn row

fun move_row :: "move \<Rightarrow> row" where
  "move_row (Added r) = r"
| "move_row (Withdrawn r) = r"

definition move_time :: "move \<Rightarrow> nano" where
  "move_time v = ts_of (move_row v)"

fun on_add :: "(row \<Rightarrow> int) \<Rightarrow> move \<Rightarrow> int" where
  "on_add f (Added r) = f r"
| "on_add f (Withdrawn r) = 0"

fun on_withdraw :: "(row \<Rightarrow> int) \<Rightarrow> move \<Rightarrow> int" where
  "on_withdraw f (Added r) = 0"
| "on_withdraw f (Withdrawn r) = f r"

definition liquidity_sums :: "move list \<Rightarrow> liquidity_totals" where
  "liquidity_sums moves =
     \<lparr>lt_add_count = sum_of (on_add (\<lambda>_. 1)) moves,
      lt_add_rune = sum_of (on_add (\<lambda>r. int_cell r ''rune_e8'')) moves,
      lt_add_asset = sum_of (on_add (\<lambda>r. int_cell r ''_asset_in_rune_e8'')) moves,
      lt_withdraw_count = sum_of (on_withdraw (\<lambda>_. 1)) moves,
      lt_withdraw_rune = sum_of (on_withdraw (\<lambda>r. int_cell r ''emit_rune_e8'')) moves,
      lt_withdraw_asset = sum_of (on_withdraw (\<lambda>r. int_cell r ''_emit_asset_in_rune_e8'')) moves\<rparr>"

definition liquidity_fits :: "liquidity_totals \<Rightarrow> bool" where
  "liquidity_fits t \<longleftrightarrow> i64_ok (lt_add_count t) \<and> i64_ok (lt_add_rune t) \<and> i64_ok (lt_add_asset t) \<and>
     i64_ok (lt_withdraw_count t) \<and> i64_ok (lt_withdraw_rune t) \<and> i64_ok (lt_withdraw_asset t)"

definition pool_moves :: "string option \<Rightarrow> database \<Rightarrow> move list" where
  "pool_moves pool db = map Added (filter (of_pool pool) (db ''stake_events''))
     @ map Withdrawn (filter (of_pool pool) (db ''withdraw_events''))"

definition liquidity_query_totals ::
    "app_state \<Rightarrow> buckets \<Rightarrow> string option \<Rightarrow> (second \<times> liquidity_totals) list asks" where
  "liquidity_query_totals s b pool = ask (\<lambda>db.
     grouped move_time liquidity_sums liquidity_fits (as_date_trunc s) b (pool_moves pool db))"

definition liquidity_params :: "(bucket_params \<times> string option) parser" where
  "liquidity_params = then_take take_buckets (\<lambda>bp. then_take (take_string ''pool'') (\<lambda>pool. done_with (bp, pool)))"

definition liquidity_history :: "app_state \<Rightarrow> (string \<times> string) list \<Rightarrow> liquidity_history_item history asks" where
  "liquidity_history s raw = with_query raw liquidity_params (\<lambda>(bp, pool).
     ask_then (returns (generate bp (as_cursor s))) (\<lambda>b.
     ask_then (liquidity_query_totals s b pool) (\<lambda>by_bucket.
     ask_then (rune_price_now s (bu_end b)) (\<lambda>rune_usd.
     returns (Inr (history_of (liquidity_item rune_usd) liquidity_zero liquidity_add b by_bucket))))))"

section \<open>Lemmas\<close>

definition liquidity_wrapped :: "liquidity_totals \<Rightarrow> liquidity_totals" where
  "liquidity_wrapped t = liquidity_add t liquidity_zero"

interpretation liquidity: bucket_totals move_time liquidity_sums liquidity_fits liquidity_wrapped
  liquidity_zero liquidity_add
proof
  show "liquidity_sums [] = liquidity_zero" by (simp add: liquidity_sums_def liquidity_zero_def)
  show "liquidity_sums xs = liquidity_sums ys" if "mset xs = mset ys" for xs ys
    unfolding liquidity_sums_def by (simp only: sum_of_perm [OF that])
  show "liquidity_fits liquidity_zero" by (simp add: liquidity_fits_def liquidity_zero_def i64_ok_def)
  show "liquidity_wrapped t = t" if "liquidity_fits t" for t
    using that by (simp add: liquidity_fits_def liquidity_wrapped_def liquidity_add_def liquidity_zero_def)
  show "liquidity_add (liquidity_wrapped (liquidity_sums xs)) (liquidity_wrapped (liquidity_sums ys)) =
      liquidity_wrapped (liquidity_sums (xs @ ys))" for xs ys
    by (simp add: liquidity_wrapped_def liquidity_add_def liquidity_zero_def liquidity_sums_def)
qed

text \<open>Deposits less withdrawals, whatever wraps in between.\<close>

lemma net_sums:
  "net (liquidity_wrapped (liquidity_sums moves)) =
     wrap64 (sum_of (on_add (\<lambda>r. int_cell r ''rune_e8'' + int_cell r ''_asset_in_rune_e8'')) moves
       - sum_of (on_withdraw (\<lambda>r. int_cell r ''emit_rune_e8'' + int_cell r ''_emit_asset_in_rune_e8'')) moves)"
proof -
  have split: "sum_of (on_add (\<lambda>r. f r + g r)) moves = sum_of (on_add f) moves + sum_of (on_add g) moves"
    "sum_of (on_withdraw (\<lambda>r. f r + g r)) moves = sum_of (on_withdraw f) moves + sum_of (on_withdraw g) moves" for f g
  proof (induction moves)
    case (Cons v vs)
    { case 1 with Cons show ?case by (cases v) simp_all }
    { case 2 with Cons show ?case by (cases v) simp_all }
  qed simp_all
  show ?thesis
    by (simp add: net_def add_volume_def withdraw_volume_def liquidity_wrapped_def liquidity_add_def
        liquidity_zero_def liquidity_sums_def split)
qed

lemma knows_liquidity_params: "knows liquidity_params {''from'', ''to'', ''count'', ''interval'', ''pool''}"
  unfolding liquidity_params_def by (intro knows_intros) auto

lemma clean_liquidity_history [clean_intros]: "fails_clean (liquidity_history s raw)"
  unfolding liquidity_history_def liquidity_query_totals_def by (intro clean_intros) (auto intro!: clean_intros)

end
