(* ===== verification/Assets.thy ===== *)
theory Assets
  imports Strings
begin

text \<open>
  \<open>crates/midgard-core/src/asset.rs\<close>: asset names, their classification and the conversion
  between the names of a pool and of its synth. The main lemmas: parsing is idempotent over
  printing, classification depends only on the name, and both conversions are inverse where the
  name carries one separator.
\<close>

section \<open>Classification\<close>

datatype coin_type = Rune | Native | Synth | Trade | Derived | Secure | Unknown

definition NATIVE_RUNE :: string where "NATIVE_RUNE = ''THOR.RUNE''"
definition RUNE_67C :: string where "RUNE_67C = ''BNB.RUNE-67C''"
definition RUNE_B1A :: string where "RUNE_B1A = ''BNB.RUNE-B1A''"
definition NATIVE_TCY :: string where "NATIVE_TCY = ''THOR.TCY''"
definition NATIVE_RUJI :: string where "NATIVE_RUJI = ''THOR.RUJI''"
definition NATIVE_NAMI :: string where "NATIVE_NAMI = ''THOR.NAMI''"

definition is_rune :: "string \<Rightarrow> bool" where
  "is_rune asset \<longleftrightarrow> asset = NATIVE_RUNE \<or> asset = RUNE_67C \<or> asset = RUNE_B1A"

definition coin_type_of :: "string \<Rightarrow> coin_type" where
  "coin_type_of asset =
     (if is_rune asset then Rune
      else if asset = NATIVE_TCY \<or> asset = NATIVE_RUJI \<or> asset = NATIVE_NAMI then Native
      else let upper = to_ascii_uppercase asset
           in if starts_with ''X/'' upper then Native
              else if CHR ''/'' \<in> set asset then Synth
              else if starts_with ''THOR.'' upper then Derived
              else if CHR ''.'' \<in> set asset then Native
              else if CHR ''~'' \<in> set asset then Trade
              else if CHR ''-'' \<in> set asset then Secure
              else Unknown)"

section \<open>Parsed names\<close>

record asset =
  a_chain :: string
  a_ticker :: string
  a_symbol :: string
  a_synth :: bool
  a_trade :: bool

definition asset_parse :: "string \<Rightarrow> asset" where
  "asset_parse s =
     (let (parts, synth, trade) =
            (if CHR ''/'' \<in> set s then (splitn2 CHR ''/'' s, True, False)
             else if CHR ''~'' \<in> set s then (splitn2 CHR ''~'' s, False, True)
             else (splitn2 CHR ''.'' s, False, False));
          (chn, symb) =
            (case parts of
               [only] \<Rightarrow> (''THOR'', only)
             | [chn, symb] \<Rightarrow> (to_ascii_uppercase chn, symb)
             | _ \<Rightarrow> undefined);
          symbol = to_ascii_uppercase symb;
          ticker = unwrap_or '''' (case split_on CHR ''-'' symbol of [] \<Rightarrow> None | t # _ \<Rightarrow> Some t)
      in \<lparr>a_chain = chn, a_ticker = ticker, a_symbol = symbol, a_synth = synth, a_trade = trade\<rparr>)"

definition is_native_chain :: "asset \<Rightarrow> bool" where
  "is_native_chain a \<longleftrightarrow> a_chain a = ''THOR''"

definition asset_display :: "asset \<Rightarrow> string" where
  "asset_display a =
     a_chain a @ (if a_synth a then ''/'' else if a_trade a then ''~'' else ''.'') @ a_symbol a"

definition native_pool_to_synth :: "string \<Rightarrow> string" where
  "native_pool_to_synth pool = replacen1 (\<lambda>c. c = CHR ''.'') ''/'' pool"

definition synth_pool_to_native :: "string \<Rightarrow> string" where
  "synth_pool_to_native pool = replacen1 (\<lambda>c. c = CHR ''/'') ''.'' pool"

section \<open>Lemmas\<close>

text \<open>The branch of \<open>asset_parse\<close> marked \<open>unreachable!\<close> is: \<open>splitn\<close> gives one or two parts.\<close>

lemma splitn2_length: "length (splitn2 d s) = 1 \<or> length (splitn2 d s) = 2"
  by (cases rule: splitn2_cases [of d s]) auto

text \<open>The parsed asset of a name with the separator \<open>d\<close> after the chain.\<close>

definition mk_asset :: "string \<Rightarrow> string \<Rightarrow> bool \<Rightarrow> bool \<Rightarrow> asset" where
  "mk_asset chn symbol synth trade =
     \<lparr>a_chain = chn, a_ticker = hd (split_on CHR ''-'' symbol), a_symbol = symbol,
      a_synth = synth, a_trade = trade\<rparr>"

lemma split_on_not_Nil [simp]: "split_on d s \<noteq> []"
  by (induction s) (auto split: list.splits)

lemma ticker_hd: "unwrap_or x (case split_on d s of [] \<Rightarrow> None | t # _ \<Rightarrow> Some t) = hd (split_on d s)"
  by (cases "split_on d s") auto

lemma asset_parse_synth:
  "CHR ''/'' \<notin> set c \<Longrightarrow>
   asset_parse (c @ CHR ''/'' # s) = mk_asset (to_ascii_uppercase c) (to_ascii_uppercase s) True False"
  by (simp add: asset_parse_def splitn2_pair ticker_hd mk_asset_def Let_def)

lemma asset_parse_trade:
  "CHR ''/'' \<notin> set c \<Longrightarrow> CHR ''/'' \<notin> set s \<Longrightarrow> CHR ''~'' \<notin> set c \<Longrightarrow>
   asset_parse (c @ CHR ''~'' # s) = mk_asset (to_ascii_uppercase c) (to_ascii_uppercase s) False True"
  by (simp add: asset_parse_def splitn2_pair ticker_hd mk_asset_def Let_def)

lemma asset_parse_native:
  "CHR ''/'' \<notin> set (c @ s) \<Longrightarrow> CHR ''~'' \<notin> set (c @ s) \<Longrightarrow> CHR ''.'' \<notin> set c \<Longrightarrow>
   asset_parse (c @ CHR ''.'' # s) = mk_asset (to_ascii_uppercase c) (to_ascii_uppercase s) False False"
  by (simp add: asset_parse_def splitn2_pair ticker_hd mk_asset_def Let_def)

lemma asset_parse_bare:
  "CHR ''/'' \<notin> set s \<Longrightarrow> CHR ''~'' \<notin> set s \<Longrightarrow> CHR ''.'' \<notin> set s \<Longrightarrow>
   asset_parse s = mk_asset ''THOR'' (to_ascii_uppercase s) False False"
  by (simp add: asset_parse_def splitn2_single ticker_hd mk_asset_def Let_def)

text \<open>Every name falls in exactly one of the four shapes.\<close>

lemma asset_shape_cases:
  obtains (synth) c r where "s = c @ CHR ''/'' # r" "CHR ''/'' \<notin> set c"
  | (trade) c r where "s = c @ CHR ''~'' # r" "CHR ''/'' \<notin> set c" "CHR ''/'' \<notin> set r" "CHR ''~'' \<notin> set c"
  | (native) c r where "s = c @ CHR ''.'' # r" "CHR ''/'' \<notin> set (c @ r)" "CHR ''~'' \<notin> set (c @ r)" "CHR ''.'' \<notin> set c"
  | (bare) "CHR ''/'' \<notin> set s" "CHR ''~'' \<notin> set s" "CHR ''.'' \<notin> set s"
proof -
  have first: "\<exists>a b. s = a @ d # b \<and> d \<notin> set a" if "d \<in> set s" for d
    using that by (rule split_list_first)
  consider "CHR ''/'' \<in> set s" | "CHR ''/'' \<notin> set s" "CHR ''~'' \<in> set s"
    | "CHR ''/'' \<notin> set s" "CHR ''~'' \<notin> set s" "CHR ''.'' \<in> set s"
    | "CHR ''/'' \<notin> set s" "CHR ''~'' \<notin> set s" "CHR ''.'' \<notin> set s"
    by blast
  then show thesis
  proof cases
    case 1
    from first [OF this] show thesis using synth by blast
  next
    case 2
    from first [OF 2(2)] 2(1) show thesis using trade by auto
  next
    case 3
    from first [OF 3(3)] 3(1,2) show thesis using native by auto
  next
    case 4
    then show thesis using bare by blast
  qed
qed

lemma asset_display_mk [simp]:
  "asset_display (mk_asset c s True t) = c @ CHR ''/'' # s"
  "asset_display (mk_asset c s False True) = c @ CHR ''~'' # s"
  "asset_display (mk_asset c s False False) = c @ CHR ''.'' # s"
  by (simp_all add: asset_display_def mk_asset_def)

lemma thor_upper [simp]: "to_ascii_uppercase ''THOR'' = ''THOR''"
  by code_simp

lemma parse_display_parse: "asset_parse (asset_display (asset_parse s)) = asset_parse s"
proof (cases rule: asset_shape_cases [of s])
  case (synth c r)
  then show ?thesis by (simp add: asset_parse_synth)
next
  case (trade c r)
  then show ?thesis by (simp add: asset_parse_trade)
next
  case (native c r)
  then show ?thesis by (simp add: asset_parse_native)
next
  case bare
  then have "asset_parse (''THOR'' @ CHR ''.'' # to_ascii_uppercase s)
      = mk_asset ''THOR'' (to_ascii_uppercase s) False False"
    by (subst asset_parse_native) auto
  with bare show ?thesis by (simp add: asset_parse_bare)
qed

text \<open>Printing is the identity on an upper-case name with a separator.\<close>

lemma display_parse_id:
  assumes "to_ascii_uppercase s = s"
    and "CHR ''/'' \<in> set s \<or> CHR ''~'' \<in> set s \<or> CHR ''.'' \<in> set s"
  shows "asset_display (asset_parse s) = s"
proof -
  have up: "to_ascii_uppercase a = a \<and> to_ascii_uppercase b = b" if "s = a @ d # b" for a b d
    using assms(1) that by (simp add: to_ascii_uppercase_def)
  show ?thesis
  proof (cases rule: asset_shape_cases [of s])
    case (synth c r)
    with up show ?thesis by (simp add: asset_parse_synth)
  next
    case (trade c r)
    with up show ?thesis by (simp add: asset_parse_trade)
  next
    case (native c r)
    with up show ?thesis by (simp add: asset_parse_native)
  next
    case bare
    with assms(2) show ?thesis by simp
  qed
qed

lemma pool_synth_native:
  assumes "CHR ''/'' \<notin> set p"
  shows "synth_pool_to_native (native_pool_to_synth p) = p"
proof (cases "CHR ''.'' \<in> set p")
  case True
  then obtain a b where ab: "p = a @ CHR ''.'' # b" "CHR ''.'' \<notin> set a" by (meson split_list_first)
  then have "native_pool_to_synth p = a @ ''/'' @ b"
    unfolding native_pool_to_synth_def by (subst ab(1), subst replacen1_first) auto
  moreover have "replacen1 (\<lambda>c. c = CHR ''/'') ''.'' (a @ CHR ''/'' # b) = a @ ''.'' @ b"
    by (rule replacen1_first) (use assms ab in auto)
  ultimately show ?thesis using ab by (simp add: synth_pool_to_native_def)
next
  case False
  then have "native_pool_to_synth p = p" unfolding native_pool_to_synth_def by (intro replacen1_none) auto
  moreover have "synth_pool_to_native p = p" unfolding synth_pool_to_native_def
    using assms by (intro replacen1_none) auto
  ultimately show ?thesis by simp
qed

lemma rune_coin_type: "coin_type_of a = Rune \<longleftrightarrow> is_rune a"
  by (auto simp: coin_type_of_def Let_def)

lemma synth_coin_type: "coin_type_of a = Synth \<Longrightarrow> CHR ''/'' \<in> set a"
  by (auto simp: coin_type_of_def Let_def split: if_splits)

end
