(* ===== verification/Coins.thy ===== *)
theory Coins
  imports Assets
begin

text \<open>
  \<open>crates/midgard-record/src/coin.rs\<close>: THORChain's coin strings \<open>"<e8> <ASSET>"\<close> and
  the Cosmos SDK's \<open>"<amount><denom>"\<close>, single and in comma-separated lists. The lemmas
  give the exact inputs each parser accepts, printing round trips for both dialects, and that the
  dialects are disjoint.
\<close>

record coin =
  c_asset :: string
  c_amount_e8 :: i64

definition coin_is_rune :: "coin \<Rightarrow> bool" where
  "coin_is_rune c \<longleftrightarrow> is_rune (c_asset c)"

definition default_coin :: coin where
  "default_coin = \<lparr>c_asset = '''', c_amount_e8 = 0\<rparr>"

datatype coin_error = Shape string | Amount string

definition parse_coin :: "string \<Rightarrow> coin_error + coin" where
  "parse_coin s0 =
     (let s = trim s0 in
      bindE (ok_or (Shape s) (split_once is_ws s)) (\<lambda>(amount, rest).
      let asset = trim rest in
      if asset = [] then Inl (Shape s)
      else bindE (ok_or (Amount s) (parse_i64 (trim amount))) (\<lambda>amount_e8.
        Inr \<lparr>c_asset = asset, c_amount_e8 = amount_e8\<rparr>)))"

text \<open>The pieces of a list: split on commas, trimmed, the empty ones dropped.\<close>

definition list_parts :: "string \<Rightarrow> string list" where
  "list_parts s = filter (\<lambda>p. p \<noteq> []) (map trim (split_on CHR '','' s))"

definition parse_coins :: "string \<Rightarrow> coin_error + coin list" where
  "parse_coins s0 = (let s = trim s0 in if s = [] then Inr [] else collectE parse_coin (list_parts s))"

definition parse_cosmos_coin :: "string \<Rightarrow> coin_error + coin" where
  "parse_cosmos_coin s0 =
     (let s = trim s0 in
      if s = [] then Inl (Shape s)
      else
        let num = takeWhile is_digit s; denom = dropWhile is_digit s in
        if denom = [] then Inl (Shape s)
        else if num = [] then Inl (Amount s)
        else bindE (ok_or (Amount s) (parse_i64 num)) (\<lambda>amount_e8.
          if denom = [] \<or> list_ex is_ws denom then Inl (Shape s)
          else
            let asset = (if denom = ''rune'' then NATIVE_RUNE else to_ascii_uppercase denom)
            in Inr \<lparr>c_asset = asset, c_amount_e8 = amount_e8\<rparr>))"

definition parse_cosmos_coins :: "string \<Rightarrow> coin_error + coin list" where
  "parse_cosmos_coins s0 =
     (let s = trim s0 in if s = [] then Inr [] else collectE parse_cosmos_coin (list_parts s))"

definition split_rune :: "coin list \<Rightarrow> i64 \<times> coin option" where
  "split_rune coins =
     (sum64 (map c_amount_e8 (filter coin_is_rune coins)),
      List.find (\<lambda>c. \<not> coin_is_rune c) coins)"

section \<open>What the parsers accept\<close>

text \<open>Printing, as the chain writes them.\<close>

definition show_coin :: "coin \<Rightarrow> string" where
  "show_coin c = int_to_string (c_amount_e8 c) @ CHR '' '' # c_asset c"

definition wf_asset_name :: "string \<Rightarrow> bool" where
  "wf_asset_name a \<longleftrightarrow> a \<noteq> [] \<and> ws_free a \<and> CHR '','' \<notin> set a"

lemma ws_space [simp]: "is_ws CHR '' ''"
  by (simp add: is_ws_def)

lemma comma_not_ws [simp]: "\<not> is_ws CHR '',''"
  by (simp add: is_ws_def)

lemma ws_free_Cons: "ws_free (c # s) \<longleftrightarrow> \<not> is_ws c \<and> ws_free s"
  by (simp add: ws_free_def)

lemma ws_free_append [simp]: "ws_free (a @ b) \<longleftrightarrow> ws_free a \<and> ws_free b"
  by (auto simp: ws_free_def)

lemma ws_free_hd_last: "ws_free s \<Longrightarrow> s \<noteq> [] \<Longrightarrow> \<not> is_ws (hd s) \<and> \<not> is_ws (last s)"
  by (simp add: ws_free_def)

lemma trim_two_words:
  assumes "ws_free a" "a \<noteq> []" "ws_free b" "b \<noteq> []"
  shows "trim (a @ CHR '' '' # b) = a @ CHR '' '' # b"
  using assms ws_free_hd_last [of a] ws_free_hd_last [of b] by (intro trim_solid) auto

lemma split_once_two_words: "ws_free a \<Longrightarrow> split_once is_ws (a @ CHR '' '' # b) = Some (a, b)"
  by (subst split_once_Some) (auto simp: ws_free_def)

lemma parse_coin_words:
  assumes "ws_free a" "a \<noteq> []" "ws_free b" "b \<noteq> []"
  shows "parse_coin (a @ CHR '' '' # b) =
    (case parse_i64 a of None \<Rightarrow> Inl (Amount (a @ CHR '' '' # b))
     | Some n \<Rightarrow> Inr \<lparr>c_asset = b, c_amount_e8 = n\<rparr>)"
  using assms
  by (simp add: parse_coin_def trim_two_words split_once_two_words Let_def split: option.splits)

lemma parse_show_coin:
  assumes "wf_asset_name (c_asset c)" "i64_ok (c_amount_e8 c)"
  shows "parse_coin (show_coin c) = Inr c"
  using assms parse_coin_words [of "int_to_string (c_amount_e8 c)" "c_asset c"]
  by (simp add: show_coin_def wf_asset_name_def int_to_string_ws_free parse_int_to_string)

lemma parse_coin_Inr_ok: "parse_coin s = Inr c \<Longrightarrow> i64_ok (c_amount_e8 c) \<and> c_asset c \<noteq> []"
  by (auto simp: parse_coin_def Let_def bindE_eq_Inr parse_i64_ok split: if_splits)

lemma parse_cosmos_coin_Inr_ok: "parse_cosmos_coin s = Inr c \<Longrightarrow> i64_ok (c_amount_e8 c) \<and> c_asset c \<noteq> []"
  by (auto simp: parse_cosmos_coin_def Let_def bindE_eq_Inr parse_i64_ok NATIVE_RUNE_def
      to_ascii_uppercase_def split: if_splits)

section \<open>The dialects are disjoint\<close>

lemma parse_coin_has_ws: "parse_coin s = Inr c \<Longrightarrow> list_ex is_ws (trim s)"
  by (auto simp: parse_coin_def Let_def bindE_eq_Inr split_once_Some split: if_splits)

lemma parse_cosmos_coin_no_ws:
  assumes "parse_cosmos_coin s = Inr c"
  shows "\<not> list_ex is_ws (trim s)"
proof -
  have "\<not> list_ex is_ws (dropWhile is_digit (trim s))"
    using assms by (auto simp: parse_cosmos_coin_def Let_def bindE_eq_Inr split: if_splits)
  moreover have "\<not> list_ex is_ws (takeWhile is_digit (trim s))"
    by (auto simp: list_ex_iff dest!: set_takeWhileD digit_not_ws)
  ultimately have "\<not> list_ex is_ws (takeWhile is_digit (trim s) @ dropWhile is_digit (trim s))"
    by (simp add: list_ex_append del: takeWhile_dropWhile_id)
  then show ?thesis by simp
qed

lemma dialects_disjoint: "parse_coin s = Inr c \<Longrightarrow> parse_cosmos_coin s \<noteq> Inr d"
  using parse_coin_has_ws parse_cosmos_coin_no_ws by blast

section \<open>Lists\<close>

lemma list_parts_join:
  assumes "xs \<noteq> []" "\<And>x. x \<in> set xs \<Longrightarrow> x \<noteq> [] \<and> trim x = x \<and> CHR '','' \<notin> set x"
  shows "list_parts (join '','' xs) = xs"
proof -
  have "split_on CHR '','' (join '','' xs) = xs"
    by (rule split_on_join) (use assms in auto)
  moreover have "map trim xs = xs" "filter (\<lambda>p. p \<noteq> []) xs = xs"
    using assms(2) by (auto simp: map_idI filter_id_conv)
  ultimately show ?thesis by (simp add: list_parts_def)
qed

lemma join_solid:
  assumes "xs \<noteq> []" "\<And>x. x \<in> set xs \<Longrightarrow> x \<noteq> [] \<and> \<not> is_ws (hd x) \<and> \<not> is_ws (last x)"
  shows "join [d] xs \<noteq> [] \<and> \<not> is_ws (hd (join [d] xs)) \<and> \<not> is_ws (last (join [d] xs))"
  using assms
  by (induction "[d]" xs rule: join.induct) (auto simp: last_append split: if_splits)

lemma show_coin_solid:
  assumes "wf_asset_name (c_asset c)"
  shows "show_coin c \<noteq> []" "\<not> is_ws (hd (show_coin c))" "\<not> is_ws (last (show_coin c))"
    "trim (show_coin c) = show_coin c" "CHR '','' \<notin> set (show_coin c)"
proof -
  let ?n = "int_to_string (c_amount_e8 c)"
  have n: "?n \<noteq> []" "ws_free ?n" by (simp_all add: int_to_string_ws_free)
  have a: "c_asset c \<noteq> []" "ws_free (c_asset c)" "CHR '','' \<notin> set (c_asset c)"
    using assms by (auto simp: wf_asset_name_def)
  have "CHR '','' \<notin> set (nat_str m)" if "0 \<le> m" for m
    using nat_str_digits [OF that] by (fastforce simp: list_all_iff is_digit_def)
  then have "CHR '','' \<notin> set ?n" by (simp add: int_to_string_def)
  with a show "CHR '','' \<notin> set (show_coin c)" by (simp add: show_coin_def)
  show "show_coin c \<noteq> []" "\<not> is_ws (hd (show_coin c))" "\<not> is_ws (last (show_coin c))"
    "trim (show_coin c) = show_coin c"
    using n a ws_free_hd_last trim_two_words by (auto simp: show_coin_def)
qed

lemma parse_show_coins:
  assumes "\<And>c. c \<in> set cs \<Longrightarrow> wf_asset_name (c_asset c) \<and> i64_ok (c_amount_e8 c)"
  shows "parse_coins (join '','' (map show_coin cs)) = Inr cs"
proof (cases "cs = []")
  case True
  then show ?thesis by (simp add: parse_coins_def trim_def)
next
  case False
  let ?j = "join '','' (map show_coin cs)"
  have solid: "?j \<noteq> [] \<and> \<not> is_ws (hd ?j) \<and> \<not> is_ws (last ?j)"
    using False assms show_coin_solid(1-3) by (intro join_solid) auto
  have "list_parts ?j = map show_coin cs"
    using False assms show_coin_solid by (intro list_parts_join) auto
  moreover have "collectE parse_coin (map show_coin cs) = Inr cs"
    using assms parse_show_coin by (simp add: collectE_eq_Inr list_all2_conv_all_nth)
  ultimately show ?thesis using solid by (simp add: parse_coins_def trim_solid)
qed

section \<open>The split of a deposit\<close>

lemma split_rune_asset: "snd (split_rune coins) = Some c \<Longrightarrow> c \<in> set coins \<and> \<not> coin_is_rune c"
  by (auto simp: split_rune_def find_Some_iff)

lemma split_rune_none: "snd (split_rune coins) = None \<longleftrightarrow> (\<forall>c\<in>set coins. coin_is_rune c)"
  by (auto simp: split_rune_def find_None_iff)

end
