(* ===== verification/Events.thy ===== *)
theory Events
  imports Coins F64 Chain_Types
begin

text \<open>
  \<open>crates/midgard-record/src/events.rs\<close>: one record per event table and one decoder per event
  type. Errors are values of \<open>decode_error\<close>. The dispatch on the type and the lemmas are in
  \<open>Decoding\<close>.
\<close>

datatype decode_error =
    Missing string string
  | NotANumber string string string
  | CoinErr string coin_error

section \<open>Direction of a swap\<close>

datatype direction =
    RuneToAsset | AssetToRune | RuneToSynth | SynthToRune
  | RuneToTrade | TradeToRune | RuneToSecure | SecureToRune

definition classify :: "string \<Rightarrow> string \<Rightarrow> direction option" where
  "classify from_a to_a = (case (coin_type_of from_a, coin_type_of to_a) of
     (Rune, Synth) \<Rightarrow> Some RuneToSynth
   | (Synth, Rune) \<Rightarrow> Some SynthToRune
   | (Rune, Trade) \<Rightarrow> Some RuneToTrade
   | (Trade, Rune) \<Rightarrow> Some TradeToRune
   | (Rune, Secure) \<Rightarrow> Some RuneToSecure
   | (Secure, Rune) \<Rightarrow> Some SecureToRune
   | (Rune, Native) \<Rightarrow> Some RuneToAsset
   | (Rune, Derived) \<Rightarrow> Some RuneToAsset
   | (Native, Rune) \<Rightarrow> Some AssetToRune
   | (Derived, Rune) \<Rightarrow> Some AssetToRune
   | _ \<Rightarrow> None)"

fun as_i16 :: "direction \<Rightarrow> int" where
  "as_i16 RuneToAsset = 0"
| "as_i16 AssetToRune = 1"
| "as_i16 RuneToSynth = 2"
| "as_i16 SynthToRune = 3"
| "as_i16 RuneToTrade = 4"
| "as_i16 TradeToRune = 5"
| "as_i16 RuneToSecure = 6"
| "as_i16 SecureToRune = 7"

definition is_from_rune :: "direction \<Rightarrow> bool" where
  "is_from_rune d = (case d of RuneToAsset \<Rightarrow> True | RuneToSynth \<Rightarrow> True | RuneToTrade \<Rightarrow> True
     | RuneToSecure \<Rightarrow> True | _ \<Rightarrow> False)"

section \<open>The rows\<close>

record swap =
  sw_tx :: string
  sw_chain :: string
  sw_from_addr :: string
  sw_to_addr :: string
  sw_from_asset :: string
  sw_from_e8 :: i64
  sw_to_asset :: string
  sw_to_e8 :: i64
  sw_memo :: string
  sw_pool :: string
  sw_to_e8_min :: i64
  sw_swap_slip_bp :: i64
  sw_liq_fee_e8 :: i64
  sw_liq_fee_in_rune_e8 :: i64
  sw_direction :: int
  sw_streaming :: bool
  sw_streaming_count :: i64
  sw_streaming_quantity :: i64

record stake =
  st_pool :: string
  st_asset_tx :: "string option"
  st_asset_chain :: "string option"
  st_asset_addr :: "string option"
  st_asset_e8 :: i64
  st_stake_units :: i64
  st_rune_tx :: "string option"
  st_rune_addr :: "string option"
  st_rune_e8 :: i64
  st_asset_in_rune_e8 :: i64
  st_memo :: "string option"

record withdraw =
  wd_tx :: string
  wd_chain :: string
  wd_from_addr :: string
  wd_to_addr :: string
  wd_asset :: string
  wd_asset_e8 :: i64
  wd_emit_asset_e8 :: i64
  wd_emit_rune_e8 :: i64
  wd_memo :: string
  wd_pool :: string
  wd_stake_units :: i64
  wd_basis_points :: i64
  wd_asymmetry :: f64
  wd_imp_loss_protection_e8 :: i64
  wd_emit_asset_in_rune_e8 :: i64

record pool_status =
  ps_asset :: string
  ps_status :: string

record fee =
  fe_tx :: string
  fe_asset :: string
  fe_asset_e8 :: i64
  fe_pool_deduct :: i64

record gas =
  ga_asset :: string
  ga_asset_e8 :: i64
  ga_rune_e8 :: i64
  ga_tx_count :: i64

record rewards =
  rw_bond_e8 :: i64
  rw_per_pool :: "(string \<times> i64) list"

record outbound =
  ob_tx :: "string option"
  ob_chain :: string
  ob_from_addr :: string
  ob_to_addr :: string
  ob_asset :: string
  ob_asset_e8 :: i64
  ob_memo :: string
  ob_in_tx :: string

record refund =
  rf_tx :: string
  rf_chain :: string
  rf_from_addr :: string
  rf_to_addr :: string
  rf_asset :: string
  rf_asset_e8 :: i64
  rf_asset_2nd :: "string option"
  rf_asset_2nd_e8 :: i64
  rf_memo :: "string option"
  rf_code :: i64
  rf_reason :: string

record add =
  ad_tx :: string
  ad_chain :: string
  ad_from_addr :: string
  ad_to_addr :: string
  ad_asset :: "string option"
  ad_asset_e8 :: i64
  ad_memo :: string
  ad_rune_e8 :: i64
  ad_pool :: string

record transfer =
  tr_from_addr :: string
  tr_to_addr :: string
  tr_asset :: string
  tr_amount_e8 :: i64

record bond =
  bo_tx :: string
  bo_chain :: "string option"
  bo_from_addr :: "string option"
  bo_to_addr :: "string option"
  bo_asset :: "string option"
  bo_asset_e8 :: i64
  bo_memo :: "string option"
  bo_bond_type :: string
  bo_e8 :: i64

record pending_liquidity =
  pl_pool :: string
  pl_asset_tx :: "string option"
  pl_asset_chain :: "string option"
  pl_asset_addr :: "string option"
  pl_asset_e8 :: i64
  pl_rune_tx :: "string option"
  pl_rune_addr :: "string option"
  pl_rune_e8 :: i64
  pl_pending_type :: string

record errata =
  er_in_tx :: string
  er_asset :: string
  er_asset_e8 :: i64
  er_rune_e8 :: i64

record set_mimir =
  mi_key :: string
  mi_value :: string

record mint_burn =
  mb_asset :: string
  mb_asset_e8 :: i64
  mb_supply :: string
  mb_reason :: string

record pool_balance_change =
  pb_asset :: string
  pb_rune_amt :: i64
  pb_rune_add :: bool
  pb_asset_amt :: i64
  pb_asset_add :: bool
  pb_reason :: string

record slash =
  sl_pool :: string
  sl_asset :: string
  sl_asset_e8 :: i64

record switch =
  sh_tx :: "string option"
  sh_from_addr :: string
  sh_to_addr :: string
  sh_burn_asset :: string
  sh_mint_asset :: string
  sh_burn_e8 :: i64
  sh_mint_e8 :: i64

record vault_change =
  vc_add_asgard_addr :: string

record node_status =
  ns_node_addr :: string
  ns_former :: string
  ns_current :: string

datatype recorded =
    Swap swap
  | Stake stake
  | Withdraw withdraw
  | Pool pool_status
  | Fee fee
  | Gas gas
  | Rewards rewards
  | Outbound outbound
  | Refund refund
  | Add add
  | Transfer transfer
  | Bond bond
  | PendingLiquidity pending_liquidity
  | Errata errata
  | SetMimir set_mimir
  | MintBurn mint_burn
  | PoolBalanceChange pool_balance_change
  | Slash slash
  | Switch switch
  | ActiveVault vault_change
  | InactiveVault vault_change
  | NodeStatus node_status

datatype decoded = Event recorded | Events "recorded list" | Ignored | Unknown

section \<open>Attribute helpers\<close>

definition required :: "event \<Rightarrow> string \<Rightarrow> string \<Rightarrow> decode_error + string" where
  "required e kind key = ok_or (Missing kind key) (attr e key)"

definition optional :: "event \<Rightarrow> string \<Rightarrow> string option" where
  "optional e key = (case attr e key of None \<Rightarrow> None | Some v \<Rightarrow> if v = [] then None else Some v)"

definition text_attr :: "event \<Rightarrow> string \<Rightarrow> string" where
  "text_attr e key = unwrap_or [] (attr e key)"

definition int_attr :: "event \<Rightarrow> string \<Rightarrow> string \<Rightarrow> decode_error + i64" where
  "int_attr e kind key = (case attr e key of
     None \<Rightarrow> Inr 0
   | Some v \<Rightarrow> if v = [] then Inr 0 else ok_or (NotANumber kind key v) (parse_i64 v))"

definition float_attr :: "event \<Rightarrow> string \<Rightarrow> string \<Rightarrow> decode_error + f64" where
  "float_attr e kind key = (case attr e key of
     None \<Rightarrow> Inr (Zero False)
   | Some v \<Rightarrow> if v = [] then Inr (Zero False) else ok_or (NotANumber kind key v) (parse_f64 v))"

definition coin_of :: "event \<Rightarrow> string \<Rightarrow> string \<Rightarrow> decode_error + coin" where
  "coin_of e kind key =
     bindE (required e kind key) (\<lambda>raw. map_err (CoinErr kind) (parse_coin raw))"

section \<open>One decoder per type\<close>

definition swap_event :: "event \<Rightarrow> decode_error + swap" where
  "swap_event e = (let K = ''swap'' in
     bindE (coin_of e K ''coin'') (\<lambda>from_c.
     bindE (coin_of e K ''emit_asset'') (\<lambda>to_c.
     let dir = unwrap_or (as_i16 RuneToAsset)
                 (map_option as_i16 (classify (c_asset from_c) (c_asset to_c))) in
     bindE (int_attr e K ''streaming_swap_quantity'') (\<lambda>q. let quantity = max q 1 in
     bindE (int_attr e K ''streaming_swap_count'') (\<lambda>c. let count = max c 1 in
     bindE (required e K ''pool'') (\<lambda>pool.
     bindE (int_attr e K ''swap_target'') (\<lambda>target.
     bindE (int_attr e K ''swap_slip'') (\<lambda>slip.
     bindE (int_attr e K ''liquidity_fee'') (\<lambda>liq_fee.
     bindE (int_attr e K ''liquidity_fee_in_rune'') (\<lambda>liq_fee_in_rune.
     Inr \<lparr>sw_tx = text_attr e ''id'', sw_chain = text_attr e ''chain'',
          sw_from_addr = text_attr e ''from'', sw_to_addr = text_attr e ''to'',
          sw_from_asset = c_asset from_c, sw_from_e8 = c_amount_e8 from_c,
          sw_to_asset = c_asset to_c, sw_to_e8 = c_amount_e8 to_c,
          sw_memo = text_attr e ''memo'', sw_pool = pool, sw_to_e8_min = target,
          sw_swap_slip_bp = slip, sw_liq_fee_e8 = liq_fee,
          sw_liq_fee_in_rune_e8 = liq_fee_in_rune, sw_direction = dir,
          sw_streaming = (1 < quantity), sw_streaming_count = count,
          sw_streaming_quantity = quantity\<rparr>))))))))))"

definition stake_event :: "event \<Rightarrow> decode_error + stake" where
  "stake_event e = (let K = ''add_liquidity'' in
     bindE (required e K ''pool'') (\<lambda>pool.
     bindE (int_attr e K ''asset_amount'') (\<lambda>asset_e8.
     bindE (case attr e ''liquidity_provider_units'' of
              Some _ \<Rightarrow> int_attr e K ''liquidity_provider_units''
            | None \<Rightarrow> int_attr e K ''stake_units'') (\<lambda>units.
     bindE (int_attr e K ''rune_amount'') (\<lambda>rune_e8.
     Inr \<lparr>st_pool = pool, st_asset_tx = optional e ''asset_tx_id'',
          st_asset_chain = optional e ''asset_chain'', st_asset_addr = optional e ''asset_address'',
          st_asset_e8 = asset_e8, st_stake_units = units, st_rune_tx = optional e ''rune_tx_id'',
          st_rune_addr = optional e ''rune_address'', st_rune_e8 = rune_e8,
          st_asset_in_rune_e8 = 0, st_memo = optional e ''memo''\<rparr>)))))"

definition withdraw_event :: "event \<Rightarrow> decode_error + withdraw" where
  "withdraw_event e = (let K = ''withdraw'' in
     bindE (coin_of e K ''coin'') (\<lambda>coin.
     bindE (int_attr e K ''emit_asset'') (\<lambda>emit_asset.
     bindE (int_attr e K ''emit_rune'') (\<lambda>emit_rune.
     bindE (required e K ''pool'') (\<lambda>pool.
     bindE (int_attr e K ''liquidity_provider_units'') (\<lambda>units.
     bindE (int_attr e K ''basis_points'') (\<lambda>bp.
     bindE (float_attr e K ''asymmetry'') (\<lambda>asym.
     bindE (int_attr e K ''imp_loss_protection'') (\<lambda>ilp.
     Inr \<lparr>wd_tx = text_attr e ''id'', wd_chain = text_attr e ''chain'',
          wd_from_addr = text_attr e ''from'', wd_to_addr = text_attr e ''to'',
          wd_asset = c_asset coin, wd_asset_e8 = c_amount_e8 coin,
          wd_emit_asset_e8 = emit_asset, wd_emit_rune_e8 = emit_rune,
          wd_memo = text_attr e ''memo'', wd_pool = pool, wd_stake_units = units,
          wd_basis_points = bp, wd_asymmetry = asym, wd_imp_loss_protection_e8 = ilp,
          wd_emit_asset_in_rune_e8 = 0\<rparr>)))))))))"

definition pool_status_event :: "event \<Rightarrow> decode_error + pool_status" where
  "pool_status_event e = (let K = ''pool'' in
     bindE (required e K ''pool'') (\<lambda>pool.
     bindE (required e K ''pool_status'') (\<lambda>status.
     Inr \<lparr>ps_asset = pool, ps_status = to_ascii_lowercase status\<rparr>)))"

definition fee_event :: "event \<Rightarrow> decode_error + fee" where
  "fee_event e = (let K = ''fee'' in
     bindE (coin_of e K ''coins'') (\<lambda>coin.
     bindE (int_attr e K ''pool_deduct'') (\<lambda>deduct.
     Inr \<lparr>fe_tx = text_attr e ''tx_id'', fe_asset = c_asset coin, fe_asset_e8 = c_amount_e8 coin,
          fe_pool_deduct = deduct\<rparr>)))"

text \<open>The coin, or the older form with the name and the amount apart.\<close>

definition gas_event :: "event \<Rightarrow> decode_error + gas" where
  "gas_event e = (let K = ''gas'' in
     bindE (case coin_of e K ''asset'' of
              Inr c \<Rightarrow> Inr c
            | Inl _ \<Rightarrow> bindE (int_attr e K ''asset_amt'') (\<lambda>n.
                Inr \<lparr>c_asset = text_attr e ''asset'', c_amount_e8 = n\<rparr>)) (\<lambda>coin.
     bindE (int_attr e K ''rune_amt'') (\<lambda>rune.
     bindE (int_attr e K ''transaction_count'') (\<lambda>count.
     Inr \<lparr>ga_asset = c_asset coin, ga_asset_e8 = c_amount_e8 coin, ga_rune_e8 = rune,
          ga_tx_count = count\<rparr>))))"

text \<open>Every attribute but the two known ones is a pool and its amount; the others are skipped.\<close>

fun rewards_per_pool :: "(string \<times> string) list \<Rightarrow> (string \<times> i64) list" where
  "rewards_per_pool [] = []"
| "rewards_per_pool ((key, value) # kvs) =
     (if key = ''bond_reward'' \<or> key = ''mode'' then rewards_per_pool kvs
      else (case parse_i64 value of
              Some amount \<Rightarrow> (key, amount) # rewards_per_pool kvs
            | None \<Rightarrow> rewards_per_pool kvs))"

definition rewards_event :: "event \<Rightarrow> decode_error + rewards" where
  "rewards_event e = (let K = ''rewards''; per_pool = rewards_per_pool (attrs e) in
     bindE (int_attr e K ''bond_reward'') (\<lambda>bond_e8.
     Inr \<lparr>rw_bond_e8 = bond_e8, rw_per_pool = per_pool\<rparr>))"

definition outbound_event :: "event \<Rightarrow> decode_error + outbound" where
  "outbound_event e = (let K = ''outbound'' in
     bindE (coin_of e K ''coin'') (\<lambda>coin.
     bindE (required e K ''in_tx_id'') (\<lambda>in_tx.
     Inr \<lparr>ob_tx = optional e ''id'', ob_chain = text_attr e ''chain'',
          ob_from_addr = text_attr e ''from'', ob_to_addr = text_attr e ''to'',
          ob_asset = c_asset coin, ob_asset_e8 = c_amount_e8 coin,
          ob_memo = text_attr e ''memo'', ob_in_tx = in_tx\<rparr>)))"

definition refund_event :: "event \<Rightarrow> decode_error + refund" where
  "refund_event e = (let K = ''refund'' in
     bindE (map_err (CoinErr K) (parse_coins (text_attr e ''coin''))) (\<lambda>coins.
     let fst_c = (case coins of [] \<Rightarrow> default_coin | c # _ \<Rightarrow> c);
         snd_c = (case coins of _ # c # _ \<Rightarrow> Some c | _ \<Rightarrow> None) in
     bindE (int_attr e K ''code'') (\<lambda>code.
     Inr \<lparr>rf_tx = text_attr e ''id'', rf_chain = text_attr e ''chain'',
          rf_from_addr = text_attr e ''from'', rf_to_addr = text_attr e ''to'',
          rf_asset = c_asset fst_c, rf_asset_e8 = c_amount_e8 fst_c,
          rf_asset_2nd = map_option c_asset snd_c,
          rf_asset_2nd_e8 = unwrap_or 0 (map_option c_amount_e8 snd_c),
          rf_memo = optional e ''memo'', rf_code = code, rf_reason = text_attr e ''reason''\<rparr>)))"

definition donate_event :: "event \<Rightarrow> decode_error + add" where
  "donate_event e = (let K = ''donate'' in
     bindE (map_err (CoinErr K) (parse_coins (text_attr e ''coin''))) (\<lambda>coins.
     let (rune_e8, asset) = split_rune coins in
     bindE (required e K ''pool'') (\<lambda>pool.
     Inr \<lparr>ad_tx = text_attr e ''id'', ad_chain = text_attr e ''chain'',
          ad_from_addr = text_attr e ''from'', ad_to_addr = text_attr e ''to'',
          ad_asset = map_option c_asset asset,
          ad_asset_e8 = unwrap_or 0 (map_option c_amount_e8 asset),
          ad_memo = text_attr e ''memo'', ad_rune_e8 = rune_e8, ad_pool = pool\<rparr>)))"

definition transfer_event :: "event \<Rightarrow> decode_error + transfer list" where
  "transfer_event e = (let K = ''transfer'' in
     bindE (required e K ''amount'') (\<lambda>raw.
     bindE (map_err (CoinErr K) (parse_cosmos_coins raw)) (\<lambda>coins.
     let from_addr = text_attr e ''sender''; to_addr = text_attr e ''recipient'' in
     Inr (map (\<lambda>coin. \<lparr>tr_from_addr = from_addr, tr_to_addr = to_addr,
                       tr_asset = c_asset coin, tr_amount_e8 = c_amount_e8 coin\<rparr>) coins))))"

definition bond_event :: "event \<Rightarrow> decode_error + bond" where
  "bond_event e = (let K = ''bond''; coin = ok (coin_of e K ''coin'') in
     bindE (int_attr e K ''amount'') (\<lambda>e8.
     Inr \<lparr>bo_tx = text_attr e ''id'', bo_chain = optional e ''chain'',
          bo_from_addr = optional e ''from'', bo_to_addr = optional e ''to'',
          bo_asset = map_option c_asset coin,
          bo_asset_e8 = unwrap_or 0 (map_option c_amount_e8 coin),
          bo_memo = optional e ''memo'', bo_bond_type = text_attr e ''bond_type'', bo_e8 = e8\<rparr>))"

definition pending_liquidity_event :: "event \<Rightarrow> decode_error + pending_liquidity" where
  "pending_liquidity_event e = (let K = ''pending_liquidity'' in
     bindE (required e K ''pool'') (\<lambda>pool.
     bindE (int_attr e K ''asset_amount'') (\<lambda>asset_e8.
     bindE (int_attr e K ''rune_amount'') (\<lambda>rune_e8.
     Inr \<lparr>pl_pool = pool, pl_asset_tx = optional e ''asset_tx_id'',
          pl_asset_chain = optional e ''asset_chain'', pl_asset_addr = optional e ''asset_address'',
          pl_asset_e8 = asset_e8, pl_rune_tx = optional e ''rune_tx_id'',
          pl_rune_addr = optional e ''rune_address'', pl_rune_e8 = rune_e8,
          pl_pending_type = text_attr e ''type''\<rparr>))))"

definition errata_event :: "event \<Rightarrow> decode_error + errata" where
  "errata_event e = (let K = ''errata'' in
     bindE (int_attr e K ''rune_amt'') (\<lambda>rune.
     bindE (int_attr e K ''asset_amt'') (\<lambda>asset.
     let signed_by = (\<lambda>v flag. if attr e flag = Some ''false'' then wrap64 (- v) else v) in
     Inr \<lparr>er_in_tx = text_attr e ''in_tx_id'', er_asset = text_attr e ''asset'',
          er_asset_e8 = signed_by asset ''asset_add'', er_rune_e8 = signed_by rune ''rune_add''\<rparr>)))"

definition set_mimir_event :: "event \<Rightarrow> decode_error + set_mimir" where
  "set_mimir_event e = (let K = ''set_mimir'' in
     bindE (required e K ''key'') (\<lambda>key.
     Inr \<lparr>mi_key = key, mi_value = text_attr e ''value''\<rparr>))"

definition mint_burn_event :: "event \<Rightarrow> decode_error + mint_burn" where
  "mint_burn_event e = (let K = ''mint_burn'' in
     bindE (required e K ''denom'') (\<lambda>asset.
     bindE (int_attr e K ''amount'') (\<lambda>asset_e8.
     Inr \<lparr>mb_asset = asset, mb_asset_e8 = asset_e8, mb_supply = text_attr e ''supply'',
          mb_reason = text_attr e ''reason''\<rparr>)))"

definition pool_balance_change_event :: "event \<Rightarrow> decode_error + pool_balance_change" where
  "pool_balance_change_event e = (let K = ''pool_balance_change'' in
     bindE (required e K ''asset'') (\<lambda>asset.
     bindE (int_attr e K ''rune_amt'') (\<lambda>rune_amt.
     bindE (int_attr e K ''asset_amt'') (\<lambda>asset_amt.
     Inr \<lparr>pb_asset = asset, pb_rune_amt = rune_amt,
          pb_rune_add = (attr e ''rune_add'' \<noteq> Some ''false''), pb_asset_amt = asset_amt,
          pb_asset_add = (attr e ''asset_add'' \<noteq> Some ''false''),
          pb_reason = text_attr e ''reason''\<rparr>))))"

definition slash_event :: "event \<Rightarrow> decode_error + slash" where
  "slash_event e = (let K = ''slash'' in
     bindE (required e K ''pool'') (\<lambda>pool.
     let (asset, asset_e8) = unwrap_or ([], 0)
           (find_map (\<lambda>(k, v). map_option (\<lambda>n. (k, n)) (parse_i64 v))
             (filter (\<lambda>(k, _). k \<noteq> ''pool'' \<and> k \<noteq> ''mode'') (attrs e))) in
     Inr \<lparr>sl_pool = pool, sl_asset = asset, sl_asset_e8 = asset_e8\<rparr>))"

definition switch_event :: "event \<Rightarrow> decode_error + switch" where
  "switch_event e = (let K = ''switch''; burn = ok (coin_of e K ''burn'');
       mint = ok (coin_of e K ''mint'') in
     Inr \<lparr>sh_tx = optional e ''txid'', sh_from_addr = text_attr e ''from'',
          sh_to_addr = text_attr e ''to'',
          sh_burn_asset = unwrap_or [] (map_option c_asset burn),
          sh_mint_asset = unwrap_or [] (map_option c_asset mint),
          sh_burn_e8 = unwrap_or 0 (map_option c_amount_e8 burn),
          sh_mint_e8 = unwrap_or 0 (map_option c_amount_e8 mint)\<rparr>)"

definition vault_event :: "event \<Rightarrow> decode_error + vault_change" where
  "vault_event e =
     (let addr = unwrap_or [] (case attr e ''add new asgard vault'' of
                   Some a \<Rightarrow> Some a | None \<Rightarrow> attr e ''set_asgard_vault'')
      in Inr \<lparr>vc_add_asgard_addr = addr\<rparr>)"

definition node_status_event :: "event \<Rightarrow> decode_error + node_status" where
  "node_status_event e =
     Inr \<lparr>ns_node_addr = text_attr e ''Address'', ns_former = text_attr e ''Former:'',
          ns_current = text_attr e ''Current:''\<rparr>"

end
