(* ===== verification/Decoding.thy ===== *)
theory Decoding
  imports Events
begin

text \<open>
  \<open>decode\<close> of \<open>crates/midgard-record/src/events.rs\<close>, and what holds of every decoder: the
  types are split into stored, ignored and unknown ones, an error names an attribute of the event
  that is missing or does not parse, and every number decoded is an \<open>i64\<close>.
\<close>

section \<open>Dispatch\<close>

definition IGNORED :: "string list" where
  "IGNORED = [
  ''tx'', ''message'', ''coin_spent'', ''coin_received'', ''coinbase'', ''burn'', ''mint'',
  ''tss_keygen'', ''tss_keysign'', ''create_client'', ''update_client'',
  ''connection_open_init'', ''store_code'', ''pin_code'', ''security'', ''execute'',
  ''instantiate'', ''reply'', ''wasm'', ''oracle_price'', ''approve_upgrade'',
  ''schedule_start'', ''schedule_add'', ''schedule_end'', ''limit_swap'', ''limit_swap_close'',
  ''rebond'', ''vault_over_solvency'', ''tcy_claim'', ''tcy_distribution'', ''tcy_stake'',
  ''tcy_unstake'', ''rune_pool_deposit'', ''rune_pool_withdraw'', ''affiliate_fee'',
  ''secured_asset_deposit'', ''secured_asset_withdraw'', ''trade_account_deposit'',
  ''trade_account_withdraw'', ''streaming_swap'', ''loan_open'', ''loan_repayment'',
  ''thorname'', ''tss_keygen_success'', ''tss_keygen_failure'', ''failed_refund'',
  ''pending_liquidity_slash'', ''set_ip_address'', ''set_node_keys'', ''set_version'',
  ''validator_request_leave'', ''new_node'', ''asgard_fund_yggdrasil'', ''slash_points'',
  ''set_node_mimir'', ''version'', ''scheduled_outbound'']"

definition decode :: "event \<Rightarrow> decode_error + decoded" where
  "decode e = (let kind = ev_kind e; one = (\<lambda>r. map_ok Event r) in
     if kind = ''swap'' then one (map_ok Swap (swap_event e))
     else if kind = ''add_liquidity'' \<or> kind = ''add'' then one (map_ok Stake (stake_event e))
     else if kind = ''withdraw'' then one (map_ok Withdraw (withdraw_event e))
     else if kind = ''pool'' then one (map_ok Pool (pool_status_event e))
     else if kind = ''fee'' then one (map_ok Fee (fee_event e))
     else if kind = ''gas'' then one (map_ok Gas (gas_event e))
     else if kind = ''rewards'' then one (map_ok Rewards (rewards_event e))
     else if kind = ''outbound'' then one (map_ok Outbound (outbound_event e))
     else if kind = ''refund'' then one (map_ok Refund (refund_event e))
     else if kind = ''donate'' then one (map_ok Add (donate_event e))
     else if kind = ''transfer'' then map_ok (\<lambda>ts. Events (map Transfer ts)) (transfer_event e)
     else if kind = ''bond'' then one (map_ok Bond (bond_event e))
     else if kind = ''pending_liquidity'' then one (map_ok PendingLiquidity (pending_liquidity_event e))
     else if kind = ''errata'' then one (map_ok Errata (errata_event e))
     else if kind = ''set_mimir'' then one (map_ok SetMimir (set_mimir_event e))
     else if kind = ''mint_burn'' then one (map_ok MintBurn (mint_burn_event e))
     else if kind = ''pool_balance_change'' then one (map_ok PoolBalanceChange (pool_balance_change_event e))
     else if kind = ''slash'' then one (map_ok Slash (slash_event e))
     else if kind = ''switch'' then one (map_ok Switch (switch_event e))
     else if kind = ''ActiveVault'' then one (map_ok ActiveVault (vault_event e))
     else if kind = ''InactiveVault'' then one (map_ok InactiveVault (vault_event e))
     else if kind = ''UpdateNodeAccountStatus'' then one (map_ok NodeStatus (node_status_event e))
     else if kind \<in> set IGNORED then Inr Ignored
     else if starts_with ''wasm-'' kind then Inr Ignored
     else Inr Unknown)"

text \<open>The types with a decoder.\<close>

definition STORED :: "string list" where
  "STORED = [''swap'', ''add_liquidity'', ''add'', ''withdraw'', ''pool'', ''fee'', ''gas'',
    ''rewards'', ''outbound'', ''refund'', ''donate'', ''transfer'', ''bond'',
    ''pending_liquidity'', ''errata'', ''set_mimir'', ''mint_burn'',
    ''pool_balance_change'', ''slash'', ''switch'', ''ActiveVault'',
    ''InactiveVault'', ''UpdateNodeAccountStatus'']"

section \<open>Errors\<close>

text \<open>An error that the event's attributes justify.\<close>

definition error_justified :: "event \<Rightarrow> decode_error \<Rightarrow> bool" where
  "error_justified e err = (case err of
     Missing k a \<Rightarrow> attr e a = None
   | NotANumber k a v \<Rightarrow> attr e a = Some v \<and> v \<noteq> [] \<and> (parse_i64 v = None \<or> parse_f64 v = None)
   | CoinErr k ce \<Rightarrow> list_ex (\<lambda>(_, v). parse_coin v = Inl ce \<or> parse_coins v = Inl ce
                                      \<or> parse_cosmos_coins v = Inl ce) (attrs e))"

lemma attr_in_attrs: "attr e a = Some v \<Longrightarrow> (a, v) \<in> set (attrs e)"
  by (simp add: attr_map_of map_of_SomeD)

lemma required_Inr [simp]: "required e k a = Inr v \<longleftrightarrow> attr e a = Some v"
  by (simp add: required_def)

lemma required_Inl: "required e k a = Inl err \<Longrightarrow> error_justified e err"
  by (auto simp: required_def ok_or_eq_Inl error_justified_def)

lemma int_attr_Inl: "int_attr e k a = Inl err \<Longrightarrow> error_justified e err"
  by (auto simp: int_attr_def ok_or_eq_Inl error_justified_def split: option.splits if_splits)

lemma float_attr_Inl: "float_attr e k a = Inl err \<Longrightarrow> error_justified e err"
  by (auto simp: float_attr_def ok_or_eq_Inl error_justified_def split: option.splits if_splits)

lemma coin_of_Inl: "coin_of e k a = Inl err \<Longrightarrow> error_justified e err"
  by (auto simp: coin_of_def bindE_eq_Inl map_err_eq_Inl error_justified_def list_ex_iff required_Inl
      dest!: attr_in_attrs dest: required_Inl) (force simp: error_justified_def list_ex_iff dest: required_Inl)

lemma parse_coins_text_Inl:
  "parse_coins (text_attr e a) = Inl ce \<Longrightarrow> error_justified e (CoinErr k ce)"
proof -
  assume *: "parse_coins (text_attr e a) = Inl ce"
  then obtain v where "attr e a = Some v"
    by (cases "attr e a") (auto simp: text_attr_def parse_coins_def trim_def)
  with * show ?thesis
    by (auto simp: text_attr_def error_justified_def list_ex_iff dest!: attr_in_attrs)
qed

lemma parse_cosmos_Inl:
  "attr e a = Some v \<Longrightarrow> parse_cosmos_coins v = Inl ce \<Longrightarrow> error_justified e (CoinErr k ce)"
  by (auto simp: error_justified_def list_ex_iff dest!: attr_in_attrs)

lemmas attr_errors = required_Inl int_attr_Inl float_attr_Inl coin_of_Inl parse_coins_text_Inl
  parse_cosmos_Inl

lemmas decoders = swap_event_def stake_event_def withdraw_event_def pool_status_event_def
  fee_event_def gas_event_def rewards_event_def outbound_event_def refund_event_def donate_event_def
  transfer_event_def bond_event_def pending_liquidity_event_def errata_event_def
  set_mimir_event_def mint_burn_event_def pool_balance_change_event_def slash_event_def
  switch_event_def vault_event_def node_status_event_def

lemma decoder_errors:
  "swap_event e = Inl err \<Longrightarrow> error_justified e err"
  "stake_event e = Inl err \<Longrightarrow> error_justified e err"
  "withdraw_event e = Inl err \<Longrightarrow> error_justified e err"
  "pool_status_event e = Inl err \<Longrightarrow> error_justified e err"
  "fee_event e = Inl err \<Longrightarrow> error_justified e err"
  "gas_event e = Inl err \<Longrightarrow> error_justified e err"
  "rewards_event e = Inl err \<Longrightarrow> error_justified e err"
  "outbound_event e = Inl err \<Longrightarrow> error_justified e err"
  "refund_event e = Inl err \<Longrightarrow> error_justified e err"
  "donate_event e = Inl err \<Longrightarrow> error_justified e err"
  "transfer_event e = Inl err \<Longrightarrow> error_justified e err"
  "bond_event e = Inl err \<Longrightarrow> error_justified e err"
  "pending_liquidity_event e = Inl err \<Longrightarrow> error_justified e err"
  "errata_event e = Inl err \<Longrightarrow> error_justified e err"
  "set_mimir_event e = Inl err \<Longrightarrow> error_justified e err"
  "mint_burn_event e = Inl err \<Longrightarrow> error_justified e err"
  "pool_balance_change_event e = Inl err \<Longrightarrow> error_justified e err"
  "slash_event e = Inl err \<Longrightarrow> error_justified e err"
  "switch_event e = Inl err \<Longrightarrow> error_justified e err"
  "vault_event e = Inl err \<Longrightarrow> error_justified e err"
  "node_status_event e = Inl err \<Longrightarrow> error_justified e err"
  by (auto simp: decoders Let_def bindE_eq_Inl map_err_eq_Inl split: option.splits sum.splits prod.splits
      dest: attr_errors)

section \<open>Amounts\<close>

fun amounts :: "recorded \<Rightarrow> i64 list" where
  "amounts (Swap r) = [sw_from_e8 r, sw_to_e8 r, sw_to_e8_min r, sw_swap_slip_bp r, sw_liq_fee_e8 r,
     sw_liq_fee_in_rune_e8 r, sw_streaming_count r, sw_streaming_quantity r]"
| "amounts (Stake r) = [st_asset_e8 r, st_stake_units r, st_rune_e8 r, st_asset_in_rune_e8 r]"
| "amounts (Withdraw r) = [wd_asset_e8 r, wd_emit_asset_e8 r, wd_emit_rune_e8 r, wd_stake_units r,
     wd_basis_points r, wd_imp_loss_protection_e8 r, wd_emit_asset_in_rune_e8 r]"
| "amounts (Pool r) = []"
| "amounts (Fee r) = [fe_asset_e8 r, fe_pool_deduct r]"
| "amounts (Gas r) = [ga_asset_e8 r, ga_rune_e8 r, ga_tx_count r]"
| "amounts (Rewards r) = rw_bond_e8 r # map snd (rw_per_pool r)"
| "amounts (Outbound r) = [ob_asset_e8 r]"
| "amounts (Refund r) = [rf_asset_e8 r, rf_asset_2nd_e8 r, rf_code r]"
| "amounts (Add r) = [ad_asset_e8 r, ad_rune_e8 r]"
| "amounts (Transfer r) = [tr_amount_e8 r]"
| "amounts (Bond r) = [bo_asset_e8 r, bo_e8 r]"
| "amounts (PendingLiquidity r) = [pl_asset_e8 r, pl_rune_e8 r]"
| "amounts (Errata r) = [er_asset_e8 r, er_rune_e8 r]"
| "amounts (SetMimir r) = []"
| "amounts (MintBurn r) = [mb_asset_e8 r]"
| "amounts (PoolBalanceChange r) = [pb_rune_amt r, pb_asset_amt r]"
| "amounts (Slash r) = [sl_asset_e8 r]"
| "amounts (Switch r) = [sh_burn_e8 r, sh_mint_e8 r]"
| "amounts (ActiveVault r) = []"
| "amounts (InactiveVault r) = []"
| "amounts (NodeStatus r) = []"

fun decoded_rows :: "decoded \<Rightarrow> recorded list" where
  "decoded_rows (Event r) = [r]"
| "decoded_rows (Events rs) = rs"
| "decoded_rows Ignored = []"
| "decoded_rows Unknown = []"

definition recorded_ok :: "recorded \<Rightarrow> bool" where
  "recorded_ok r = list_all i64_ok (amounts r)"

lemma i64_ok_small [simp]: "i64_ok 0" "i64_ok 1"
  by (simp_all add: i64_ok_def)

lemma i64_ok_max: "i64_ok a \<Longrightarrow> i64_ok b \<Longrightarrow> i64_ok (max a b)"
  by (simp add: max_def)

lemma int_attr_ok: "int_attr e k a = Inr n \<Longrightarrow> i64_ok n"
  by (auto simp: int_attr_def parse_i64_ok split: option.splits if_splits)

lemma coin_of_ok: "coin_of e k a = Inr c \<Longrightarrow> i64_ok (c_amount_e8 c)"
  by (auto simp: coin_of_def bindE_eq_Inr dest: parse_coin_Inr_ok)

lemma ok_eq_Some [simp]: "ok r = Some a \<longleftrightarrow> r = Inr a"
  by (cases r) auto

lemma coin_opt_ok: "i64_ok (unwrap_or 0 (map_option c_amount_e8 (ok (coin_of e k a))))"
  by (cases "coin_of e k a") (auto dest: coin_of_ok)

lemma collect_coins_ok:
  assumes "collectE f ss = Inr cs" "\<And>s c. f s = Inr c \<Longrightarrow> i64_ok (c_amount_e8 c)" "c \<in> set cs"
  shows "i64_ok (c_amount_e8 c)"
  using assms by (auto simp: collectE_eq_Inr list_all2_conv_all_nth in_set_conv_nth)

lemma parse_coins_amounts: "parse_coins s = Inr cs \<Longrightarrow> c \<in> set cs \<Longrightarrow> i64_ok (c_amount_e8 c)"
  by (auto simp: parse_coins_def Let_def parse_coin_Inr_ok split: if_splits
      intro: collect_coins_ok [where f = parse_coin])

lemma parse_cosmos_coins_amounts:
  "parse_cosmos_coins s = Inr cs \<Longrightarrow> c \<in> set cs \<Longrightarrow> i64_ok (c_amount_e8 c)"
  by (auto simp: parse_cosmos_coins_def Let_def parse_cosmos_coin_Inr_ok split: if_splits
      intro: collect_coins_ok [where f = parse_cosmos_coin])

lemma split_rune_ok:
  assumes "split_rune coins = (r, a)" "\<And>c. c \<in> set coins \<Longrightarrow> i64_ok (c_amount_e8 c)"
  shows "i64_ok r" "i64_ok (unwrap_or 0 (map_option c_amount_e8 a))"
proof -
  show "i64_ok r" using assms(1) by (auto simp: split_rune_def sum64_def)
  have "snd (split_rune coins) = a" using assms(1) by simp
  then show "i64_ok (unwrap_or 0 (map_option c_amount_e8 a))"
    using assms(2) split_rune_asset [of coins] by (cases a) auto
qed

lemma rewards_per_pool_ok: "(p, n) \<in> set (rewards_per_pool kvs) \<Longrightarrow> i64_ok n"
  by (induction kvs rule: rewards_per_pool.induct) (auto simp: parse_i64_ok split: if_splits option.splits)

lemma find_map_in: "find_map f xs = Some y \<Longrightarrow> \<exists>x\<in>set xs. f x = Some y"
  by (induction xs) (auto split: option.splits)

lemmas amounts_ok = int_attr_ok coin_of_ok coin_opt_ok i64_ok_max

lemma decoder_amounts:
  "swap_event e = Inr r1 \<Longrightarrow> recorded_ok (Swap r1)"
  "stake_event e = Inr r2 \<Longrightarrow> recorded_ok (Stake r2)"
  "withdraw_event e = Inr r3 \<Longrightarrow> recorded_ok (Withdraw r3)"
  "fee_event e = Inr r4 \<Longrightarrow> recorded_ok (Fee r4)"
  "gas_event e = Inr r5 \<Longrightarrow> recorded_ok (Gas r5)"
  "outbound_event e = Inr r6 \<Longrightarrow> recorded_ok (Outbound r6)"
  "bond_event e = Inr r7 \<Longrightarrow> recorded_ok (Bond r7)"
  "pending_liquidity_event e = Inr r8 \<Longrightarrow> recorded_ok (PendingLiquidity r8)"
  "errata_event e = Inr r9 \<Longrightarrow> recorded_ok (Errata r9)"
  "mint_burn_event e = Inr r10 \<Longrightarrow> recorded_ok (MintBurn r10)"
  "pool_balance_change_event e = Inr r11 \<Longrightarrow> recorded_ok (PoolBalanceChange r11)"
  "switch_event e = Inr r12 \<Longrightarrow> recorded_ok (Switch r12)"
  by (auto simp: decoders Let_def bindE_eq_Inr recorded_ok_def amounts_ok
      split: option.splits sum.splits prod.splits dest: int_attr_ok coin_of_ok)

lemma rewards_amounts: "rewards_event e = Inr r \<Longrightarrow> recorded_ok (Rewards r)"
  by (auto simp: rewards_event_def Let_def bindE_eq_Inr recorded_ok_def list_all_iff
      dest: rewards_per_pool_ok int_attr_ok)

lemma refund_amounts: "refund_event e = Inr r \<Longrightarrow> recorded_ok (Refund r)"
proof -
  assume "refund_event e = Inr r"
  then obtain coins where c: "parse_coins (text_attr e ''coin'') = Inr coins"
    and "i64_ok (rf_code r)"
    and "rf_asset_e8 r = c_amount_e8 (case coins of [] \<Rightarrow> default_coin | c # _ \<Rightarrow> c)"
    and "rf_asset_2nd_e8 r = unwrap_or 0 (map_option c_amount_e8
           (case coins of _ # c # _ \<Rightarrow> Some c | _ \<Rightarrow> None))"
    by (auto simp: refund_event_def Let_def bindE_eq_Inr dest: int_attr_ok)
  moreover from parse_coins_amounts [OF c] have "i64_ok (c_amount_e8 x)" if "x \<in> set coins" for x
    using that .
  ultimately show ?thesis by (auto simp: recorded_ok_def default_coin_def split: list.splits)
qed

lemma donate_amounts: "donate_event e = Inr r \<Longrightarrow> recorded_ok (Add r)"
proof -
  assume "donate_event e = Inr r"
  then obtain coins where c: "parse_coins (text_attr e ''coin'') = Inr coins"
    and r: "ad_rune_e8 r = fst (split_rune coins)"
      "ad_asset_e8 r = unwrap_or 0 (map_option c_amount_e8 (snd (split_rune coins)))"
    by (auto simp: donate_event_def Let_def bindE_eq_Inr case_prod_beta)
  with split_rune_ok [OF prod.collapse [symmetric] parse_coins_amounts [OF c]]
  show ?thesis by (simp add: recorded_ok_def)
qed

lemma slash_amounts: "slash_event e = Inr r \<Longrightarrow> recorded_ok (Slash r)"
proof (cases "find_map (\<lambda>(k, v). map_option (\<lambda>n. (k, n)) (parse_i64 v))
             (filter (\<lambda>(k, _). k \<noteq> ''pool'' \<and> k \<noteq> ''mode'') (attrs e))")
  case (Some y)
  moreover assume "slash_event e = Inr r"
  moreover have "i64_ok (snd y)" using find_map_in [OF Some] by (auto simp: parse_i64_ok)
  ultimately show ?thesis
    by (cases y) (auto simp: slash_event_def bindE_eq_Inr recorded_ok_def)
qed (auto simp: slash_event_def bindE_eq_Inr recorded_ok_def)

lemma transfer_amounts: "transfer_event e = Inr ts \<Longrightarrow> t \<in> set ts \<Longrightarrow> recorded_ok (Transfer t)"
proof -
  assume "transfer_event e = Inr ts" "t \<in> set ts"
  then obtain raw coins c where "parse_cosmos_coins raw = Inr coins" "c \<in> set coins"
      "tr_amount_e8 t = c_amount_e8 c"
    by (auto simp: transfer_event_def Let_def bindE_eq_Inr)
  then show ?thesis by (simp add: recorded_ok_def parse_cosmos_coins_amounts)
qed

lemma no_amounts [simp]:
  "recorded_ok (Pool r1)" "recorded_ok (SetMimir r2)" "recorded_ok (ActiveVault r3)"
  "recorded_ok (InactiveVault r3)" "recorded_ok (NodeStatus r4)"
  by (simp_all add: recorded_ok_def)

lemma decode_rows_ok: "decode e = Inr d \<Longrightarrow> r \<in> set (decoded_rows d) \<Longrightarrow> recorded_ok r"
  by (auto simp: decode_def Let_def map_ok_eq_Inr split: if_splits
      dest: decoder_amounts rewards_amounts refund_amounts donate_amounts slash_amounts transfer_amounts)

lemma decode_errors: "decode e = Inl err \<Longrightarrow> error_justified e err"
  by (auto simp: decode_def Let_def split: if_splits dest: decoder_errors)

lemma stored_not_ignored: "k \<in> set STORED \<Longrightarrow> k \<notin> set IGNORED \<and> \<not> starts_with ''wasm-'' k"
  by (auto simp: STORED_def IGNORED_def starts_with_def)

lemma decode_unknown_iff:
  "decode e = Inr Unknown \<longleftrightarrow>
   ev_kind e \<notin> set STORED \<and> ev_kind e \<notin> set IGNORED \<and> \<not> starts_with ''wasm-'' (ev_kind e)"
  by (auto simp: decode_def Let_def map_ok_eq_Inr STORED_def split: if_splits)

lemma decode_ignored_iff:
  "decode e = Inr Ignored \<longleftrightarrow> ev_kind e \<in> set IGNORED \<or> starts_with ''wasm-'' (ev_kind e)"
proof (cases "ev_kind e \<in> set STORED")
  case True
  with stored_not_ignored [OF True] show ?thesis
    by (auto simp: decode_def Let_def map_ok_eq_Inr STORED_def split: if_splits)
next
  case False
  then show ?thesis by (auto simp: decode_def Let_def STORED_def split: if_splits)
qed

end
