(* ===== verification/Ledger.thy ===== *)
theory Ledger
  imports Prelude "HOL-Library.Multiset"
begin

text \<open>
  The contract between what posts events to balances and what reads the balances: one event
  changes the balance of a key by a fixed signed amount, in 64-bit arithmetic. From it follow the
  balance after a list of events and that the order of the events does not matter.
\<close>

locale ledger =
  fixes post :: "'s \<Rightarrow> 'e \<Rightarrow> 's"
    and balance :: "'s \<Rightarrow> 'k \<Rightarrow> i64"
    and delta :: "'e \<Rightarrow> 'k \<Rightarrow> int"
    and inv :: "'s \<Rightarrow> bool"
  assumes inv_post: "inv s \<Longrightarrow> inv (post s e)"
    and inv_balance: "inv s \<Longrightarrow> i64_ok (balance s k)"
    and balance_post: "inv s \<Longrightarrow> balance (post s e) k = wrap64 (balance s k + delta e k)"
begin

lemma inv_posts: "inv s \<Longrightarrow> inv (foldl post s es)"
  by (induction es arbitrary: s) (auto intro: inv_post)

lemma balance_posts:
  "inv s \<Longrightarrow> balance (foldl post s es) k = wrap64 (balance s k + (\<Sum>e\<leftarrow>es. delta e k))"
proof (induction es arbitrary: s)
  case Nil
  then show ?case by (simp add: inv_balance)
next
  case (Cons e es)
  then show ?case by (simp add: inv_post balance_post algebra_simps)
qed

lemma balance_order:
  assumes "inv s" "mset es = mset fs"
  shows "balance (foldl post s es) k = balance (foldl post s fs) k"
proof -
  have "(\<Sum>e\<leftarrow>es. delta e k) = (\<Sum>e\<leftarrow>fs. delta e k)"
    using assms(2) by (metis mset_map sum_mset_sum_list)
  with assms(1) show ?thesis by (simp add: balance_posts)
qed

lemma balance_untouched: "inv s \<Longrightarrow> (\<And>e. e \<in> set es \<Longrightarrow> delta e k = 0) \<Longrightarrow>
    balance (foldl post s es) k = balance s k"
  by (simp add: balance_posts inv_balance cong: map_cong)

end

end
