(* ===== verification/Depth.thy ===== *)
theory Depth
  imports Decoding Ledger
begin

text \<open>
  \<open>crates/midgard-record/src/depth.rs\<close>: the depths of the pools in memory and the list of pools
  touched since the last \<open>take_changed\<close>. The abstract view of a tracker is a ledger with four
  balances per pool, changed by the postings of the events; the lemmas show that \<open>apply_event\<close>
  implements it in 64-bit arithmetic, that the touched pools are reported once each, and that the
  reported rows carry every change.
\<close>

record depth =
  d_asset_e8 :: i64
  d_rune_e8 :: i64
  d_synth_e8 :: i64
  d_units :: i64

definition default_depth :: depth where
  "default_depth = \<lparr>d_asset_e8 = 0, d_rune_e8 = 0, d_synth_e8 = 0, d_units = 0\<rparr>"

record depth_tracker =
  current :: "string \<Rightarrow> depth option"
  dirty :: "string list"

definition new_tracker :: depth_tracker where
  "new_tracker = \<lparr>current = Map.empty, dirty = []\<rparr>"

definition load_depths :: "depth_tracker \<Rightarrow> (string \<times> depth) list \<Rightarrow> depth_tracker" where
  "load_depths t depths = t\<lparr>current := map_of (rev depths), dirty := []\<rparr>"

definition get_depth :: "depth_tracker \<Rightarrow> string \<Rightarrow> depth" where
  "get_depth t pool = unwrap_or default_depth (current t pool)"

definition touch :: "depth_tracker \<Rightarrow> string \<Rightarrow> depth_tracker" where
  "touch t pool =
     (let t1 = (if current t pool = None then t\<lparr>current := (current t)(pool \<mapsto> default_depth)\<rparr> else t)
      in if pool \<in> set (dirty t1) then t1 else t1\<lparr>dirty := dirty t1 @ [pool]\<rparr>)"

text \<open>A write through the reference that \<open>touch\<close> returns.\<close>

definition touched :: "depth_tracker \<Rightarrow> string \<Rightarrow> (depth \<Rightarrow> depth) \<Rightarrow> depth_tracker" where
  "touched t pool f =
     (let t1 = touch t pool in t1\<lparr>current := (current t1)(pool := map_option f (current t1 pool))\<rparr>)"

definition add_asset :: "int \<Rightarrow> depth \<Rightarrow> depth" where
  "add_asset n d = d\<lparr>d_asset_e8 := wrap64 (d_asset_e8 d + n)\<rparr>"

definition add_rune :: "int \<Rightarrow> depth \<Rightarrow> depth" where
  "add_rune n d = d\<lparr>d_rune_e8 := wrap64 (d_rune_e8 d + n)\<rparr>"

definition add_synth :: "int \<Rightarrow> depth \<Rightarrow> depth" where
  "add_synth n d = d\<lparr>d_synth_e8 := wrap64 (d_synth_e8 d + n)\<rparr>"

definition add_units :: "int \<Rightarrow> depth \<Rightarrow> depth" where
  "add_units n d = d\<lparr>d_units := wrap64 (d_units d + n)\<rparr>"

definition pool_of_asset :: "string \<Rightarrow> string" where
  "pool_of_asset asset =
     replacen1 (\<lambda>c. c = CHR ''/'' \<or> c = CHR ''~'') ''.'' (asset_display (asset_parse asset))"

definition apply_swap :: "depth_tracker \<Rightarrow> swap \<Rightarrow> depth_tracker" where
  "apply_swap t s =
     (let from_rune = is_rune (sw_from_asset s);
          from_synth = (coin_type_of (sw_from_asset s) = Synth);
          to_synth = (coin_type_of (sw_to_asset s) = Synth)
      in touched t (sw_pool s) (\<lambda>d.
           if to_synth then add_synth (sw_to_e8 s) (add_rune (sw_from_e8 s) d)
           else if from_synth then add_rune (- sw_to_e8 s) (add_synth (- sw_from_e8 s) d)
           else if from_rune then add_asset (- sw_to_e8 s) (add_rune (sw_from_e8 s) d)
           else add_rune (- sw_to_e8 s) (add_asset (sw_from_e8 s) d)))"

definition apply_event :: "depth_tracker \<Rightarrow> recorded \<Rightarrow> depth_tracker" where
  "apply_event t ev = (case ev of
     Swap s \<Rightarrow> apply_swap t s
   | Stake s \<Rightarrow> touched t (st_pool s) (\<lambda>d.
       add_units (st_stake_units s) (add_rune (st_rune_e8 s) (add_asset (st_asset_e8 s) d)))
   | Withdraw w \<Rightarrow> touched t (wd_pool w) (\<lambda>d.
       add_rune (wd_imp_loss_protection_e8 w) (add_units (- wd_stake_units w)
         (add_rune (- wd_emit_rune_e8 w) (add_asset (- wd_emit_asset_e8 w) d))))
   | Add a \<Rightarrow> touched t (ad_pool a) (\<lambda>d. add_asset (ad_asset_e8 a) (add_rune (ad_rune_e8 a) d))
   | Errata e \<Rightarrow> touched t (er_asset e) (\<lambda>d. add_rune (er_rune_e8 e) (add_asset (er_asset_e8 e) d))
   | PoolBalanceChange c \<Rightarrow> touched t (pb_asset c) (\<lambda>d.
       add_asset (if pb_asset_add c then pb_asset_amt c else wrap64 (- pb_asset_amt c))
         (add_rune (if pb_rune_add c then pb_rune_amt c else wrap64 (- pb_rune_amt c)) d))
   | Rewards r \<Rightarrow> foldl (\<lambda>t (pool, amount). touched t pool (add_rune amount)) t (rw_per_pool r)
   | Slash s \<Rightarrow> touched t (sl_pool s) (\<lambda>d.
       if is_rune (sl_asset s) then add_rune (sl_asset_e8 s) d else add_asset (sl_asset_e8 s) d)
   | Fee f \<Rightarrow>
       (if fe_pool_deduct f \<noteq> 0
        then touched t (pool_of_asset (fe_asset f)) (add_rune (- fe_pool_deduct f)) else t)
   | Gas g \<Rightarrow> touched t (pool_of_asset (ga_asset g)) (\<lambda>d.
       add_rune (ga_rune_e8 g) (add_asset (- ga_asset_e8 g) d))
   | _ \<Rightarrow> t)"

definition take_changed :: "depth_tracker \<Rightarrow> (string \<times> depth) list \<times> depth_tracker" where
  "take_changed t =
     (let t1 = t\<lparr>dirty := []\<rparr> in (map (\<lambda>pool. (pool, get_depth t1 pool)) (dirty t), t1))"

definition has_changes :: "depth_tracker \<Rightarrow> bool" where
  "has_changes t \<longleftrightarrow> dirty t \<noteq> []"

section \<open>The invariant\<close>

definition depth_ok :: "depth \<Rightarrow> bool" where
  "depth_ok d \<longleftrightarrow> i64_ok (d_asset_e8 d) \<and> i64_ok (d_rune_e8 d) \<and> i64_ok (d_synth_e8 d) \<and> i64_ok (d_units d)"

definition tracker_ok :: "depth_tracker \<Rightarrow> bool" where
  "tracker_ok t \<longleftrightarrow> distinct (dirty t) \<and> set (dirty t) \<subseteq> dom (current t) \<and>
     (\<forall>d\<in>ran (current t). depth_ok d)"

lemmas adds = add_asset_def add_rune_def add_synth_def add_units_def

lemma depth_ok_adds [simp]:
  "depth_ok d \<Longrightarrow> depth_ok (add_asset n d)" "depth_ok d \<Longrightarrow> depth_ok (add_rune n d)"
  "depth_ok d \<Longrightarrow> depth_ok (add_synth n d)" "depth_ok d \<Longrightarrow> depth_ok (add_units n d)"
  "depth_ok default_depth"
  by (simp_all add: depth_ok_def adds default_depth_def)

lemma get_depth_ok [simp]: "tracker_ok t \<Longrightarrow> depth_ok (get_depth t p)"
  by (cases "current t p") (auto simp: tracker_ok_def get_depth_def ranI)

lemma current_touched:
  "current (touched t p f) = (current t)(p \<mapsto> f (get_depth t p))"
  by (cases "current t p") (auto simp: touched_def touch_def get_depth_def Let_def)

lemma get_depth_touched:
  "get_depth (touched t p f) q = (if q = p then f (get_depth t p) else get_depth t q)"
  by (simp add: get_depth_def current_touched)

lemma dirty_touched: "dirty (touched t p f) = (if p \<in> set (dirty t) then dirty t else dirty t @ [p])"
  by (auto simp: touched_def touch_def Let_def)

lemma tracker_ok_touched:
  assumes "tracker_ok t" "\<And>d. depth_ok d \<Longrightarrow> depth_ok (f d)"
  shows "tracker_ok (touched t p f)"
proof -
  have "depth_ok d" if "d \<in> ran (current (touched t p f))" for d
    using that assms by (auto simp: current_touched ran_def tracker_ok_def split: if_splits)
  with assms(1) show ?thesis
    by (auto simp: tracker_ok_def dirty_touched current_touched)
qed

lemma tracker_ok_rewards:
  "tracker_ok t \<Longrightarrow> tracker_ok (foldl (\<lambda>t (p, n). touched t p (add_rune n)) t ps)"
  by (induction ps arbitrary: t) (auto simp: tracker_ok_touched)

lemma tracker_ok_apply: "tracker_ok t \<Longrightarrow> tracker_ok (apply_event t ev)"
  by (auto simp: apply_event_def apply_swap_def Let_def split: recorded.splits
      intro!: tracker_ok_touched tracker_ok_rewards)

lemma tracker_ok_new: "tracker_ok new_tracker"
  by (simp add: tracker_ok_def new_tracker_def)

lemma tracker_ok_load:
  "(\<And>p d. (p, d) \<in> set ds \<Longrightarrow> depth_ok d) \<Longrightarrow> tracker_ok (load_depths t ds)"
  by (auto simp: tracker_ok_def load_depths_def ran_def dest!: map_of_SomeD)

lemma tracker_ok_take: "tracker_ok t \<Longrightarrow> tracker_ok (snd (take_changed t))"
  by (simp add: tracker_ok_def take_changed_def Let_def)

section \<open>The ledger it implements\<close>

datatype side = Asset_side | Rune_side | Synth_side | Unit_side

fun side_of :: "side \<Rightarrow> depth \<Rightarrow> i64" where
  "side_of Asset_side d = d_asset_e8 d"
| "side_of Rune_side d = d_rune_e8 d"
| "side_of Synth_side d = d_synth_e8 d"
| "side_of Unit_side d = d_units d"

text \<open>
  What an event moves: signed amounts on the sides of pools. A swap with a synth never posts to
  the asset side; protection against impermanent loss is paid in on top of a withdrawal.
\<close>

definition swap_postings :: "swap \<Rightarrow> (side \<times> int) list" where
  "swap_postings s =
     (if coin_type_of (sw_to_asset s) = Synth then [(Rune_side, sw_from_e8 s), (Synth_side, sw_to_e8 s)]
      else if coin_type_of (sw_from_asset s) = Synth
           then [(Synth_side, - sw_from_e8 s), (Rune_side, - sw_to_e8 s)]
      else if is_rune (sw_from_asset s) then [(Rune_side, sw_from_e8 s), (Asset_side, - sw_to_e8 s)]
      else [(Asset_side, sw_from_e8 s), (Rune_side, - sw_to_e8 s)])"

definition on_pool :: "string \<Rightarrow> (side \<times> int) list \<Rightarrow> (string \<times> side \<times> int) list" where
  "on_pool p xs = map (\<lambda>x. (p, x)) xs"

fun postings :: "recorded \<Rightarrow> (string \<times> side \<times> int) list" where
  "postings (Swap s) = on_pool (sw_pool s) (swap_postings s)"
| "postings (Stake s) = on_pool (st_pool s)
     [(Asset_side, st_asset_e8 s), (Rune_side, st_rune_e8 s), (Unit_side, st_stake_units s)]"
| "postings (Withdraw w) = on_pool (wd_pool w)
     [(Asset_side, - wd_emit_asset_e8 w), (Rune_side, - wd_emit_rune_e8 w),
      (Unit_side, - wd_stake_units w), (Rune_side, wd_imp_loss_protection_e8 w)]"
| "postings (Add a) = on_pool (ad_pool a) [(Rune_side, ad_rune_e8 a), (Asset_side, ad_asset_e8 a)]"
| "postings (Errata e) = on_pool (er_asset e) [(Asset_side, er_asset_e8 e), (Rune_side, er_rune_e8 e)]"
| "postings (PoolBalanceChange c) = on_pool (pb_asset c)
     [(Rune_side, if pb_rune_add c then pb_rune_amt c else - pb_rune_amt c),
      (Asset_side, if pb_asset_add c then pb_asset_amt c else - pb_asset_amt c)]"
| "postings (Rewards r) = map (\<lambda>(p, n). (p, Rune_side, n)) (rw_per_pool r)"
| "postings (Slash s) = on_pool (sl_pool s)
     [(if is_rune (sl_asset s) then Rune_side else Asset_side, sl_asset_e8 s)]"
| "postings (Fee f) = (if fe_pool_deduct f = 0 then []
     else on_pool (pool_of_asset (fe_asset f)) [(Rune_side, - fe_pool_deduct f)])"
| "postings (Gas g) = on_pool (pool_of_asset (ga_asset g))
     [(Asset_side, - ga_asset_e8 g), (Rune_side, ga_rune_e8 g)]"
| "postings _ = []"

definition posted :: "recorded \<Rightarrow> side \<times> string \<Rightarrow> int" where
  "posted ev k = (\<Sum>(p, sd, n)\<leftarrow>postings ev. if (sd, p) = k then n else 0)"

definition balance_of :: "depth_tracker \<Rightarrow> side \<times> string \<Rightarrow> i64" where
  "balance_of t k = side_of (fst k) (get_depth t (snd k))"

lemma balance_of_rewards:
  "tracker_ok t \<Longrightarrow>
   balance_of (foldl (\<lambda>t (p, n). touched t p (add_rune n)) t ps) k =
     wrap64 (balance_of t k + (\<Sum>(p, sd, n)\<leftarrow>map (\<lambda>(p, n). (p, Rune_side, n)) ps.
                                 if (sd, p) = k then n else 0))"
proof (induction ps arbitrary: t)
  case Nil
  then have "depth_ok (get_depth t (snd k))" by simp
  then have "i64_ok (balance_of t k)"
    by (cases "fst k") (auto simp: balance_of_def depth_ok_def)
  then show ?case by simp
next
  case (Cons x ps)
  obtain p n where x: "x = (p, n)" by force
  have ok: "depth_ok (get_depth t (snd k))" using Cons.prems by simp
  have "tracker_ok (touched t p (add_rune n))" using Cons.prems by (simp add: tracker_ok_touched)
  moreover have "balance_of (touched t p (add_rune n)) k =
      wrap64 (balance_of t k + (if (Rune_side, p) = k then n else 0))"
    using ok by (cases k; cases "fst k")
      (auto simp: balance_of_def get_depth_touched adds depth_ok_def)
  ultimately show ?case using Cons.IH by (simp add: x algebra_simps)
qed

lemma balance_of_apply:
  assumes "tracker_ok t"
  shows "balance_of (apply_event t ev) k = wrap64 (balance_of t k + posted ev k)"
proof -
  have ok: "depth_ok (get_depth t (snd k))" using assms by simp
  then have same: "wrap64 (balance_of t k) = balance_of t k"
    by (cases "fst k") (auto simp: balance_of_def depth_ok_def)
  show ?thesis
  proof (cases ev)
    case (Rewards r)
    then show ?thesis
      using balance_of_rewards [OF assms] by (simp add: apply_event_def posted_def)
  next
    case (Swap s)
    then show ?thesis using ok
      by (cases k; cases "fst k")
        (auto simp: apply_event_def apply_swap_def posted_def balance_of_def get_depth_touched
          swap_postings_def on_pool_def adds depth_ok_def Let_def)
  qed (use ok same in \<open>cases k; cases "fst k";
      auto simp: apply_event_def posted_def balance_of_def get_depth_touched on_pool_def adds
        depth_ok_def algebra_simps\<close>)+
qed

interpretation pool_ledger: ledger apply_event balance_of posted tracker_ok
proof unfold_locales
  fix t and k :: "side \<times> string"
  assume "tracker_ok t"
  then have "depth_ok (get_depth t (snd k))" by simp
  then show "i64_ok (balance_of t k)" by (cases "fst k") (auto simp: balance_of_def depth_ok_def)
qed (simp_all add: tracker_ok_apply balance_of_apply)

section \<open>Touched pools and the reported rows\<close>

definition touches :: "recorded \<Rightarrow> string set" where
  "touches ev = fst ` set (postings ev)"

lemma rewards_fold_touch:
  "set (dirty (foldl (\<lambda>t (p, n). touched t p (add_rune n)) t ps)) = set (dirty t) \<union> fst ` set ps \<and>
   (\<forall>q. q \<notin> fst ` set ps \<longrightarrow>
        current (foldl (\<lambda>t (p, n). touched t p (add_rune n)) t ps) q = current t q)"
proof (induction ps arbitrary: t)
  case (Cons x ps)
  show ?case
    using Cons.IH [of "touched t (fst x) (add_rune (snd x))"]
    by (cases x) (auto simp: dirty_touched current_touched)
qed simp

lemma apply_touches:
  "set (dirty (apply_event t ev)) = set (dirty t) \<union> touches ev \<and>
   (\<forall>q. q \<notin> touches ev \<longrightarrow> current (apply_event t ev) q = current t q)"
proof (cases ev)
  case (Rewards r)
  have "touches ev = fst ` set (rw_per_pool r)"
    by (auto simp: Rewards touches_def image_image case_prod_beta)
  then show ?thesis using rewards_fold_touch [of t "rw_per_pool r"] by (simp add: Rewards apply_event_def)
next
  case (Swap s)
  then show ?thesis
    by (auto simp: apply_event_def apply_swap_def Let_def touches_def on_pool_def swap_postings_def
        dirty_touched current_touched)
qed (auto simp: apply_event_def touches_def on_pool_def dirty_touched current_touched)

definition apply_events :: "depth_tracker \<Rightarrow> recorded list \<Rightarrow> depth_tracker" where
  "apply_events t evs = foldl apply_event t evs"

lemma tracker_ok_events [simp]: "tracker_ok t \<Longrightarrow> tracker_ok (apply_events t evs)"
  unfolding apply_events_def by (rule pool_ledger.inv_posts)

lemma events_touch:
  "set (dirty (apply_events t evs)) = set (dirty t) \<union> (\<Union>ev\<in>set evs. touches ev) \<and>
   (\<forall>q. q \<notin> (\<Union>ev\<in>set evs. touches ev) \<longrightarrow> current (apply_events t evs) q = current t q)"
proof (induction evs arbitrary: t)
  case (Cons ev evs)
  show ?case
    using Cons.IH [of "apply_event t ev"] apply_touches [of t ev]
    by (simp add: apply_events_def) blast
qed (simp add: apply_events_def)

lemma take_changed_rows:
  assumes "tracker_ok t" "take_changed t = (rows, t')"
  shows "distinct (map fst rows)" "map fst rows = dirty t"
    "(p, d) \<in> set rows \<longleftrightarrow> p \<in> set (dirty t) \<and> current t p = Some d"
    "current t' = current t" "dirty t' = []" "tracker_ok t'"
proof -
  have rows: "rows = map (\<lambda>p. (p, get_depth t p)) (dirty t)" and t': "t' = t\<lparr>dirty := []\<rparr>"
    using assms(2) by (auto simp: take_changed_def Let_def get_depth_def)
  show "map fst rows = dirty t" by (simp add: rows comp_def)
  with assms(1) show "distinct (map fst rows)" by (simp add: tracker_ok_def)
  have "\<exists>d. current t p = Some d" if "p \<in> set (dirty t)"
    using that assms(1) by (auto simp: tracker_ok_def)
  then show "(p, d) \<in> set rows \<longleftrightarrow> p \<in> set (dirty t) \<and> current t p = Some d"
    by (auto simp: rows get_depth_def)
  show "current t' = current t" "dirty t' = []" "tracker_ok t'"
    using tracker_ok_take [OF assms(1)] assms(2) by (auto simp: t')
qed

text \<open>Over the old depths, the reported rows give the new ones.\<close>

lemma rows_cover_changes:
  assumes "tracker_ok t" "dirty t = []" "take_changed (apply_events t evs) = (rows, t')"
  shows "current t' = current t ++ map_of rows"
proof
  fix p
  have ok: "tracker_ok (apply_events t evs)" using assms(1) by simp
  note r = take_changed_rows [OF ok assms(3)]
  show "current t' p = (current t ++ map_of rows) p"
  proof (cases "p \<in> set (dirty (apply_events t evs))")
    case True
    with ok obtain d where "current (apply_events t evs) p = Some d"
      by (auto simp: tracker_ok_def)
    with True r(1,3,4) show ?thesis by (simp add: map_add_Some_iff)
  next
    case False
    then have "p \<notin> fst ` set rows" using r(2) by (metis image_set)
    then have "map_of rows p = None" by (simp add: map_of_eq_None_iff)
    moreover have "current (apply_events t evs) p = current t p"
      using False events_touch [of t evs] assms(2) by auto
    ultimately show ?thesis using r(4) by (simp add: map_add_def)
  qed
qed

end
