(* ===== verification/Event_Ids.thy ===== *)
theory Event_Ids
  imports Prelude "HOL-Library.Product_Lexorder"
begin

text \<open>
  \<open>crates/midgard-db/src/eventid.rs\<close>: the 64-bit identifier of an event. Within the budget the
  source states (\<open>valid_id\<close>) the encoding reads back, is strictly increasing in chain order
  (height, phase, transaction, event) and stays between the bounds of its height. The consumers of
  the order see it through the locale \<open>order_encoding\<close>.
\<close>

section \<open>Encodings that keep an order\<close>

locale order_encoding =
  fixes enc :: "'k::linorder \<Rightarrow> i64" and valid :: "'k \<Rightarrow> bool"
  assumes enc_mono: "valid a \<Longrightarrow> valid b \<Longrightarrow> a < b \<Longrightarrow> enc a < enc b"
begin

lemma enc_less_iff: "valid a \<Longrightarrow> valid b \<Longrightarrow> enc a < enc b \<longleftrightarrow> a < b"
  by (metis enc_mono less_asym linorder_less_linear)

lemma enc_inj: "valid a \<Longrightarrow> valid b \<Longrightarrow> enc a = enc b \<longleftrightarrow> a = b"
  by (metis enc_mono less_irrefl linorder_less_linear)

lemma sorted_enc: "(\<And>k. k \<in> set ks \<Longrightarrow> valid k) \<Longrightarrow> sorted_wrt (<) ks \<Longrightarrow> sorted_wrt (<) (map enc ks)"
  by (induction ks) (auto intro: enc_mono)

text \<open>Sorting by the encoding is sorting by the key.\<close>

lemma sort_key_enc:
  assumes "\<And>k. k \<in> set ks \<Longrightarrow> valid k" "distinct ks"
  shows "sort_key enc ks = sort ks"
proof -
  have "sorted_wrt (<) (sort ks)" using assms(2) by (simp add: strict_sorted_iff)
  then have "sorted_wrt (<) (map enc (sort ks))" by (intro sorted_enc) (simp_all add: assms(1))
  then have "sorted (map enc (sort ks))" by (rule strict_sorted_imp_sorted)
  moreover have inj: "inj_on enc (set ks)" by (auto simp: inj_on_def enc_inj assms(1))
  ultimately have "map enc (sort_key enc ks) = map enc (sort ks)"
    using assms(2) by (intro sorted_distinct_set_unique) (simp_all add: distinct_map)
  with inj show ?thesis by (simp add: inj_on_map_eq_map)
qed

end

section \<open>Identifiers\<close>

datatype location = BeginBlock | TxsResults | EndBlock

fun location_rank :: "location \<Rightarrow> int" where
  "location_rank BeginBlock = 0"
| "location_rank TxsResults = 1"
| "location_rank EndBlock = 2"

instantiation location :: linorder
begin

definition less_eq_location :: "location \<Rightarrow> location \<Rightarrow> bool" where
  "less_eq_location a b \<longleftrightarrow> location_rank a \<le> location_rank b"

definition less_location :: "location \<Rightarrow> location \<Rightarrow> bool" where
  "less_location a b \<longleftrightarrow> location_rank a < location_rank b"

instance
proof
  fix a b :: location
  show "a \<le> b \<Longrightarrow> b \<le> a \<Longrightarrow> a = b"
    by (cases a; cases b) (simp_all add: less_eq_location_def)
qed (auto simp: less_eq_location_def less_location_def)

end

record event_id =
  ei_height :: i64
  ei_location :: location
  ei_tx_index :: i64
  ei_event_index :: i64

definition HEIGHT_SCALE :: i64 where "HEIGHT_SCALE = 10000000000"
definition TYPE_DIGIT :: i64 where "TYPE_DIGIT = 1000000000"
definition TX_INDEX_SCALE :: i64 where "TX_INDEX_SCALE = 10000"
definition END_BLOCK_PSEUDO_TX :: i64 where "END_BLOCK_PSEUDO_TX = 999999"

lemmas scales = HEIGHT_SCALE_def TYPE_DIGIT_def TX_INDEX_SCALE_def END_BLOCK_PSEUDO_TX_def

definition begin_block_id :: "i64 \<Rightarrow> event_id" where
  "begin_block_id height =
     \<lparr>ei_height = height, ei_location = BeginBlock, ei_tx_index = 0, ei_event_index = 1\<rparr>"

definition tx_event_id :: "i64 \<Rightarrow> i64 \<Rightarrow> i64 \<Rightarrow> event_id" where
  "tx_event_id height tx_index event_index =
     \<lparr>ei_height = height, ei_location = TxsResults, ei_tx_index = tx_index, ei_event_index = event_index\<rparr>"

definition end_block_id :: "i64 \<Rightarrow> i64 \<Rightarrow> event_id" where
  "end_block_id height event_index =
     \<lparr>ei_height = height, ei_location = EndBlock, ei_tx_index = 0, ei_event_index = event_index\<rparr>"

definition to_i64 :: "event_id \<Rightarrow> i64" where
  "to_i64 i = (case ei_location i of
     BeginBlock \<Rightarrow> wrap64 (wrap64 (ei_height i * HEIGHT_SCALE) + ei_event_index i)
   | TxsResults \<Rightarrow> wrap64 (wrap64 (wrap64 (wrap64 (ei_height i * HEIGHT_SCALE) + TYPE_DIGIT)
       + wrap64 (ei_tx_index i * TX_INDEX_SCALE)) + ei_event_index i)
   | EndBlock \<Rightarrow> wrap64 (wrap64 (wrap64 (ei_height i * HEIGHT_SCALE) + 9 * TYPE_DIGIT) + ei_event_index i))"

definition parse_id :: "i64 \<Rightarrow> event_id" where
  "parse_id encoded =
     (let height = encoded sdiv HEIGHT_SCALE; rest = encoded smod HEIGHT_SCALE in
      if rest < TYPE_DIGIT then
        \<lparr>ei_height = height, ei_location = BeginBlock, ei_tx_index = 0, ei_event_index = rest\<rparr>
      else if rest < 9 * TYPE_DIGIT then
        \<lparr>ei_height = height, ei_location = TxsResults,
         ei_tx_index = (rest - TYPE_DIGIT) sdiv TX_INDEX_SCALE,
         ei_event_index = rest smod TX_INDEX_SCALE\<rparr>
      else
        \<lparr>ei_height = height, ei_location = EndBlock, ei_tx_index = END_BLOCK_PSEUDO_TX,
         ei_event_index = rest smod TYPE_DIGIT\<rparr>)"

definition height_of :: "i64 \<Rightarrow> i64" where
  "height_of event_id = event_id sdiv HEIGHT_SCALE"

definition first_id_at_height :: "i64 \<Rightarrow> i64" where
  "first_id_at_height height = wrap64 (height * HEIGHT_SCALE)"

definition first_id_after_height :: "i64 \<Rightarrow> i64" where
  "first_id_after_height height = wrap64 (wrap64 (height + 1) * HEIGHT_SCALE)"

section \<open>The budget\<close>

definition MAX_HEIGHT :: i64 where "MAX_HEIGHT = 922337202"

definition valid_id :: "event_id \<Rightarrow> bool" where
  "valid_id i \<longleftrightarrow> 0 \<le> ei_height i \<and> ei_height i \<le> MAX_HEIGHT \<and> 0 \<le> ei_event_index i \<and>
     (case ei_location i of
        BeginBlock \<Rightarrow> ei_tx_index i = 0 \<and> ei_event_index i < TYPE_DIGIT
      | TxsResults \<Rightarrow> 0 \<le> ei_tx_index i \<and> ei_tx_index i < 800000 \<and> ei_event_index i < TX_INDEX_SCALE
      | EndBlock \<Rightarrow> ei_tx_index i = 0 \<and> ei_event_index i < TYPE_DIGIT)"

text \<open>The part of the identifier after the height, without wrapping.\<close>

definition rest_of :: "event_id \<Rightarrow> int" where
  "rest_of i = (case ei_location i of
     BeginBlock \<Rightarrow> ei_event_index i
   | TxsResults \<Rightarrow> TYPE_DIGIT + ei_tx_index i * TX_INDEX_SCALE + ei_event_index i
   | EndBlock \<Rightarrow> 9 * TYPE_DIGIT + ei_event_index i)"

lemma rest_of_bounds: "valid_id i \<Longrightarrow> 0 \<le> rest_of i \<and> rest_of i < HEIGHT_SCALE"
  by (cases "ei_location i") (auto simp: valid_id_def rest_of_def scales)

lemma to_i64_exact:
  assumes "valid_id i"
  shows "to_i64 i = ei_height i * HEIGHT_SCALE + rest_of i"
proof -
  have "i64_ok (ei_height i * HEIGHT_SCALE + rest_of i)"
    using assms rest_of_bounds [OF assms] by (auto simp: valid_id_def scales MAX_HEIGHT_def i64_ok_def)
  moreover have "to_i64 i = wrap64 (ei_height i * HEIGHT_SCALE + rest_of i)"
    by (cases "ei_location i") (simp_all add: to_i64_def rest_of_def add.assoc)
  ultimately show ?thesis by simp
qed

lemma to_i64_div_mod:
  assumes "valid_id i"
  shows "to_i64 i sdiv HEIGHT_SCALE = ei_height i" "to_i64 i smod HEIGHT_SCALE = rest_of i"
proof -
  note b = rest_of_bounds [OF assms]
  have p: "0 < HEIGHT_SCALE" by (simp add: scales)
  have n: "0 \<le> to_i64 i"
    using assms b by (simp add: to_i64_exact valid_id_def scales)
  show "to_i64 i sdiv HEIGHT_SCALE = ei_height i"
    using b p by (simp add: sdiv_nonneg [OF n p]) (simp add: to_i64_exact [OF assms])
  show "to_i64 i smod HEIGHT_SCALE = rest_of i"
    using b p by (simp add: smod_nonneg [OF n p]) (simp add: to_i64_exact [OF assms])
qed

text \<open>What reading an identifier back gives: an end-block event gets the pseudo transaction.\<close>

definition as_parsed :: "event_id \<Rightarrow> event_id" where
  "as_parsed i = (if ei_location i = EndBlock then i\<lparr>ei_tx_index := END_BLOCK_PSEUDO_TX\<rparr> else i)"

lemma parse_to_i64:
  assumes "valid_id i"
  shows "parse_id (to_i64 i) = as_parsed i"
proof -
  have p: "parse_id (to_i64 i) =
      (if rest_of i < TYPE_DIGIT then
         \<lparr>ei_height = ei_height i, ei_location = BeginBlock, ei_tx_index = 0, ei_event_index = rest_of i\<rparr>
       else if rest_of i < 9 * TYPE_DIGIT then
         \<lparr>ei_height = ei_height i, ei_location = TxsResults,
          ei_tx_index = (rest_of i - TYPE_DIGIT) sdiv TX_INDEX_SCALE,
          ei_event_index = rest_of i smod TX_INDEX_SCALE\<rparr>
       else \<lparr>ei_height = ei_height i, ei_location = EndBlock, ei_tx_index = END_BLOCK_PSEUDO_TX,
          ei_event_index = rest_of i smod TYPE_DIGIT\<rparr>)"
    by (simp only: parse_id_def to_i64_div_mod [OF assms] Let_def)
  note r = as_parsed_def rest_of_def scales
  show ?thesis
  proof (cases "ei_location i")
    case BeginBlock
    with assms show ?thesis unfolding p by (cases i) (simp add: r valid_id_def)
  next
    case TxsResults
    with assms have b: "0 \<le> ei_tx_index i" "ei_tx_index i < 800000" "0 \<le> ei_event_index i"
        "ei_event_index i < 10000"
      by (auto simp: valid_id_def scales)
    then have "(ei_tx_index i * 10000 + ei_event_index i) div 10000 = ei_tx_index i"
      "(1000000000 + ei_tx_index i * 10000 + ei_event_index i) mod 10000 = ei_event_index i"
      by (simp_all add: mod_add_left_eq [symmetric])
    with TxsResults b show ?thesis unfolding p by (cases i) (simp add: r sdiv_nonneg smod_nonneg)
  next
    case EndBlock
    with assms have b: "0 \<le> ei_event_index i" "ei_event_index i < 1000000000"
      by (auto simp: valid_id_def scales)
    then have "(9000000000 + ei_event_index i) mod 1000000000 = ei_event_index i"
      by (simp add: mod_add_left_eq [symmetric])
    with EndBlock b show ?thesis unfolding p by (cases i) (simp add: r smod_nonneg)
  qed
qed

text \<open>Chain order is the order of the tuples.\<close>

definition chain_key :: "event_id \<Rightarrow> i64 \<times> location \<times> i64 \<times> i64" where
  "chain_key i = (ei_height i, ei_location i, ei_tx_index i, ei_event_index i)"

definition of_key :: "i64 \<times> location \<times> i64 \<times> i64 \<Rightarrow> event_id" where
  "of_key k = (case k of (h, l, t, e) \<Rightarrow>
     \<lparr>ei_height = h, ei_location = l, ei_tx_index = t, ei_event_index = e\<rparr>)"

lemma key_inverse [simp]: "of_key (chain_key i) = i"
  by (simp add: of_key_def chain_key_def)

lemma rest_of_mono:
  assumes "valid_id i" "valid_id j" "(ei_location i, ei_tx_index i, ei_event_index i) <
      (ei_location j, ei_tx_index j, ei_event_index j)"
  shows "rest_of i < rest_of j"
  using assms
  by (cases "ei_location i"; cases "ei_location j")
    (auto simp: rest_of_def valid_id_def scales less_location_def less_eq_location_def)

lemma to_i64_mono:
  assumes "valid_id i" "valid_id j" "chain_key i < chain_key j"
  shows "to_i64 i < to_i64 j"
proof (cases "ei_height i = ei_height j")
  case True
  with assms have "(ei_location i, ei_tx_index i, ei_event_index i) <
      (ei_location j, ei_tx_index j, ei_event_index j)"
    by (simp add: chain_key_def)
  with True assms show ?thesis by (simp add: to_i64_exact rest_of_mono)
next
  case False
  with assms(3) have "ei_height i + 1 \<le> ei_height j" by (auto simp: chain_key_def)
  then have "(ei_height i + 1) * HEIGHT_SCALE \<le> ei_height j * HEIGHT_SCALE"
    by (simp add: scales)
  with assms rest_of_bounds [OF assms(1)] rest_of_bounds [OF assms(2)] show ?thesis
    by (simp add: to_i64_exact algebra_simps)
qed

interpretation chain_ids: order_encoding "\<lambda>k. to_i64 (of_key k)" "\<lambda>k. valid_id (of_key k)"
  by unfold_locales (auto intro!: to_i64_mono simp: chain_key_def of_key_def split: prod.splits)

lemma height_bracket:
  assumes "valid_id i" "0 \<le> h" "h \<le> MAX_HEIGHT"
  shows "first_id_at_height h \<le> to_i64 i \<and> to_i64 i < first_id_after_height h \<longleftrightarrow> ei_height i = h"
proof -
  have "first_id_at_height h = h * HEIGHT_SCALE" "first_id_after_height h = (h + 1) * HEIGHT_SCALE"
    using assms(2,3) by (simp_all add: first_id_at_height_def first_id_after_height_def scales
        MAX_HEIGHT_def i64_ok_def)
  then show ?thesis
    using rest_of_bounds [OF assms(1)] by (auto simp: to_i64_exact [OF assms(1)] scales)
qed

lemma height_of_id: "valid_id i \<Longrightarrow> height_of (to_i64 i) = ei_height i"
  by (simp add: height_of_def to_i64_div_mod)

end
