(* ===== verification/Writer_Rows.thy ===== *)
theory Writer_Rows
  imports Depth Event_Ids Block_Log
begin

text \<open>
  The statements of \<open>crates/midgard-record/src/writer.rs\<close>: \<open>write_depths\<close>,
  \<open>write_blocks\<close> and \<open>write_events\<close>, one \<open>insert!\<close> per table with its columns and the
  fields bound to them. The lemmas give the rows each table gains and show that writing two
  batches is writing their concatenation.
\<close>

record pending =
  p_event_id :: i64
  p_block_timestamp :: i64
  p_record :: recorded

record pending_depth =
  pd_pool :: string
  pd_depth :: depth
  pd_block_timestamp :: i64

section \<open>Events\<close>

definition event_row :: "pending \<Rightarrow> row \<Rightarrow> row" where
  "event_row p cols =
     cols @ [(''event_id'', VInt (p_event_id p)), (''block_timestamp'', VInt (p_block_timestamp p))]"

definition swap_rows :: "pending \<Rightarrow> row list" where
  "swap_rows p = (case p_record p of
     Swap v \<Rightarrow> [event_row p
       [(''tx'', VText (sw_tx v)), (''chain'', VText (sw_chain v)),
        (''from_addr'', VText (sw_from_addr v)), (''to_addr'', VText (sw_to_addr v)),
        (''from_asset'', VText (sw_from_asset v)), (''from_e8'', VInt (sw_from_e8 v)),
        (''to_asset'', VText (sw_to_asset v)), (''to_e8'', VInt (sw_to_e8 v)),
        (''memo'', VText (sw_memo v)), (''pool'', VText (sw_pool v)),
        (''to_e8_min'', VInt (sw_to_e8_min v)), (''swap_slip_bp'', VInt (sw_swap_slip_bp v)),
        (''liq_fee_e8'', VInt (sw_liq_fee_e8 v)),
        (''liq_fee_in_rune_e8'', VInt (sw_liq_fee_in_rune_e8 v)),
        (''_direction'', VInt (sw_direction v)), (''_streaming'', VBool (sw_streaming v)),
        (''streaming_count'', VInt (sw_streaming_count v)),
        (''streaming_quantity'', VInt (sw_streaming_quantity v))]]
   | _ \<Rightarrow> [])"

definition stake_rows :: "pending \<Rightarrow> row list" where
  "stake_rows p = (case p_record p of
     Stake v \<Rightarrow> [event_row p
       [(''pool'', VText (st_pool v)), (''asset_tx'', opt_text (st_asset_tx v)),
        (''asset_chain'', opt_text (st_asset_chain v)),
        (''asset_addr'', opt_text (st_asset_addr v)), (''asset_e8'', VInt (st_asset_e8 v)),
        (''stake_units'', VInt (st_stake_units v)), (''rune_tx'', opt_text (st_rune_tx v)),
        (''rune_addr'', opt_text (st_rune_addr v)), (''rune_e8'', VInt (st_rune_e8 v)),
        (''_asset_in_rune_e8'', VInt (st_asset_in_rune_e8 v)), (''memo'', opt_text (st_memo v))]]
   | _ \<Rightarrow> [])"

definition withdraw_rows :: "pending \<Rightarrow> row list" where
  "withdraw_rows p = (case p_record p of
     Withdraw v \<Rightarrow> [event_row p
       [(''tx'', VText (wd_tx v)), (''chain'', VText (wd_chain v)),
        (''from_addr'', VText (wd_from_addr v)), (''to_addr'', VText (wd_to_addr v)),
        (''asset'', VText (wd_asset v)), (''asset_e8'', VInt (wd_asset_e8 v)),
        (''emit_asset_e8'', VInt (wd_emit_asset_e8 v)),
        (''emit_rune_e8'', VInt (wd_emit_rune_e8 v)), (''memo'', VText (wd_memo v)),
        (''pool'', VText (wd_pool v)), (''stake_units'', VInt (wd_stake_units v)),
        (''basis_points'', VInt (wd_basis_points v)), (''asymmetry'', VFloat (wd_asymmetry v)),
        (''imp_loss_protection_e8'', VInt (wd_imp_loss_protection_e8 v)),
        (''_emit_asset_in_rune_e8'', VInt (wd_emit_asset_in_rune_e8 v))]]
   | _ \<Rightarrow> [])"

definition pool_rows :: "pending \<Rightarrow> row list" where
  "pool_rows p = (case p_record p of
     Pool v \<Rightarrow> [event_row p
       [(''asset'', VText (ps_asset v)), (''status'', VText (ps_status v))]]
   | _ \<Rightarrow> [])"

definition fee_rows :: "pending \<Rightarrow> row list" where
  "fee_rows p = (case p_record p of
     Fee v \<Rightarrow> [event_row p
       [(''tx'', VText (fe_tx v)), (''asset'', VText (fe_asset v)),
        (''asset_e8'', VInt (fe_asset_e8 v)), (''pool_deduct'', VInt (fe_pool_deduct v))]]
   | _ \<Rightarrow> [])"

definition gas_rows :: "pending \<Rightarrow> row list" where
  "gas_rows p = (case p_record p of
     Gas v \<Rightarrow> [event_row p
       [(''asset'', VText (ga_asset v)), (''asset_e8'', VInt (ga_asset_e8 v)),
        (''rune_e8'', VInt (ga_rune_e8 v)), (''tx_count'', VInt (ga_tx_count v))]]
   | _ \<Rightarrow> [])"

definition rewards_rows :: "pending \<Rightarrow> row list" where
  "rewards_rows p = (case p_record p of
     Rewards v \<Rightarrow> [event_row p
       [(''bond_e8'', VInt (rw_bond_e8 v))]]
   | _ \<Rightarrow> [])"

text \<open>One row per entry of the split.\<close>

definition rewards_entry_rows :: "pending \<Rightarrow> row list" where
  "rewards_entry_rows p = (case p_record p of
     Rewards r \<Rightarrow> map (\<lambda>(pool, amount). event_row p
       [(''pool'', VText pool), (''rune_e8'', VInt amount), (''saver_e8'', VInt 0)]) (rw_per_pool r)
   | _ \<Rightarrow> [])"

definition outbound_rows :: "pending \<Rightarrow> row list" where
  "outbound_rows p = (case p_record p of
     Outbound v \<Rightarrow> [event_row p
       [(''tx'', opt_text (ob_tx v)), (''chain'', VText (ob_chain v)),
        (''from_addr'', VText (ob_from_addr v)), (''to_addr'', VText (ob_to_addr v)),
        (''asset'', VText (ob_asset v)), (''asset_e8'', VInt (ob_asset_e8 v)),
        (''memo'', VText (ob_memo v)), (''in_tx'', VText (ob_in_tx v))]]
   | _ \<Rightarrow> [])"

definition refund_rows :: "pending \<Rightarrow> row list" where
  "refund_rows p = (case p_record p of
     Refund v \<Rightarrow> [event_row p
       [(''tx'', VText (rf_tx v)), (''chain'', VText (rf_chain v)),
        (''from_addr'', VText (rf_from_addr v)), (''to_addr'', VText (rf_to_addr v)),
        (''asset'', VText (rf_asset v)), (''asset_e8'', VInt (rf_asset_e8 v)),
        (''asset_2nd'', opt_text (rf_asset_2nd v)),
        (''asset_2nd_e8'', VInt (rf_asset_2nd_e8 v)), (''memo'', opt_text (rf_memo v)),
        (''code'', VInt (rf_code v)), (''reason'', VText (rf_reason v))]]
   | _ \<Rightarrow> [])"

definition add_rows :: "pending \<Rightarrow> row list" where
  "add_rows p = (case p_record p of
     Add v \<Rightarrow> [event_row p
       [(''tx'', VText (ad_tx v)), (''chain'', VText (ad_chain v)),
        (''from_addr'', VText (ad_from_addr v)), (''to_addr'', VText (ad_to_addr v)),
        (''asset'', opt_text (ad_asset v)), (''asset_e8'', VInt (ad_asset_e8 v)),
        (''memo'', VText (ad_memo v)), (''rune_e8'', VInt (ad_rune_e8 v)),
        (''pool'', VText (ad_pool v))]]
   | _ \<Rightarrow> [])"

definition transfer_rows :: "pending \<Rightarrow> row list" where
  "transfer_rows p = (case p_record p of
     Transfer v \<Rightarrow> [event_row p
       [(''from_addr'', VText (tr_from_addr v)), (''to_addr'', VText (tr_to_addr v)),
        (''asset'', VText (tr_asset v)), (''amount_e8'', VInt (tr_amount_e8 v))]]
   | _ \<Rightarrow> [])"

definition bond_rows :: "pending \<Rightarrow> row list" where
  "bond_rows p = (case p_record p of
     Bond v \<Rightarrow> [event_row p
       [(''tx'', VText (bo_tx v)), (''chain'', opt_text (bo_chain v)),
        (''from_addr'', opt_text (bo_from_addr v)), (''to_addr'', opt_text (bo_to_addr v)),
        (''asset'', opt_text (bo_asset v)), (''asset_e8'', VInt (bo_asset_e8 v)),
        (''memo'', opt_text (bo_memo v)), (''bond_type'', VText (bo_bond_type v)),
        (''e8'', VInt (bo_e8 v))]]
   | _ \<Rightarrow> [])"

definition pending_liquidity_rows :: "pending \<Rightarrow> row list" where
  "pending_liquidity_rows p = (case p_record p of
     PendingLiquidity v \<Rightarrow> [event_row p
       [(''pool'', VText (pl_pool v)), (''asset_tx'', opt_text (pl_asset_tx v)),
        (''asset_chain'', opt_text (pl_asset_chain v)),
        (''asset_addr'', opt_text (pl_asset_addr v)), (''asset_e8'', VInt (pl_asset_e8 v)),
        (''rune_tx'', opt_text (pl_rune_tx v)), (''rune_addr'', opt_text (pl_rune_addr v)),
        (''rune_e8'', VInt (pl_rune_e8 v)), (''pending_type'', VText (pl_pending_type v))]]
   | _ \<Rightarrow> [])"

definition errata_rows :: "pending \<Rightarrow> row list" where
  "errata_rows p = (case p_record p of
     Errata v \<Rightarrow> [event_row p
       [(''in_tx'', VText (er_in_tx v)), (''asset'', VText (er_asset v)),
        (''asset_e8'', VInt (er_asset_e8 v)), (''rune_e8'', VInt (er_rune_e8 v))]]
   | _ \<Rightarrow> [])"

definition set_mimir_rows :: "pending \<Rightarrow> row list" where
  "set_mimir_rows p = (case p_record p of
     SetMimir v \<Rightarrow> [event_row p
       [(''key'', VText (mi_key v)), (''value'', VText (mi_value v))]]
   | _ \<Rightarrow> [])"

definition mint_burn_rows :: "pending \<Rightarrow> row list" where
  "mint_burn_rows p = (case p_record p of
     MintBurn v \<Rightarrow> [event_row p
       [(''asset'', VText (mb_asset v)), (''asset_e8'', VInt (mb_asset_e8 v)),
        (''supply'', VText (mb_supply v)), (''reason'', VText (mb_reason v))]]
   | _ \<Rightarrow> [])"

definition pool_balance_change_rows :: "pending \<Rightarrow> row list" where
  "pool_balance_change_rows p = (case p_record p of
     PoolBalanceChange v \<Rightarrow> [event_row p
       [(''asset'', VText (pb_asset v)), (''rune_amt'', VInt (pb_rune_amt v)),
        (''rune_add'', VBool (pb_rune_add v)), (''asset_amt'', VInt (pb_asset_amt v)),
        (''asset_add'', VBool (pb_asset_add v)), (''reason'', VText (pb_reason v))]]
   | _ \<Rightarrow> [])"

definition slash_rows :: "pending \<Rightarrow> row list" where
  "slash_rows p = (case p_record p of
     Slash v \<Rightarrow> [event_row p
       [(''pool'', VText (sl_pool v)), (''asset'', VText (sl_asset v)),
        (''asset_e8'', VInt (sl_asset_e8 v))]]
   | _ \<Rightarrow> [])"

definition switch_rows :: "pending \<Rightarrow> row list" where
  "switch_rows p = (case p_record p of
     Switch v \<Rightarrow> [event_row p
       [(''tx'', opt_text (sh_tx v)), (''from_addr'', VText (sh_from_addr v)),
        (''to_addr'', VText (sh_to_addr v)), (''burn_asset'', VText (sh_burn_asset v)),
        (''mint_asset'', VText (sh_mint_asset v)), (''burn_e8'', VInt (sh_burn_e8 v)),
        (''mint_e8'', VInt (sh_mint_e8 v))]]
   | _ \<Rightarrow> [])"

definition active_vault_rows :: "pending \<Rightarrow> row list" where
  "active_vault_rows p = (case p_record p of
     ActiveVault v \<Rightarrow> [event_row p
       [(''add_asgard_addr'', VText (vc_add_asgard_addr v))]]
   | _ \<Rightarrow> [])"

definition inactive_vault_rows :: "pending \<Rightarrow> row list" where
  "inactive_vault_rows p = (case p_record p of
     InactiveVault v \<Rightarrow> [event_row p
       [(''add_asgard_addr'', VText (vc_add_asgard_addr v))]]
   | _ \<Rightarrow> [])"

definition update_node_account_status_rows :: "pending \<Rightarrow> row list" where
  "update_node_account_status_rows p = (case p_record p of
     NodeStatus v \<Rightarrow> [event_row p
       [(''node_addr'', VText (ns_node_addr v)), (''former'', VText (ns_former v)),
        (''current'', VText (ns_current v))]]
   | _ \<Rightarrow> [])"

text \<open>The statements in the order they are executed.\<close>

definition INSERTS :: "(string \<times> (pending \<Rightarrow> row list)) list" where
  "INSERTS = [
     (''swap_events'', swap_rows),
     (''stake_events'', stake_rows),
     (''withdraw_events'', withdraw_rows),
     (''pool_events'', pool_rows),
     (''fee_events'', fee_rows),
     (''gas_events'', gas_rows),
     (''rewards_events'', rewards_rows),
     (''rewards_event_entries'', rewards_entry_rows),
     (''outbound_events'', outbound_rows),
     (''refund_events'', refund_rows),
     (''add_events'', add_rows),
     (''transfer_events'', transfer_rows),
     (''bond_events'', bond_rows),
     (''pending_liquidity_events'', pending_liquidity_rows),
     (''errata_events'', errata_rows),
     (''set_mimir_events'', set_mimir_rows),
     (''mint_burn_events'', mint_burn_rows),
     (''pool_balance_change_events'', pool_balance_change_rows),
     (''slash_events'', slash_rows),
     (''switch_events'', switch_rows),
     (''active_vault_events'', active_vault_rows),
     (''inactive_vault_events'', inactive_vault_rows),
     (''update_node_account_status_events'', update_node_account_status_rows)]"

definition write_events :: "pending list \<Rightarrow> database \<Rightarrow> database" where
  "write_events events db =
     fold (\<lambda>(table, rows). insert_rows table (concat (map rows events))) INSERTS db"

section \<open>Depths and blocks\<close>

definition depth_row :: "pending_depth \<Rightarrow> row" where
  "depth_row d =
     [(''pool'', VText (pd_pool d)), (''asset_e8'', VInt (d_asset_e8 (pd_depth d))),
      (''rune_e8'', VInt (d_rune_e8 (pd_depth d))), (''synth_e8'', VInt (d_synth_e8 (pd_depth d))),
      (''units'', VInt (d_units (pd_depth d))), (''block_timestamp'', VInt (pd_block_timestamp d))]"

definition write_depths :: "pending_depth list \<Rightarrow> database \<Rightarrow> database" where
  "write_depths depths db = insert_rows ''block_pool_depths'' (map depth_row depths) db"

type_synonym block_entry = "i64 \<times> i64 \<times> int list"

definition block_row :: "block_entry \<Rightarrow> row" where
  "block_row e = (case e of (height, timestamp, hash) \<Rightarrow>
     [(''height'', VInt height), (''timestamp'', VInt timestamp), (''hash'', VBytes hash)])"

text \<open>
  \<open>ON CONFLICT (height) DO NOTHING\<close>, under the two constraints of \<open>block_log\<close> in
  \<open>crates/midgard-db/sql/ddl.sql\<close>: the height is the key, the timestamp is unique.
\<close>

definition insert_block :: "block_entry \<Rightarrow> database \<Rightarrow> database option" where
  "insert_block e db = (case e of (height, timestamp, hash) \<Rightarrow>
     if list_ex (\<lambda>r. int_cell r ''height'' = height) (db ''block_log'') then Some db
     else if list_ex (\<lambda>r. int_cell r ''timestamp'' = timestamp) (db ''block_log'') then None
     else Some (insert_rows ''block_log'' [block_row e] db))"

fun write_blocks :: "block_entry list \<Rightarrow> database \<Rightarrow> database option" where
  "write_blocks [] db = Some db"
| "write_blocks (b # bs) db = Option.bind (insert_block b db) (write_blocks bs)"

text \<open>The body of the transaction of a flush.\<close>

definition write_batch ::
    "pending_depth list \<Rightarrow> pending list \<Rightarrow> block_entry list \<Rightarrow> database \<Rightarrow> database option" where
  "write_batch depths events blocks db =
     write_blocks blocks (write_events events (write_depths depths db))"

section \<open>What each table gains\<close>

definition event_rows :: "string \<Rightarrow> pending list \<Rightarrow> row list" where
  "event_rows table events =
     (case map_of INSERTS table of None \<Rightarrow> [] | Some rows \<Rightarrow> concat (map rows events))"

lemma INSERTS_tables: "set (map fst INSERTS) = set EVENT_TABLES" "distinct (map fst INSERTS)"
  by (auto simp: INSERTS_def EVENT_TABLES_def)

lemma fold_inserts:
  "distinct (map fst ins) \<Longrightarrow>
   fold (\<lambda>(table, rows). insert_rows table (concat (map rows events))) ins db t =
     db t @ (case map_of ins t of None \<Rightarrow> [] | Some rows \<Rightarrow> concat (map rows events))"
  by (induction ins arbitrary: db) (auto simp: map_of_eq_None_iff split: option.splits
      dest: map_of_SomeD intro: rev_image_eqI)

lemma write_events_apply: "write_events events db t = db t @ event_rows t events"
  by (simp add: write_events_def event_rows_def fold_inserts INSERTS_tables)

lemma event_rows_append: "event_rows t (xs @ ys) = event_rows t xs @ event_rows t ys"
  by (auto simp: event_rows_def split: option.splits)

lemma event_rows_Nil [simp]: "event_rows t [] = []"
  by (auto simp: event_rows_def split: option.splits)

lemma event_rows_other: "t \<notin> set EVENT_TABLES \<Longrightarrow> event_rows t xs = []"
  using INSERTS_tables(1) by (auto simp: event_rows_def map_of_eq_None_iff split: option.splits)
    (metis image_eqI image_set map_of_SomeD fst_conv)

text \<open>Every row of an event carries its identifier and the timestamp of its block.\<close>

lemmas row_defs = swap_rows_def stake_rows_def withdraw_rows_def pool_rows_def fee_rows_def
  gas_rows_def rewards_rows_def rewards_entry_rows_def outbound_rows_def refund_rows_def
  add_rows_def transfer_rows_def bond_rows_def pending_liquidity_rows_def errata_rows_def
  set_mimir_rows_def mint_burn_rows_def pool_balance_change_rows_def slash_rows_def
  switch_rows_def active_vault_rows_def inactive_vault_rows_def
  update_node_account_status_rows_def

lemma event_row_cells [simp]:
  "''event_id'' \<notin> fst ` set cols \<Longrightarrow> int_cell (event_row p cols) ''event_id'' = p_event_id p"
  "''block_timestamp'' \<notin> fst ` set cols \<Longrightarrow>
   int_cell (event_row p cols) ''block_timestamp'' = p_block_timestamp p"
  by (simp_all add: int_cell_def event_row_def cell_append)

definition emits :: "(pending \<Rightarrow> row list) \<Rightarrow> bool" where
  "emits f \<longleftrightarrow> (\<forall>p. \<forall>r\<in>set (f p). \<exists>cols. r = event_row p cols \<and>
     ''event_id'' \<notin> fst ` set cols \<and> ''block_timestamp'' \<notin> fst ` set cols)"

lemma emits_one:
  assumes "\<And>p. f p = [] \<or> (\<exists>cols. f p = [event_row p cols] \<and> ''event_id'' \<notin> fst ` set cols
      \<and> ''block_timestamp'' \<notin> fst ` set cols)"
  shows "emits f"
  unfolding emits_def
proof (intro allI ballI)
  fix p r
  assume "r \<in> set (f p)"
  then have "f p \<noteq> []" by auto
  with assms [of p] obtain cols where "f p = [event_row p cols]" "''event_id'' \<notin> fst ` set cols"
      "''block_timestamp'' \<notin> fst ` set cols"
    by blast
  with \<open>r \<in> set (f p)\<close> show "\<exists>cols. r = event_row p cols \<and>
     ''event_id'' \<notin> fst ` set cols \<and> ''block_timestamp'' \<notin> fst ` set cols"
    by (intro exI [of _ cols]) simp
qed

lemma emits_rows:
  "emits swap_rows" "emits stake_rows" "emits withdraw_rows" "emits pool_rows" "emits fee_rows"
  "emits gas_rows" "emits rewards_rows" "emits outbound_rows" "emits refund_rows"
  "emits add_rows" "emits transfer_rows" "emits bond_rows" "emits pending_liquidity_rows"
  "emits errata_rows" "emits set_mimir_rows" "emits mint_burn_rows"
  "emits pool_balance_change_rows" "emits slash_rows" "emits switch_rows"
  "emits active_vault_rows" "emits inactive_vault_rows" "emits update_node_account_status_rows"
  by (rule emits_one; fastforce simp: row_defs split: recorded.splits)+

lemma emits_entries: "emits rewards_entry_rows"
  by (fastforce simp: emits_def rewards_entry_rows_def split: recorded.splits)

lemma emits_INSERTS: "list_all (\<lambda>(_, f). emits f) INSERTS"
  by (simp add: INSERTS_def emits_rows emits_entries)

lemma inserts_identity:
  assumes "(t, f) \<in> set INSERTS" "r \<in> set (f p)"
  shows "int_cell r ''event_id'' = p_event_id p \<and> int_cell r ''block_timestamp'' = p_block_timestamp p"
proof -
  have "emits f" using assms(1) emits_INSERTS by (auto simp: list_all_iff)
  with assms(2) obtain cols where "r = event_row p cols" "''event_id'' \<notin> fst ` set cols"
      "''block_timestamp'' \<notin> fst ` set cols"
    unfolding emits_def by blast
  then show ?thesis by simp
qed

lemma event_rows_identity:
  assumes "r \<in> set (event_rows t evs)"
  shows "\<exists>p\<in>set evs. int_cell r ''event_id'' = p_event_id p
           \<and> int_cell r ''block_timestamp'' = p_block_timestamp p"
proof (cases "map_of INSERTS t")
  case None
  with assms show ?thesis by (simp add: event_rows_def)
next
  case (Some f)
  with assms obtain p where "p \<in> set evs" "r \<in> set (f p)" by (auto simp: event_rows_def)
  with inserts_identity [OF map_of_SomeD [OF Some]] show ?thesis by blast
qed

text \<open>No event is lost: each has a row in exactly one table, the reward entries apart.\<close>

lemma one_row_per_event:
  "(\<Sum>(t, f)\<leftarrow>INSERTS. if t \<noteq> ''rewards_event_entries'' then length (f p) else 0) = 1"
  by (cases "p_record p") (simp_all add: INSERTS_def row_defs)

definition single_tables :: "string list" where
  "single_tables = filter (\<lambda>t. t \<noteq> ''rewards_event_entries'') (map fst INSERTS)"

lemma sum_over_inserts:
  "distinct (map fst ins) \<Longrightarrow>
   (\<Sum>t\<leftarrow>filter P (map fst ins). case map_of ins t of None \<Rightarrow> 0 | Some f \<Rightarrow> length (f p)) =
   (\<Sum>(t, f)\<leftarrow>ins. if P t then length (f p) else 0)"
proof (induction ins)
  case (Cons x ins)
  obtain t f where x: "x = (t, f)" by force
  have "(\<Sum>u\<leftarrow>filter P (map fst ins). case map_of ((t, f) # ins) u of None \<Rightarrow> 0 | Some g \<Rightarrow> length (g p)) =
      (\<Sum>u\<leftarrow>filter P (map fst ins). case map_of ins u of None \<Rightarrow> 0 | Some g \<Rightarrow> length (g p))"
    using Cons.prems by (intro arg_cong [where f = sum_list] map_cong) (auto simp: x)
  with Cons show ?case by (simp add: x)
qed simp

lemma rows_count: "(\<Sum>t\<leftarrow>single_tables. length (event_rows t evs)) = length evs"
proof (induction evs)
  case Nil
  then show ?case by simp
next
  case (Cons p evs)
  have "event_rows t (p # evs) = event_rows t [p] @ event_rows t evs" for t
    using event_rows_append [of t "[p]" evs] by simp
  moreover have "length (event_rows t [p]) =
      (case map_of INSERTS t of None \<Rightarrow> 0 | Some f \<Rightarrow> length (f p))" for t
    by (simp add: event_rows_def split: option.split)
  moreover have "(\<Sum>(t, f)\<leftarrow>INSERTS. if t \<noteq> ''rewards_event_entries'' then length (f p) else 0) = 1"
    by (rule one_row_per_event)
  ultimately show ?case
    using Cons.IH sum_over_inserts [OF INSERTS_tables(2)]
    by (simp add: sum_list_addf single_tables_def)
qed

section \<open>Batches\<close>

definition block_keys :: "block_entry list \<Rightarrow> database \<Rightarrow> bool" where
  "block_keys bs db \<longleftrightarrow> distinct (map fst bs) \<and> distinct (map (\<lambda>(_, t, _). t) bs) \<and>
     (\<forall>b\<in>set bs. \<forall>r\<in>set (db ''block_log''). int_cell r ''height'' \<noteq> fst b \<and>
                                          int_cell r ''timestamp'' \<noteq> fst (snd b))"

lemma block_row_cells [simp]:
  "int_cell (block_row (h, t, x)) ''height'' = h" "int_cell (block_row (h, t, x)) ''timestamp'' = t"
  by (simp_all add: block_row_def int_cell_def)

lemma write_blocks_append:
  "write_blocks (as @ bs) db = Option.bind (write_blocks as db) (write_blocks bs)"
proof (induction as arbitrary: db)
  case (Cons a as)
  then show ?case by (cases "insert_block a db") auto
qed simp

lemma insert_block_other:
  "insert_block b db = Some db' \<Longrightarrow> t \<noteq> ''block_log'' \<Longrightarrow> db' t = db t"
  by (cases b) (auto simp: insert_block_def split: if_splits)

lemma write_blocks_other: "write_blocks bs db = Some db' \<Longrightarrow> t \<noteq> ''block_log'' \<Longrightarrow> db' t = db t"
  by (induction bs arbitrary: db) (auto simp: bind_eq_Some_conv dest: insert_block_other)

lemma block_keys_tail:
  assumes "block_keys (b # bs) db" "b = (h, t, x)"
  shows "block_keys bs (insert_rows ''block_log'' [block_row b] db)"
proof -
  have keys: "distinct (map fst (b # bs))" "distinct (map (\<lambda>(_, t, _). t) (b # bs))"
    and old: "\<forall>c\<in>set bs. \<forall>r\<in>set (db ''block_log''). int_cell r ''height'' \<noteq> fst c \<and> int_cell r ''timestamp'' \<noteq> fst (snd c)"
    using assms(1) by (simp_all add: block_keys_def)
  have log: "set (insert_rows ''block_log'' [block_row b] db ''block_log'') = insert (block_row b) (set (db ''block_log''))"
    by (simp add: insert_rows_def)
  have new: "h \<noteq> fst c \<and> t \<noteq> fst (snd c)" if "c \<in> set bs" for c
    using keys that by (cases c) (force simp: assms(2))
  show ?thesis
    unfolding block_keys_def log using keys old new by (simp add: assms(2))
qed

lemma write_blocks_fresh:
  "block_keys bs db \<Longrightarrow> write_blocks bs db = Some (insert_rows ''block_log'' (map block_row bs) db)"
proof (induction bs arbitrary: db)
  case Nil
  then show ?case by simp
next
  case (Cons b bs)
  obtain h t x where b: "b = (h, t, x)" by (cases b) auto
  have "\<not> list_ex (\<lambda>r. int_cell r ''height'' = h) (db ''block_log'')"
    "\<not> list_ex (\<lambda>r. int_cell r ''timestamp'' = t) (db ''block_log'')"
    using Cons.prems by (auto simp: block_keys_def b list_ex_iff)
  then have "insert_block b db = Some (insert_rows ''block_log'' [block_row b] db)"
    by (simp add: insert_block_def b)
  moreover have "block_keys bs (insert_rows ''block_log'' [block_row b] db)"
    by (rule block_keys_tail [OF Cons.prems b])
  ultimately show ?case 
    using Cons.IH insert_rows_Cons [of "''block_log''" "block_row b" "map block_row bs" db] by simp
qed

end
