(* ===== verification/Writer.thy ===== *)
theory Writer
  imports Writer_Rows
begin

text \<open>
  \<open>BlockWriter\<close> of \<open>crates/midgard-record/src/writer.rs\<close>: decoding blocks into buffers,
  flushing the buffers in one transaction, restoring the depths after a restart. The abstract view
  of a writer and its database is the database a flush would leave (\<open>settled\<close>): adding a block
  appends that block's rows to it, flushing does not change it.
\<close>

record block_writer =
  w_batch_size :: nat
  w_blocks :: "block_entry list"
  w_events :: "pending list"
  w_depths :: "pending_depth list"
  w_tracker :: depth_tracker
  w_unknown_seen :: "string set"

definition new_writer :: "nat \<Rightarrow> block_writer" where
  "new_writer batch_size =
     \<lparr>w_batch_size = max batch_size 1, w_blocks = [], w_events = [], w_depths = [],
      w_tracker = new_tracker, w_unknown_seen = {}\<rparr>"

section \<open>Hashes\<close>

text \<open>The UTF-8 bytes of a string, and \<open>u8::from_str_radix(_, 16)\<close> of two of them.\<close>

definition utf8_bytes :: "string \<Rightarrow> int list" where
  "utf8_bytes s = concat (map (\<lambda>c. let n = int (code c) in
     if n < 128 then [n] else [192 + n div 64, 128 + n mod 64]) s)"

definition hex_digit :: "int \<Rightarrow> int option" where
  "hex_digit b = (if 48 \<le> b \<and> b \<le> 57 then Some (b - 48)
     else if 65 \<le> b \<and> b \<le> 70 then Some (b - 55)
     else if 97 \<le> b \<and> b \<le> 102 then Some (b - 87) else None)"

definition from_hex2 :: "int \<Rightarrow> int \<Rightarrow> int option" where
  "from_hex2 a b = (if a = 43 then hex_digit b
     else case (hex_digit a, hex_digit b) of (Some x, Some y) \<Rightarrow> Some (16 * x + y) | _ \<Rightarrow> None)"

fun hex_pairs :: "int list \<Rightarrow> int list" where
  "hex_pairs (a # b # rest) =
     (case from_hex2 a b of Some n \<Rightarrow> n # hex_pairs rest | None \<Rightarrow> hex_pairs rest)"
| "hex_pairs _ = []"

definition hex_to_bytes :: "string \<Rightarrow> int list" where
  "hex_to_bytes hex = hex_pairs (utf8_bytes hex)"

section \<open>Buffering\<close>

definition push_record :: "event_id \<Rightarrow> i64 \<Rightarrow> block_writer \<Rightarrow> recorded \<Rightarrow> block_writer" where
  "push_record i timestamp w r =
     w\<lparr>w_tracker := apply_event (w_tracker w) r,
       w_events := w_events w @
         [\<lparr>p_event_id = to_i64 i, p_block_timestamp = timestamp, p_record = r\<rparr>]\<rparr>"

definition push :: "block_writer \<Rightarrow> event \<Rightarrow> event_id \<Rightarrow> i64 \<Rightarrow> block_writer" where
  "push w e i timestamp = (case decode e of
     Inr (Event r) \<Rightarrow> push_record i timestamp w r
   | Inr (Events rs) \<Rightarrow> foldl (push_record i timestamp) w rs
   | Inr Ignored \<Rightarrow> w
   | Inr Unknown \<Rightarrow> w\<lparr>w_unknown_seen := insert (ev_kind e) (w_unknown_seen w)\<rparr>
   | Inl _ \<Rightarrow> w)"

text \<open>\<open>add\<close> up to the test of the batch size.\<close>

definition buffer_block :: "block_writer \<Rightarrow> block \<Rightarrow> block_writer" where
  "buffer_block w b =
     (let timestamp = b_timestamp b;
          w1 = foldl (\<lambda>w (index, e).
                 push w e ((begin_block_id (b_height b))\<lparr>ei_event_index := int index + 1\<rparr>) timestamp)
                 w (begin_block_events b);
          w2 = foldl (\<lambda>w (tx_index, tx).
                 foldl (\<lambda>w (event_index, e).
                   push w e (tx_event_id (b_height b) (int tx_index + 1) (int event_index + 1)) timestamp)
                   w (List.enumerate 0 (tx_events tx)))
                 w1 (successful_txs b);
          w3 = foldl (\<lambda>w (index, e). push w e (end_block_id (b_height b) (int index + 1)) timestamp)
                 w2 (end_block_events b);
          (changed, tracker) = take_changed (w_tracker w3)
      in w3\<lparr>w_tracker := tracker,
            w_depths := w_depths w3 @ map (\<lambda>(pool, depth).
              \<lparr>pd_pool = pool, pd_depth = depth, pd_block_timestamp = timestamp\<rparr>) changed,
            w_blocks := w_blocks w3 @ [(b_height b, timestamp, hex_to_bytes (b_hash b))]\<rparr>)"

section \<open>Flushing\<close>

definition flush :: "tx_outcome \<Rightarrow> block_writer \<Rightarrow> database \<Rightarrow> block_writer \<times> database \<times> bool" where
  "flush oc w db =
     (if w_blocks w = [] then (w, db, True)
      else case run_tx oc (write_batch (w_depths w) (w_events w) (w_blocks w)) db of
        (db', True) \<Rightarrow> (w\<lparr>w_blocks := [], w_events := [], w_depths := []\<rparr>, db', True)
      | (db', False) \<Rightarrow> (w, db', False))"

definition add_block :: "tx_outcome \<Rightarrow> block_writer \<Rightarrow> database \<Rightarrow> block \<Rightarrow> block_writer \<times> database \<times> bool" where
  "add_block oc w db b =
     (let w' = buffer_block w b in
      if w_batch_size w' \<le> length (w_blocks w') then flush oc w' db else (w', db, True))"

section \<open>Restoring\<close>

text \<open>\<open>SELECT DISTINCT ON (pool) ... ORDER BY pool, block_timestamp DESC\<close>.\<close>

definition latest_depths :: "row list \<Rightarrow> row list" where
  "latest_depths rows = List.map_filter
     (\<lambda>pool. first_row (\<lambda>r. - int_cell r ''block_timestamp'')
               (filter (\<lambda>r. text_cell r ''pool'' = pool) rows))
     (remdups (map (\<lambda>r. text_cell r ''pool'') rows))"

definition depth_of_row :: "row \<Rightarrow> depth" where
  "depth_of_row r = \<lparr>d_asset_e8 = int_cell r ''asset_e8'', d_rune_e8 = int_cell r ''rune_e8'',
     d_synth_e8 = int_cell r ''synth_e8'', d_units = int_cell r ''units''\<rparr>"

definition restore :: "block_writer \<Rightarrow> database \<Rightarrow> block_writer" where
  "restore w db = w\<lparr>w_tracker := load_depths (w_tracker w)
     (map (\<lambda>r. (text_cell r ''pool'', depth_of_row r)) (latest_depths (db ''block_pool_depths'')))\<rparr>"

definition pending_blocks :: "block_writer \<Rightarrow> nat" where
  "pending_blocks w = length (w_blocks w)"

definition depth_of :: "block_writer \<Rightarrow> string \<Rightarrow> depth" where
  "depth_of w pool = get_depth (w_tracker w) pool"

section \<open>What a block contributes\<close>

text \<open>The events of a block in the order of execution, with their identifiers.\<close>

definition block_events :: "block \<Rightarrow> (event_id \<times> event) list" where
  "block_events b =
     map (\<lambda>(i, e). ((begin_block_id (b_height b))\<lparr>ei_event_index := int i + 1\<rparr>, e)) (begin_block_events b)
     @ concat (map (\<lambda>(t, tx). map (\<lambda>(i, e). (tx_event_id (b_height b) (int t + 1) (int i + 1), e))
                                  (List.enumerate 0 (tx_events tx))) (successful_txs b))
     @ map (\<lambda>(i, e). (end_block_id (b_height b) (int i + 1), e)) (end_block_events b)"

definition records_of :: "event \<Rightarrow> recorded list" where
  "records_of e = (case decode e of Inr d \<Rightarrow> decoded_rows d | Inl _ \<Rightarrow> [])"

definition block_pendings :: "block \<Rightarrow> pending list" where
  "block_pendings b = concat (map (\<lambda>(i, e). map (\<lambda>r.
     \<lparr>p_event_id = to_i64 i, p_block_timestamp = b_timestamp b, p_record = r\<rparr>) (records_of e))
     (block_events b))"

definition block_records :: "block \<Rightarrow> recorded list" where
  "block_records b = map p_record (block_pendings b)"

definition block_entry_of :: "block \<Rightarrow> block_entry" where
  "block_entry_of b = (b_height b, b_timestamp b, hex_to_bytes (b_hash b))"

definition depth_pendings :: "block \<Rightarrow> (string \<times> depth) list \<Rightarrow> pending_depth list" where
  "depth_pendings b rows = map (\<lambda>(pool, depth).
     \<lparr>pd_pool = pool, pd_depth = depth, pd_block_timestamp = b_timestamp b\<rparr>) rows"

lemma foldl_push_record:
  "foldl (push_record i ts) w rs =
     w\<lparr>w_tracker := apply_events (w_tracker w) rs,
       w_events := w_events w @ map (\<lambda>r. \<lparr>p_event_id = to_i64 i, p_block_timestamp = ts, p_record = r\<rparr>) rs\<rparr>"
  by (induction rs arbitrary: w) (simp_all add: push_record_def apply_events_def)

text \<open>Every field but the set of unknown types, which nothing reads back.\<close>

definition same_writer :: "block_writer \<Rightarrow> block_writer \<Rightarrow> bool" where
  "same_writer v w \<longleftrightarrow> v\<lparr>w_unknown_seen := {}\<rparr> = w\<lparr>w_unknown_seen := {}\<rparr>"

lemma same_writer_fields:
  "same_writer v w \<longleftrightarrow> w_batch_size v = w_batch_size w \<and> w_blocks v = w_blocks w \<and>
     w_events v = w_events w \<and> w_depths v = w_depths w \<and> w_tracker v = w_tracker w"
  by (cases v; cases w) (auto simp: same_writer_def)

definition push_all :: "block_writer \<Rightarrow> i64 \<Rightarrow> (event_id \<times> event) list \<Rightarrow> block_writer" where
  "push_all w ts ies = foldl (\<lambda>w (i, e). push w e i ts) w ies"

lemma push_fields:
  "w_tracker (push w e i ts) = apply_events (w_tracker w) (records_of e)"
  "w_events (push w e i ts) = w_events w @
     map (\<lambda>r. \<lparr>p_event_id = to_i64 i, p_block_timestamp = ts, p_record = r\<rparr>) (records_of e)"
  "w_batch_size (push w e i ts) = w_batch_size w" "w_blocks (push w e i ts) = w_blocks w"
  "w_depths (push w e i ts) = w_depths w"
  by (auto simp: push_def records_of_def foldl_push_record push_record_def apply_events_def
      split: sum.splits decoded.splits)

lemma push_all_fields:
  "w_tracker (push_all w ts ies) = apply_events (w_tracker w) (concat (map (\<lambda>(i, e). records_of e) ies))
   \<and> w_events (push_all w ts ies) = w_events w @ concat (map (\<lambda>(i, e). map (\<lambda>r.
        \<lparr>p_event_id = to_i64 i, p_block_timestamp = ts, p_record = r\<rparr>) (records_of e)) ies)
   \<and> w_batch_size (push_all w ts ies) = w_batch_size w \<and> w_blocks (push_all w ts ies) = w_blocks w
   \<and> w_depths (push_all w ts ies) = w_depths w"
  by (induction ies arbitrary: w) (auto simp: push_all_def push_fields apply_events_def)

lemma foldl_map_pair: "foldl (\<lambda>w (i, e). f w (g i) e) w xs = foldl (\<lambda>w (i, e). f w i e) w (map (\<lambda>(i, e). (g i, e)) xs)"
  by (induction xs arbitrary: w) auto

lemma foldl_concat_map: "foldl (\<lambda>w x. foldl f w (g x)) w xs = foldl f w (concat (map g xs))"
  by (induction xs arbitrary: w) auto

lemma block_records_eq: "block_records b = concat (map (\<lambda>(i, e). records_of e) (block_events b))"
  by (simp add: block_records_def block_pendings_def map_concat comp_def case_prod_unfold)

lemma buffer_block_push_all:
  "buffer_block w b =
     (let w3 = push_all w (b_timestamp b) (block_events b); (changed, tracker) = take_changed (w_tracker w3)
      in w3\<lparr>w_tracker := tracker, w_depths := w_depths w3 @ depth_pendings b changed,
            w_blocks := w_blocks w3 @ [block_entry_of b]\<rparr>)"
proof -
  let ?P = "\<lambda>w i e. push w e i (b_timestamp b)"
  note at_begin = foldl_map_pair [where f = ?P
      and g = "\<lambda>i. (begin_block_id (b_height b))\<lparr>ei_event_index := int i + 1\<rparr>"]
  note at_end = foldl_map_pair [where f = ?P and g = "\<lambda>i. end_block_id (b_height b) (int i + 1)"]
  let ?txs = "\<lambda>(t, tx). map (\<lambda>(i, e). (tx_event_id (b_height b) (int t + 1) (int i + 1), e))
      (List.enumerate 0 (tx_events tx))"
  have "(\<lambda>w (t, tx). foldl (\<lambda>w (i, e). push w e (tx_event_id (b_height b) (int t + 1) (int i + 1))
           (b_timestamp b)) w (List.enumerate 0 (tx_events tx))) =
      (\<lambda>w x. foldl (\<lambda>w (i, e). push w e i (b_timestamp b)) w (?txs x))"
  proof (intro ext, goal_cases)
    case (1 w x)
    show ?case
      using foldl_map_pair [where f = ?P and g = "\<lambda>i. tx_event_id (b_height b) (int (fst x) + 1) (int i + 1)"]
      by (simp add: case_prod_unfold)
  qed
  from arg_cong [OF this] have at_txs: "foldl (\<lambda>w (t, tx). foldl (\<lambda>w (i, e).
        push w e (tx_event_id (b_height b) (int t + 1) (int i + 1)) (b_timestamp b)) w
          (List.enumerate 0 (tx_events tx))) w1 (successful_txs b) =
      foldl (\<lambda>w (i, e). push w e i (b_timestamp b)) w1 (concat (map ?txs (successful_txs b)))" for w1
    unfolding foldl_concat_map [symmetric] .
  show ?thesis
    by (simp only: buffer_block_def at_begin at_txs at_end push_all_def block_events_def
        depth_pendings_def block_entry_of_def Let_def foldl_append)
qed

end
