(* ===== verification/Depth_History.thy ===== *)
theory Depth_History
  imports Histories Writer
begin

text \<open>
  \<open>crates/midgard-api/src/handlers/depths.rs\<close> and \<open>tvl.rs\<close>: the history endpoints that report
  levels, each bucket the state at its close, read by looking back to the newest depth row.
\<close>

section \<open>Depths\<close>

record snapshot =
  sn_asset_e8 :: i64
  sn_rune_e8 :: i64
  sn_synth_e8 :: i64
  sn_units :: i64
  sn_members :: i64

definition no_snapshot :: snapshot where
  "no_snapshot = \<lparr>sn_asset_e8 = 0, sn_rune_e8 = 0, sn_synth_e8 = 0, sn_units = 0, sn_members = 0\<rparr>"

text \<open>\<open>-stake_units\<close> of a withdrawal is \<open>BIGINT\<close> arithmetic.\<close>

definition negated_units :: "row list \<Rightarrow> string + int list" where
  "negated_units rows = collectE (\<lambda>r. to_bigint (- int_cell r ''stake_units'')) rows"

text \<open>
  The moves of units up to a time, with the member each belongs to (\<open>NULL\<close> when a deposit names
  no address).
\<close>

definition unit_moves :: "row list \<Rightarrow> row list \<Rightarrow> string + (string option \<times> int) list" where
  "unit_moves stakes withdrawals =
     map_ok (\<lambda>units.
       map (\<lambda>r. (case opt_text_cell r ''rune_addr'' of None \<Rightarrow> opt_text_cell r ''asset_addr'' | a \<Rightarrow> a,
                 int_cell r ''stake_units'')) stakes
       @ map2 (\<lambda>r u. (opt_text_cell r ''from_addr'', u)) withdrawals units)
     (negated_units withdrawals)"

definition net_units :: "('m \<times> int) list \<Rightarrow> 'm \<Rightarrow> int" where
  "net_units moves m = sum_list (map snd (filter (\<lambda>mv. fst mv = m) moves))"

definition holders :: "('m \<times> int) list \<Rightarrow> 'm list" where
  "holders moves = filter (\<lambda>m. 0 < net_units moves m) (remdups (map fst moves))"

definition depth_row_at :: "string \<Rightarrow> nano \<Rightarrow> database \<Rightarrow> row option" where
  "depth_row_at pool ts db = first_row (\<lambda>r. - ts_of r)
     (filter (\<lambda>r. text_cell r ''pool'' = pool \<and> ts_of r \<le> ts) (db ''block_pool_depths''))"

definition member_count_at :: "string \<Rightarrow> nano \<Rightarrow> database \<Rightarrow> string + i64" where
  "member_count_at pool ts db =
     (let upto = filter (\<lambda>r. text_cell r ''pool'' = pool \<and> ts_of r \<le> ts) in
      map_ok (\<lambda>moves. int (length (holders moves)))
        (unit_moves (upto (db ''stake_events'')) (upto (db ''withdraw_events''))))"

definition snapshot_at :: "string \<Rightarrow> second \<Rightarrow> snapshot asks" where
  "snapshot_at pool at =
     (let ts = to_nano at in
      ask_then (ask (\<lambda>db. Inr (case depth_row_at pool ts db of
          Some r \<Rightarrow> (int_cell r ''asset_e8'', int_cell r ''rune_e8'', int_cell r ''synth_e8'', int_cell r ''units'')
        | None \<Rightarrow> (0, 0, 0, 0)))) (\<lambda>(asset_e8, rune_e8, synth_e8, units).
      ask_then (ask (member_count_at pool ts)) (\<lambda>members.
      returns (Inr \<lparr>sn_asset_e8 = asset_e8, sn_rune_e8 = rune_e8, sn_synth_e8 = synth_e8,
                    sn_units = units, sn_members = members\<rparr>))))"

definition price_shift_loss :: "snapshot \<Rightarrow> snapshot \<Rightarrow> f64" where
  "price_shift_loss a z =
     (if sn_asset_e8 a \<le> 0 \<or> sn_rune_e8 a \<le> 0 \<or> sn_asset_e8 z \<le> 0 \<or> sn_rune_e8 z \<le> 0 then Zero False
      else let p0 = f64_div (f64_of_i64 (sn_rune_e8 a)) (f64_of_i64 (sn_asset_e8 a));
               p1 = f64_div (f64_of_i64 (sn_rune_e8 z)) (f64_of_i64 (sn_asset_e8 z)) in
        if f64_le p0 (Zero False) then Zero False
        else let r = f64_div p1 p0 in
          f64_sub (f64_div (f64_mul (f64_of_i64 2) (f64_sqrt r)) (f64_add (f64_of_i64 1) r)) (f64_of_i64 1))"

definition depth_item :: "f64 \<Rightarrow> second \<Rightarrow> second \<Rightarrow> snapshot \<Rightarrow> depth_history_item" where
  "depth_item rune_usd from_s until_s sn =
     (let price = asset_price (sn_asset_e8 sn) (sn_rune_e8 sn) in
     \<lparr>dh_start_time = int_to_string from_s, dh_end_time = int_to_string until_s,
      dh_asset_depth = int_str (sn_asset_e8 sn), dh_rune_depth = int_str (sn_rune_e8 sn),
      dh_asset_price = float_str price, dh_asset_price_usd = float_str (f64_mul price rune_usd),
      dh_liquidity_units = int_str (sn_units sn), dh_synth_units = int_str 0,
      dh_synth_supply = int_str (sn_synth_e8 sn), dh_units = int_str (sn_units sn),
      dh_members_count = int_str (sn_members sn),
      dh_luvi = float_str (luvi (sn_asset_e8 sn) (sn_rune_e8 sn) (sn_units sn))\<rparr>)"

definition depth_meta :: "buckets \<Rightarrow> snapshot \<Rightarrow> snapshot \<Rightarrow> depth_history_meta" where
  "depth_meta b a z =
     (let start_luvi = luvi (sn_asset_e8 a) (sn_rune_e8 a) (sn_units a);
          end_luvi = luvi (sn_asset_e8 z) (sn_rune_e8 z) (sn_units z) in
     \<lparr>dm_start_time = int_to_string (bu_start b), dm_end_time = int_to_string (bu_end b),
      dm_start_asset_depth = int_str (sn_asset_e8 a), dm_start_rune_depth = int_str (sn_rune_e8 a),
      dm_start_lp_units = int_str (sn_units a), dm_start_synth_units = int_str (sn_synth_e8 a),
      dm_start_member_count = int_str (sn_members a),
      dm_end_asset_depth = int_str (sn_asset_e8 z), dm_end_rune_depth = int_str (sn_rune_e8 z),
      dm_end_lp_units = int_str (sn_units z), dm_end_synth_units = int_str (sn_synth_e8 z),
      dm_end_member_count = int_str (sn_members z),
      dm_luvi_increase = float_str (ratio end_luvi start_luvi),
      dm_price_shift_loss = float_str (price_shift_loss a z)\<rparr>)"

definition level_params :: "bucket_params parser" where
  "level_params = take_buckets"

definition depth_history :: "app_state \<Rightarrow> string \<Rightarrow> (string \<times> string) list \<Rightarrow> Models.depth_history asks" where
  "depth_history s pool raw = with_query raw level_params (\<lambda>bp.
     ask_then (returns (generate bp (as_cursor s))) (\<lambda>b.
     ask_then (rune_price_now s (bu_end b)) (\<lambda>rune_usd.
     ask_then (ask_each (snapshot_at pool) (bu_timestamps b)) (\<lambda>snapshots.
     let intervals = map (\<lambda>i. depth_item rune_usd (wi_from (bucket b i)) (wi_until (bucket b i)) (snapshots ! (i + 1)))
           [0..<bu_count b];
         a = (case snapshots of [] \<Rightarrow> no_snapshot | x # _ \<Rightarrow> x);
         z = (if snapshots = [] then no_snapshot else last snapshots)
     in returns (Inr \<lparr>dp_intervals = intervals, dp_meta = depth_meta b a z\<rparr>)))))"

section \<open>Total value locked\<close>

definition tvl_item :: "f64 \<Rightarrow> second \<Rightarrow> second \<Rightarrow> (string \<times> i64) list \<Rightarrow> tvl_history_item" where
  "tvl_item rune_usd start_s end_s depths =
     (let pooled = sum64 (map (\<lambda>(_, rune_e8). wrap64 (rune_e8 * 2)) depths) in
     \<lparr>tv_start_time = int_to_string start_s, tv_end_time = int_to_string end_s,
      tv_total_value_pooled = int_str pooled, tv_total_value_bonded = int_str 0,
      tv_total_value_locked = int_str pooled, tv_rune_price_usd = float_str rune_usd,
      tv_pools_depth = map (\<lambda>(pool, rune_e8). \<lparr>td_pool = pool, td_total_depth = int_str (wrap64 (rune_e8 * 2))\<rparr>) depths\<rparr>)"

definition pool_depths_at :: "app_state \<Rightarrow> nano \<Rightarrow> (string \<times> i64) list asks" where
  "pool_depths_at s at = ask (\<lambda>db. Inr (filter (\<lambda>(_, rune_e8). 0 < rune_e8)
     (map (\<lambda>r. (text_cell r ''pool'', int_cell r ''rune_e8'')) (depths_until (as_collate s) at db))))"

definition tvl_history :: "app_state \<Rightarrow> (string \<times> string) list \<Rightarrow> tvl_history_item history asks" where
  "tvl_history s raw = with_query raw level_params (\<lambda>bp.
     ask_then (returns (generate bp (as_cursor s))) (\<lambda>b.
     ask_then (rune_price_now s (bu_end b)) (\<lambda>rune_usd.
     ask_then (ask_each (\<lambda>i. let w = bucket b i in
         ask_then (pool_depths_at s (to_nano (wi_until w))) (\<lambda>depths.
         returns (Inr (tvl_item rune_usd (wi_from w) (wi_until w) depths)))) [0..<bu_count b]) (\<lambda>intervals.
     ask_then (pool_depths_at s (to_nano (bu_end b))) (\<lambda>final_depths.
     returns (Inr \<lparr>hi_intervals = intervals,
                   hi_meta = tvl_item rune_usd (bu_start b) (bu_end b) final_depths\<rparr>))))))"

section \<open>Lemmas\<close>

lemma clean_snapshot [clean_intros]: "fails_clean (snapshot_at pool at)"
  unfolding snapshot_at_def Let_def case_prod_unfold by (intro clean_intros)

lemma clean_depth_history [clean_intros]: "fails_clean (depth_history s pool raw)"
  unfolding depth_history_def Let_def by (intro clean_intros)

lemma clean_tvl_history [clean_intros]: "fails_clean (tvl_history s raw)"
  unfolding tvl_history_def pool_depths_at_def Let_def by (intro clean_intros)

lemma knows_level_params: "knows level_params {''from'', ''to'', ''count'', ''interval''}"
  unfolding level_params_def by (intro knows_intros) auto

end
