(* ===== verification/Earnings_History.thy ===== *)
theory Earnings_History
  imports Histories
begin

text \<open>
  \<open>crates/midgard-api/src/handlers/earnings.rs\<close>: fees and rewards per pool, rewards of the bond,
  by bucket. A \<open>HashMap\<close> from pools to amounts is an association list with distinct keys; where
  the code walks its keys it sorts them first.
\<close>

type_synonym amounts = "(string \<times> i64) list"

definition amount_of :: "amounts \<Rightarrow> string \<Rightarrow> i64" where
  "amount_of m pool = unwrap_or 0 (map_of m pool)"

text \<open>\<open>*m.entry(pool).or_default() += v\<close>.\<close>

fun bump :: "string \<Rightarrow> i64 \<Rightarrow> amounts \<Rightarrow> amounts" where
  "bump pool v [] = [(pool, v)]"
| "bump pool v ((p, x) # m) = (if p = pool then (p, wrap64 (x + v)) # m else (p, x) # bump pool v m)"

definition bump_all :: "amounts \<Rightarrow> amounts \<Rightarrow> amounts" where
  "bump_all new m = fold (\<lambda>(pool, v). bump pool v) new m"

definition pool_names :: "amounts \<Rightarrow> amounts \<Rightarrow> string list" where
  "pool_names fees rewards = remdups_adj (sort (map fst fees @ map fst rewards))"

definition earnings_pool :: "amounts \<Rightarrow> amounts \<Rightarrow> string \<Rightarrow> earnings_history_item_pool" where
  "earnings_pool fees rewards name =
     (let fee = amount_of fees name; reward = amount_of rewards name in
     \<lparr>ep_pool = name, ep_asset_liquidity_fees = int_str 0, ep_rune_liquidity_fees = int_str fee,
      ep_total_liquidity_fees_rune = int_str fee, ep_rewards = int_str reward,
      ep_earnings = int_str (wrap64 (fee + reward)), ep_saver_earning = int_str 0\<rparr>)"

definition earnings_item :: "f64 \<Rightarrow> second \<Rightarrow> second \<Rightarrow> amounts \<Rightarrow> amounts \<Rightarrow> i64 \<Rightarrow> earnings_history_item" where
  "earnings_item rune_usd start_s end_s fees rewards bond_amount =
     (let names = pool_names fees rewards;
          total_fees = sum64 (map (amount_of fees) names);
          total_rewards = sum64 (map (amount_of rewards) names) in
     \<lparr>eh_start_time = int_to_string start_s, eh_end_time = int_to_string end_s,
      eh_liquidity_fees = int_str total_fees,
      eh_block_rewards = int_str (wrap64 (bond_amount + total_rewards)),
      eh_earnings = int_str (wrap64 (total_fees + bond_amount + total_rewards)),
      eh_bonding_earnings = int_str bond_amount,
      eh_liquidity_earnings = int_str (wrap64 (total_fees + total_rewards)),
      eh_avg_node_count = float_str (Zero False),
      eh_rune_price_usd = float_str rune_usd,
      eh_pools = map (earnings_pool fees rewards) names\<rparr>)"

section \<open>The queries\<close>

text \<open>\<open>GROUP BY bucket, pool\<close>, and the map of maps \<open>collect\<close> makes of it.\<close>

definition sums_by_bucket_and_pool ::
    "app_state \<Rightarrow> buckets \<Rightarrow> (row \<Rightarrow> int) \<Rightarrow> row list \<Rightarrow> string + ((second \<times> string) \<times> i64) list" where
  "sums_by_bucket_and_pool s b amount rows =
     group_by (\<lambda>r. (bucket_key (as_date_trunc s) b (ts_of r), text_cell r ''pool''))
       (\<lambda>rs. to_bigint (sum_of amount rs))
       (filter (\<lambda>r. in_span (bu_start b) (bu_end b) (ts_of r)) rows)"

definition collect :: "((second \<times> string) \<times> i64) list \<Rightarrow> second \<Rightarrow> amounts" where
  "collect rows key =
     fold (\<lambda>((_, pool), amount). bump pool amount) (filter (\<lambda>((k, _), _). k = key) rows) []"

definition fees_by_bucket_and_pool :: "app_state \<Rightarrow> buckets \<Rightarrow> (second \<Rightarrow> amounts) asks" where
  "fees_by_bucket_and_pool s b = ask (\<lambda>db. map_ok collect
     (sums_by_bucket_and_pool s b (\<lambda>r. int_cell r ''liq_fee_in_rune_e8'') (db ''swap_events'')))"

definition rewards_by_bucket_and_pool :: "app_state \<Rightarrow> buckets \<Rightarrow> (second \<Rightarrow> amounts) asks" where
  "rewards_by_bucket_and_pool s b = ask (\<lambda>db. map_ok collect
     (sums_by_bucket_and_pool s b (\<lambda>r. int_cell r ''rune_e8'') (db ''rewards_event_entries'')))"

definition bond_rewards_by_bucket :: "app_state \<Rightarrow> buckets \<Rightarrow> (second \<times> i64) list asks" where
  "bond_rewards_by_bucket s b = ask (\<lambda>db.
     grouped ts_of (sum_of (\<lambda>r. int_cell r ''bond_e8'')) i64_ok (as_date_trunc s) b (db ''rewards_events''))"

definition earnings_history :: "app_state \<Rightarrow> (string \<times> string) list \<Rightarrow> earnings_history_item history asks" where
  "earnings_history s raw = with_query raw take_buckets (\<lambda>bp.
     ask_then (returns (generate bp (as_cursor s))) (\<lambda>b.
     ask_then (rune_price_now s (bu_end b)) (\<lambda>rune_usd.
     ask_then (fees_by_bucket_and_pool s b) (\<lambda>fees.
     ask_then (rewards_by_bucket_and_pool s b) (\<lambda>rewards.
     ask_then (bond_rewards_by_bucket s b) (\<lambda>bond.
     let keys = map (\<lambda>i. wi_from (bucket b i)) [0..<bu_count b];
         meta_fees = fold (\<lambda>key. bump_all (fees key)) keys [];
         meta_rewards = fold (\<lambda>key. bump_all (rewards key)) keys [];
         meta_bond = foldl (\<lambda>a v. wrap64 (a + v)) 0 (map (totals_at 0 bond b) [0..<bu_count b])
     in returns (Inr
       \<lparr>hi_intervals = map (\<lambda>i. let w = bucket b i in
           earnings_item rune_usd (wi_from w) (wi_until w) (fees (wi_from w)) (rewards (wi_from w)) (totals_at 0 bond b i))
           [0..<bu_count b],
        hi_meta = earnings_item rune_usd (bu_start b) (bu_end b) meta_fees meta_rewards meta_bond\<rparr>)))))))"

section \<open>Lemmas\<close>

interpretation bond: bucket_totals ts_of "sum_of (\<lambda>r. int_cell r ''bond_e8'')" i64_ok wrap64 0 "\<lambda>a v. wrap64 (a + v)"
  by unfold_locales (auto simp: i64_ok_def intro: sum_of_perm)

lemma amount_of_bump: "i64_ok (amount_of m q) \<Longrightarrow> i64_ok v \<Longrightarrow>
  amount_of (bump pool v m) q = (if q = pool then wrap64 (amount_of m q + v) else amount_of m q)"
  by (induction pool v m rule: bump.induct) (auto simp: amount_of_def)

lemma sorted_distinct: "sorted xs \<Longrightarrow> distinct (remdups_adj (xs :: 'a::linorder list))"
  by (induction xs rule: remdups_adj.induct) (auto simp: antisym)

lemma pool_names_sorted: "sorted (pool_names fees rewards)" "distinct (pool_names fees rewards)"
  "set (pool_names fees rewards) = fst ` set fees \<union> fst ` set rewards"
  by (auto simp: pool_names_def sorted_remdups_adj sorted_distinct)

lemma clean_earnings_history [clean_intros]: "fails_clean (earnings_history s raw)"
  unfolding earnings_history_def fees_by_bucket_and_pool_def rewards_by_bucket_and_pool_def
    bond_rewards_by_bucket_def Let_def by (intro clean_intros)

end
