(* ===== verification/Actions_Feed.thy ===== *)
theory Actions_Feed
  imports Requests Event_Ids Assets
begin

text \<open>
  \<open>crates/midgard-api/src/handlers/actions.rs\<close>: the feed of swaps, deposits and withdrawals, newest
  first, page by page. Each kind is a query of its own table with the filters, the token and the
  limit; the handler merges the three, sorts and cuts to the limit.
\<close>

definition DEFAULT_LIMIT :: i64 where "DEFAULT_LIMIT = 50"

definition wants :: "string option \<Rightarrow> string \<Rightarrow> bool" where
  "wants flt kind = (case flt of None \<Rightarrow> True
     | Some f \<Rightarrow> list_ex (\<lambda>t. eq_ignore_ascii_case (trim t) kind) (split_on CHR '','' f))"

definition limit_of :: "app_state \<Rightarrow> i64 parser" where
  "limit_of s =
     (let mx = wrap64 (max_limit (ep_action_params (cf_endpoints (as_config s)))) in
      then_take (take_i64 ''limit'') (\<lambda>l. case l of
        None \<Rightarrow> done_with (min DEFAULT_LIMIT mx)
      | Some n \<Rightarrow> if 1 \<le> n \<and> n \<le> mx then done_with n
          else fail_with (BadRequest (quoted ''limit'' @ '' must be between 1 and '' @ int_to_string mx
                 @ '', got '' @ int_to_string n))))"

text \<open>\<open>WHERE (token) AND (address) AND (pool) ORDER BY event_id DESC LIMIT\<close>.\<close>

definition selected :: "i64 option \<Rightarrow> (row \<Rightarrow> bool) \<Rightarrow> string option \<Rightarrow> row \<Rightarrow> bool" where
  "selected before addressed asset r \<longleftrightarrow>
     (case before of None \<Rightarrow> True | Some b \<Rightarrow> int_cell r ''event_id'' < b) \<and> addressed r \<and> of_pool asset r"

definition page_of :: "(row \<Rightarrow> bool) \<Rightarrow> i64 \<Rightarrow> row list \<Rightarrow> row list" where
  "page_of P limit rows = take (nat limit) (sort_key (\<lambda>r. - int_cell r ''event_id'') (filter P rows))"

definition from_address :: "string option \<Rightarrow> row \<Rightarrow> bool" where
  "from_address address r = (case address of None \<Rightarrow> True | Some a \<Rightarrow> opt_text_cell r ''from_addr'' = Some a)"

definition either_address :: "string option \<Rightarrow> row \<Rightarrow> bool" where
  "either_address address r = (case address of None \<Rightarrow> True
     | Some a \<Rightarrow> opt_text_cell r ''rune_addr'' = Some a \<or> opt_text_cell r ''asset_addr'' = Some a)"

type_synonym feed_row = "i64 \<times> action"

definition coin_leg :: "string \<Rightarrow> string \<Rightarrow> string \<Rightarrow> i64 \<Rightarrow> transaction" where
  "coin_leg address tx asset amount =
     \<lparr>tn_address = address, tn_tx_id = tx, tn_coins = [\<lparr>ac_asset = asset, ac_amount = int_str amount\<rparr>]\<rparr>"

definition swap_action :: "row \<Rightarrow> feed_row" where
  "swap_action r =
     (let event_id = int_cell r ''event_id'' in
      (event_id,
       \<lparr>an_date = int_str (ts_of r), an_height = int_str (height_of event_id), an_action_type = ''swap'',
        an_status = ''success'', an_pools = [text_cell r ''pool''],
        an_inputs = [coin_leg (text_cell r ''from_addr'') (text_cell r ''tx'') (text_cell r ''from_asset'') (int_cell r ''from_e8'')],
        an_outputs = [coin_leg [] [] (text_cell r ''to_asset'') (int_cell r ''to_e8'')],
        an_metadata = JObj [(''swap'', JObj [(''memo'', JStr (text_cell r ''memo''))])]\<rparr>))"

definition deposit_action :: "row \<Rightarrow> feed_row" where
  "deposit_action r =
     (let event_id = int_cell r ''event_id''; pool = text_cell r ''pool'';
          rune_e8 = int_cell r ''rune_e8''; asset_e8 = int_cell r ''asset_e8'' in
      (event_id,
       \<lparr>an_date = int_str (ts_of r), an_height = int_str (height_of event_id), an_action_type = ''addLiquidity'',
        an_status = ''success'', an_pools = [pool],
        an_inputs =
          (if 0 < rune_e8 then [coin_leg (text_cell r ''rune_addr'') [] NATIVE_RUNE rune_e8] else [])
          @ (if 0 < asset_e8 then [coin_leg (text_cell r ''asset_addr'') [] pool asset_e8] else []),
        an_outputs = [],
        an_metadata = JObj [(''addLiquidity'', JObj [(''liquidityUnits'', JStr (int_str (int_cell r ''stake_units'')))])]\<rparr>))"

definition withdraw_action :: "row \<Rightarrow> feed_row" where
  "withdraw_action r =
     (let event_id = int_cell r ''event_id''; pool = text_cell r ''pool''; from_addr = text_cell r ''from_addr'';
          rune_e8 = int_cell r ''emit_rune_e8''; asset_e8 = int_cell r ''emit_asset_e8'' in
      (event_id,
       \<lparr>an_date = int_str (ts_of r), an_height = int_str (height_of event_id), an_action_type = ''withdraw'',
        an_status = ''success'', an_pools = [pool],
        an_inputs = [\<lparr>tn_address = from_addr, tn_tx_id = text_cell r ''tx'', tn_coins = []\<rparr>],
        an_outputs =
          (if 0 < rune_e8 then [coin_leg from_addr [] NATIVE_RUNE rune_e8] else [])
          @ (if 0 < asset_e8 then [coin_leg from_addr [] pool asset_e8] else []),
        an_metadata = JObj [(''withdraw'', JObj
          [(''liquidityUnits'', JStr (int_str (wrap64 (- int_cell r ''stake_units'')))),
           (''basisPoints'', JStr (int_str (int_cell r ''basis_points'')))])]\<rparr>))"

definition swap_feed :: "string option \<Rightarrow> string option \<Rightarrow> i64 option \<Rightarrow> i64 \<Rightarrow> feed_row list asks" where
  "swap_feed address asset before limit = ask (\<lambda>db. Inr (map swap_action
     (page_of (selected before (from_address address) asset) limit (db ''swap_events''))))"

definition deposit_feed :: "string option \<Rightarrow> string option \<Rightarrow> i64 option \<Rightarrow> i64 \<Rightarrow> feed_row list asks" where
  "deposit_feed address asset before limit = ask (\<lambda>db. Inr (map deposit_action
     (page_of (selected before (either_address address) asset) limit (db ''stake_events''))))"

definition withdraw_feed :: "string option \<Rightarrow> string option \<Rightarrow> i64 option \<Rightarrow> i64 \<Rightarrow> feed_row list asks" where
  "withdraw_feed address asset before limit = ask (\<lambda>db. Inr (map withdraw_action
     (page_of (selected before (from_address address) asset) limit (db ''withdraw_events''))))"

section \<open>The handler\<close>

record action_query =
  aq_address :: "string option"
  aq_asset :: "string option"
  aq_type :: "string option"
  aq_next_token :: "i64 option"
  aq_limit :: i64

definition action_query_params :: "app_state \<Rightarrow> action_query parser" where
  "action_query_params s =
     then_take (take_string ''address'') (\<lambda>address.
     then_take (take_string ''asset'') (\<lambda>asset.
     then_take (take_string ''type'') (\<lambda>action_type.
     then_take (take_i64 ''nextPageToken'') (\<lambda>next_token.
     then_take (limit_of s) (\<lambda>limit.
     done_with \<lparr>aq_address = address, aq_asset = asset, aq_type = action_type,
                aq_next_token = next_token, aq_limit = limit\<rparr>)))))"

definition when_wanted :: "bool \<Rightarrow> feed_row list asks \<Rightarrow> feed_row list asks" where
  "when_wanted c m = (if c then m else returns (Inr []))"

definition feed_page :: "action_query \<Rightarrow> feed_row list asks" where
  "feed_page q =
     ask_then (when_wanted (wants (aq_type q) ''swap'')
       (swap_feed (aq_address q) (aq_asset q) (aq_next_token q) (aq_limit q))) (\<lambda>sw.
     ask_then (when_wanted (wants (aq_type q) ''addLiquidity'')
       (deposit_feed (aq_address q) (aq_asset q) (aq_next_token q) (aq_limit q))) (\<lambda>de.
     ask_then (when_wanted (wants (aq_type q) ''withdraw'')
       (withdraw_feed (aq_address q) (aq_asset q) (aq_next_token q) (aq_limit q))) (\<lambda>wi.
     returns (Inr (take (nat (aq_limit q)) (sort_key (\<lambda>r. - fst r) (sw @ de @ wi)))))))"

definition next_token_of :: "feed_row list \<Rightarrow> i64" where
  "next_token_of rows = (if rows = [] then 0 else fst (last rows))"

definition actions_response :: "action_query \<Rightarrow> feed_row list \<Rightarrow> actions" where
  "actions_response q rows =
     \<lparr>fa_actions = map snd rows, fa_count = int_str (int (length rows)),
      fa_meta = \<lparr>am_next_page_token = int_str (next_token_of rows),
                 am_prev_page_token = int_str (unwrap_or 0 (aq_next_token q))\<rparr>\<rparr>"

definition actions_feed :: "app_state \<Rightarrow> (string \<times> string) list \<Rightarrow> actions asks" where
  "actions_feed s raw = with_query raw (action_query_params s) (\<lambda>q.
     ask_then (feed_page q) (\<lambda>rows. returns (Inr (actions_response q rows))))"

section \<open>Cutting before merging loses nothing\<close>

definition top :: "nat \<Rightarrow> feed_row list \<Rightarrow> feed_row list" where
  "top n xs = take n (sort_key (\<lambda>r. - fst r) xs)"

lemma take_insort: "take n (insort_key f y (take n t)) = take n (insort_key f y t)"
proof (induction t arbitrary: n)
  case (Cons x t)
  show ?case
  proof (cases n)
    case (Suc m)
    have "take m (x # take m t) = take m (x # t)" by (cases m) simp_all
    with Suc Cons.IH [of m] show ?thesis by (simp only: take_Suc_Cons insort_key.simps split: if_split) simp
  qed simp
qed simp

lemma top_Cons:
  assumes "top n xs = top n ys"
  shows "top n (z # xs) = top n (z # ys)"
proof -
  let ?f = "\<lambda>r. - fst r" and ?ins = "insort_key (\<lambda>r :: feed_row. - fst r) z"
  have "take n (?ins (sort_key ?f xs)) = take n (?ins (take n (sort_key ?f xs)))" by (rule take_insort [symmetric])
  also have "\<dots> = take n (?ins (take n (sort_key ?f ys)))" using assms by (simp add: top_def)
  also have "\<dots> = take n (?ins (sort_key ?f ys))" by (rule take_insort)
  finally show ?thesis by (simp add: top_def)
qed

lemma top_append: "top n xs = top n ys \<Longrightarrow> top n (zs @ xs) = top n (zs @ ys)"
proof (induction zs)
  case (Cons z zs)
  from top_Cons [OF Cons.IH [OF Cons.prems], of z] show ?case by simp
qed simp

lemma sorted_take: "sorted (map f xs) \<Longrightarrow> sorted (map f (take n xs))"
  by (simp add: sorted_wrt_take take_map [symmetric])

lemma top_top [simp]: "top n (top n xs) = top n xs"
proof -
  have "sorted (map (\<lambda>r. - fst r) (top n xs))" unfolding top_def by (rule sorted_take) simp
  then show ?thesis by (simp add: top_def sort_key_id_if_sorted)
qed

lemma top_perm:
  assumes "mset xs = mset ys" "distinct (map fst xs)"
  shows "top n xs = top n ys"
proof -
  have "inj_on (\<lambda>r. - fst r) (set xs)" using assms(2) by (auto simp: distinct_map inj_on_def)
  then have "sort_key (\<lambda>r. - fst r) xs = sort_key (\<lambda>r. - fst r) ys"
    by (intro sort_key_inj_key_eq) (simp_all add: assms(1))
  then show ?thesis by (simp add: top_def)
qed

lemma distinct_top:
  assumes "distinct (map fst xs)"
  shows "distinct (map fst (top n xs))" "set (top n xs) \<subseteq> set xs"
proof -
  have "mset (map fst (sort_key (\<lambda>r. - fst r) xs)) = mset (map fst xs)" by simp
  then have "distinct (map fst (sort_key (\<lambda>r. - fst r) xs))" using assms mset_eq_imp_distinct_iff by blast
  then show "distinct (map fst (top n xs))" by (simp add: top_def take_map [symmetric] distinct_take)
  show "set (top n xs) \<subseteq> set xs" unfolding top_def by (metis set_sort set_take_subset)
qed

lemma top_commute:
  assumes "distinct (map fst (xs @ ys))"
  shows "top n (top n xs @ ys) = top n (xs @ ys)"
proof -
  have "distinct (map fst (top n xs @ ys))"
    using assms distinct_top [of xs n] by auto
  then have "top n (top n xs @ ys) = top n (ys @ top n xs)" by (intro top_perm) simp_all
  also have "\<dots> = top n (ys @ xs)" by (rule top_append) simp
  also have "\<dots> = top n (xs @ ys)" using assms by (intro top_perm) auto
  finally show ?thesis .
qed

lemma top_merge:
  assumes "distinct (map fst (xs @ ys @ zs))"
  shows "top n (top n xs @ top n ys @ top n zs) = top n (xs @ ys @ zs)"
proof -
  have "top n (top n xs @ top n ys @ top n zs) = top n (top n xs @ top n ys @ zs)"
    by (intro top_append) simp
  also have "\<dots> = top n (top n xs @ ys @ zs)" by (rule top_append, rule top_commute) (use assms in auto)
  also have "\<dots> = top n (xs @ ys @ zs)" by (rule top_commute) (use assms in simp)
  finally show ?thesis .
qed

section \<open>Pages are slices of the feed\<close>

definition feed :: "action_query \<Rightarrow> database \<Rightarrow> feed_row list" where
  "feed q db =
     (if wants (aq_type q) ''swap''
      then map swap_action (filter (selected None (from_address (aq_address q)) (aq_asset q)) (db ''swap_events'')) else [])
     @ (if wants (aq_type q) ''addLiquidity''
      then map deposit_action (filter (selected None (either_address (aq_address q)) (aq_asset q)) (db ''stake_events'')) else [])
     @ (if wants (aq_type q) ''withdraw''
      then map withdraw_action (filter (selected None (from_address (aq_address q)) (aq_asset q)) (db ''withdraw_events'')) else [])"

definition below :: "i64 option \<Rightarrow> feed_row list \<Rightarrow> feed_row list" where
  "below before xs = (case before of None \<Rightarrow> xs | Some b \<Rightarrow> filter (\<lambda>r. fst r < b) xs)"

lemma action_ids [simp]:
  "fst (swap_action r) = int_cell r ''event_id''" "fst (deposit_action r) = int_cell r ''event_id''"
  "fst (withdraw_action r) = int_cell r ''event_id''"
  by (simp_all add: swap_action_def deposit_action_def withdraw_action_def Let_def)

lemma sort_key_map: "sort_key f (map g xs) = map g (sort_key (\<lambda>x. f (g x)) xs)"
proof (induction xs)
  case (Cons x xs)
  have "insort_key f (g x) (map g ys) = map g (insort_key (\<lambda>x. f (g x)) x ys)" for ys
    by (induction ys) simp_all
  with Cons show ?case by simp
qed simp

lemma page_top:
  assumes "\<And>r. fst (g r) = int_cell r ''event_id''"
  shows "map g (page_of (selected before addressed asset) limit rows) =
    top (nat limit) (below before (map g (filter (selected None addressed asset) rows)))"
proof -
  have "filter (selected before addressed asset) rows =
      (case before of None \<Rightarrow> filter (selected None addressed asset) rows
       | Some b \<Rightarrow> filter (\<lambda>r. int_cell r ''event_id'' < b) (filter (selected None addressed asset) rows))"
    by (auto simp: selected_def split: option.split intro: filter_cong)
  then show ?thesis
    by (auto simp: page_of_def top_def below_def sort_key_map assms take_map filter_map comp_def split: option.split)
qed

lemma distinct_below: "distinct (map fst xs) \<Longrightarrow> distinct (map fst (below before xs))"
  by (cases before) (simp_all add: below_def distinct_map_filter)

lemma below_simps [simp]: "below before [] = []" "below before (xs @ ys) = below before xs @ below before ys"
  by (cases before; simp add: below_def)+

lemma feed_page_answer:
  assumes "distinct (map fst (feed q db))"
  shows "answer (feed_page q) db = Inr (top (nat (aq_limit q)) (below (aq_next_token q) (feed q db)))"
proof -
  let ?n = "nat (aq_limit q)" and ?t = "aq_next_token q"
  define A where "A = (if wants (aq_type q) ''swap''
      then map swap_action (filter (selected None (from_address (aq_address q)) (aq_asset q)) (db ''swap_events'')) else [])"
  define B where "B = (if wants (aq_type q) ''addLiquidity''
      then map deposit_action (filter (selected None (either_address (aq_address q)) (aq_asset q)) (db ''stake_events'')) else [])"
  define C where "C = (if wants (aq_type q) ''withdraw''
      then map withdraw_action (filter (selected None (from_address (aq_address q)) (aq_asset q)) (db ''withdraw_events'')) else [])"
  have feed: "feed q db = A @ B @ C" by (simp add: feed_def A_def B_def C_def)
  have top_Nil: "top n [] = []" for n by (simp add: top_def)
  have "answer (when_wanted (wants (aq_type q) ''swap'') (swap_feed (aq_address q) (aq_asset q) ?t (aq_limit q))) db
        = Inr (top ?n (below ?t A))"
    by (simp add: when_wanted_def swap_feed_def A_def page_top top_Nil)
  moreover have "answer (when_wanted (wants (aq_type q) ''addLiquidity'')
        (deposit_feed (aq_address q) (aq_asset q) ?t (aq_limit q))) db = Inr (top ?n (below ?t B))"
    by (simp add: when_wanted_def deposit_feed_def B_def page_top top_Nil)
  moreover have "answer (when_wanted (wants (aq_type q) ''withdraw'')
        (withdraw_feed (aq_address q) (aq_asset q) ?t (aq_limit q))) db = Inr (top ?n (below ?t C))"
    by (simp add: when_wanted_def withdraw_feed_def C_def page_top top_Nil)
  ultimately have "answer (feed_page q) db = Inr (top ?n (top ?n (below ?t A) @ top ?n (below ?t B) @ top ?n (below ?t C)))"
    by (simp add: feed_page_def top_def)
  moreover have "distinct (map fst (below ?t A @ below ?t B @ below ?t C))"
    using distinct_below [OF assms, of ?t] by (simp add: feed)
  ultimately show ?thesis using top_merge by (simp add: feed)
qed

text \<open>
  A client that follows the tokens: the database may be another one at each request. The token
  goes over the wire as text.
\<close>

fun walk :: "action_query \<Rightarrow> database list \<Rightarrow> feed_row list" where
  "walk q [] = []"
| "walk q (db # dbs) = (case answer (feed_page q) db of
     Inl _ \<Rightarrow> []
   | Inr rows \<Rightarrow> rows @ walk (q\<lparr>aq_next_token :=
       parse_i64 (am_next_page_token (fa_meta (actions_response q rows)))\<rparr>) dbs)"

lemma strictly_sorted: "distinct (map fst (xs :: feed_row list)) \<Longrightarrow> sorted_wrt (\<lambda>a b. fst b < fst a) (sort_key (\<lambda>r. - fst r) xs)"
proof -
  assume d: "distinct (map fst xs)"
  let ?s = "sort_key (\<lambda>r. - fst r) xs"
  have "mset (map fst ?s) = mset (map fst xs)" by simp
  then have "distinct (map fst ?s)" using d mset_eq_imp_distinct_iff by blast
  then have "sorted_wrt (\<lambda>a b. fst a \<noteq> fst b) ?s" by (simp add: distinct_map sorted_wrt_map [symmetric] distinct_conv_nth sorted_wrt_iff_nth_less inj_on_def)
  moreover have "sorted_wrt (\<lambda>a b. - fst a \<le> - fst b) ?s"
    using sorted_sort_key [of "\<lambda>r. - fst r" xs] by (simp add: sorted_map)
  ultimately have s: "sorted_wrt (\<lambda>a b. fst a \<noteq> fst b \<and> - fst a \<le> - fst b) ?s"
    unfolding sorted_wrt_iff_nth_less by blast
  have lt: "b < a" if "a \<noteq> b \<and> - a \<le> - b" for a b :: int using that by linarith
  show ?thesis by (rule sorted_wrt_mono_rel [OF _ s]) (rule lt)
qed

lemma cut_at_last:
  assumes "sorted_wrt (\<lambda>a b. fst b < fst a) xs" "1 \<le> n" "xs \<noteq> []"
  shows "filter (\<lambda>r. fst r < fst (last (take n xs))) xs = drop n (xs :: feed_row list)"
proof -
  let ?A = "take n xs" and ?B = "drop n xs"
  have ne: "?A \<noteq> []" using assms(2,3) by (cases xs) (auto simp: take_eq_Nil)
  have w: "sorted_wrt (\<lambda>a b. fst b < fst a) (?A @ ?B)" using assms(1) by simp
  then have B: "\<forall>b\<in>set ?B. fst b < fst (last ?A)" using ne unfolding sorted_wrt_append by auto
  have "sorted_wrt (\<lambda>a b. fst b < fst a) (butlast ?A @ [last ?A])" using w ne by (simp add: sorted_wrt_append)
  then have "\<forall>a\<in>set (butlast ?A @ [last ?A]). \<not> fst a < fst (last ?A)" by (auto simp: sorted_wrt_append)
  then have A: "\<forall>a\<in>set ?A. \<not> fst a < fst (last ?A)" unfolding append_butlast_last_id [OF ne] .
  have "filter (\<lambda>r. fst r < fst (last ?A)) (?A @ ?B) = ?B"
    unfolding filter_append using A B by (simp add: filter_empty_conv filter_id_conv)
  then show ?thesis by simp
qed

lemma feed_token [simp]: "feed (q\<lparr>aq_next_token := t\<rparr>) db = feed q db"
  by (simp add: feed_def)

lemma walk_slices:
  assumes "1 \<le> aq_limit q" "aq_next_token q = Some hi" "0 \<le> hi"
    and "\<And>db. db \<in> set dbs \<Longrightarrow> distinct (map fst (feed q db)) \<and> filter (\<lambda>r. fst r < hi) (feed q db) = F"
    and "\<And>r. r \<in> set F \<Longrightarrow> 0 < fst r \<and> i64_ok (fst r)"
  shows "walk q dbs = take (length dbs * nat (aq_limit q)) (sort_key (\<lambda>r. - fst r) F)"
  using assms
proof (induction dbs arbitrary: q hi F)
  case (Cons db dbs)
  let ?n = "nat (aq_limit q)" and ?S = "sort_key (\<lambda>r. - fst r) F"
  let ?t = "next_token_of (take ?n ?S)"
  have db: "distinct (map fst (feed q db))" "filter (\<lambda>r. fst r < hi) (feed q db) = F" using Cons.prems(4) by auto
  then have "distinct (map fst F)" by (metis distinct_map_filter)
  note desc = strictly_sorted [OF this]
  have rows: "answer (feed_page q) db = Inr (take ?n ?S)"
    using feed_page_answer [OF db(1)] Cons.prems(2) db(2) by (simp add: below_def top_def)
  have n: "1 \<le> ?n" using Cons.prems(1) by simp
  have "0 \<le> ?t \<and> ?t \<le> hi \<and> i64_ok ?t \<and> filter (\<lambda>r. fst r < ?t) ?S = drop ?n ?S"
  proof (cases "?S = []")
    case True
    then show ?thesis using Cons.prems(3) by (simp add: next_token_of_def i64_ok_def)
  next
    case False
    then have ne: "take ?n ?S \<noteq> []" using n by (auto simp: take_eq_Nil)
    then have l: "last (take ?n ?S) \<in> set F" by (metis last_in_set set_sort set_take_subset subsetD)
    then have "fst (last (take ?n ?S)) < hi" unfolding db(2) [symmetric] by simp
    moreover have "?t = fst (last (take ?n ?S))" using ne by (simp add: next_token_of_def)
    ultimately show ?thesis using Cons.prems(5) [OF l] cut_at_last [OF desc n False] by simp
  qed
  then have t: "0 \<le> ?t" "?t \<le> hi" "i64_ok ?t" "filter (\<lambda>r. fst r < ?t) ?S = drop ?n ?S" by simp_all
  let ?q = "q\<lparr>aq_next_token := Some ?t\<rparr>" and ?F = "filter (\<lambda>r. fst r < ?t) F"
  have "walk ?q dbs = take (length dbs * nat (aq_limit ?q)) (sort_key (\<lambda>r. - fst r) ?F)"
  proof (rule Cons.IH [where hi = ?t])
    show "distinct (map fst (feed ?q d)) \<and> filter (\<lambda>r. fst r < ?t) (feed ?q d) = ?F" if "d \<in> set dbs" for d
    proof -
      have d: "distinct (map fst (feed q d))" "filter (\<lambda>r. fst r < hi) (feed q d) = F"
        using Cons.prems(4) [of d] that by auto
      have "filter (\<lambda>r. fst r < ?t) (feed q d) = filter (\<lambda>r. fst r < ?t) (filter (\<lambda>r. fst r < hi) (feed q d))"
        using t(2) by (simp add: filter_filter) (rule filter_cong, auto)
      with d show ?thesis by simp
    qed
  qed (use Cons.prems t in auto)
  also have "sort_key (\<lambda>r. - fst r) ?F = drop ?n ?S" using t(4) by (simp add: filter_sort)
  finally have rest: "walk ?q dbs = take (length dbs * ?n) (drop ?n ?S)" by simp
  have "parse_i64 (int_str ?t) = Some ?t" using t(3) by (rule int_str_round_trip)
  then have "walk q (db # dbs) = take ?n ?S @ walk ?q dbs" by (simp add: rows actions_response_def)
  then show ?case unfolding rest by (simp add: take_add)
qed simp

lemma clean_feed_page [clean_intros]: "fails_clean (feed_page q)"
  unfolding feed_page_def when_wanted_def swap_feed_def deposit_feed_def withdraw_feed_def
  by (auto intro!: clean_intros)

lemma clean_actions [clean_intros]: "fails_clean (actions_feed s raw)"
  unfolding actions_feed_def by (intro clean_intros)

lemma knows_action_params:
  "knows (action_query_params s) {''address'', ''asset'', ''type'', ''nextPageToken'', ''limit''}"
  unfolding action_query_params_def limit_of_def Let_def
  by (intro knows_intros) (auto intro!: knows_intros split: option.split)

end
