(* ===== verification/Pool_List.thy ===== *)
theory Pool_List
  imports Requests
begin

text \<open>
  \<open>crates/midgard-api/src/handlers/pools.rs\<close>: the pools with their latest depths, prices, volumes
  and yields; one pool; the status of every pool ever seen.
\<close>

definition DEFAULT_PERIOD_DAYS :: i64 where "DEFAULT_PERIOD_DAYS = 14"

record pool_state =
  pl_asset_e8 :: i64
  pl_rune_e8 :: i64
  pl_synth_e8 :: i64
  pl_units :: i64
  pl_status :: string

definition period_days :: "i64 parser" where
  "period_days = then_take (take_i64 ''period'') (\<lambda>d. case d of
     None \<Rightarrow> done_with DEFAULT_PERIOD_DAYS
   | Some n \<Rightarrow> if 0 < n then done_with n
       else fail_with (BadRequest (quoted ''period'' @ '' must be a positive number of days, got '' @ int_to_string n)))"

text \<open>\<open>SELECT DISTINCT ON (asset) asset, status ... ORDER BY asset, block_timestamp DESC\<close>.\<close>

definition latest_statuses :: "app_state \<Rightarrow> database \<Rightarrow> (string \<times> string) list" where
  "latest_statuses s db = map (\<lambda>r. (text_cell r ''asset'', text_cell r ''status''))
     (distinct_on (as_collate s) ''asset'' (db ''pool_events''))"

definition load_pool_states :: "app_state \<Rightarrow> second \<Rightarrow> (string \<times> pool_state) list asks" where
  "load_pool_states s now =
     ask_then (ask (\<lambda>db. Inr (depths_until (as_collate s) (to_nano now) db))) (\<lambda>depths.
     ask_then (ask (\<lambda>db. Inr (latest_statuses s db))) (\<lambda>statuses.
     returns (Inr (map (\<lambda>r. (text_cell r ''pool'',
       \<lparr>pl_asset_e8 = int_cell r ''asset_e8'', pl_rune_e8 = int_cell r ''rune_e8'',
        pl_synth_e8 = int_cell r ''synth_e8'', pl_units = int_cell r ''units'',
        pl_status = unwrap_or ''unknown'' (map_of statuses (text_cell r ''pool''))\<rparr>)) depths))))"

definition swap_volume_since :: "string \<Rightarrow> second \<Rightarrow> i64 asks" where
  "swap_volume_since pool since = ask (\<lambda>db. to_bigint (sum_of
     (\<lambda>r. if int_cell r ''_direction'' \<in> {0, 2, 4, 6} then int_cell r ''from_e8'' else int_cell r ''to_e8'')
     (filter (\<lambda>r. text_cell r ''pool'' = pool \<and> to_nano since \<le> ts_of r) (db ''swap_events''))))"

definition pool_earnings_since :: "string \<Rightarrow> second \<Rightarrow> i64 asks" where
  "pool_earnings_since pool since =
     (let recent = filter (\<lambda>r. text_cell r ''pool'' = pool \<and> to_nano since \<le> ts_of r) in
      ask_then (ask (\<lambda>db. to_bigint (sum_of (\<lambda>r. int_cell r ''liq_fee_in_rune_e8'') (recent (db ''swap_events''))))) (\<lambda>fees.
      ask_then (ask (\<lambda>db. to_bigint (sum_of (\<lambda>r. int_cell r ''rune_e8'') (recent (db ''rewards_event_entries''))))) (\<lambda>rewards.
      returns (Inr (wrap64 (fees + rewards))))))"

definition pool_detail_of ::
    "app_state \<Rightarrow> string \<Rightarrow> pool_state \<Rightarrow> f64 \<Rightarrow> second \<Rightarrow> second \<Rightarrow> i64 \<Rightarrow> i64 \<Rightarrow> pool_detail" where
  "pool_detail_of s asset st rune_usd window_start now vol24 earned =
     (let price = asset_price (pl_asset_e8 st) (pl_rune_e8 st);
          pool_value_rune = f64_mul (f64_of_i64 2) (f64_of_i64 (pl_rune_e8 st));
          apr = ratio (f64_mul (f64_of_i64 earned) (periods_per_year window_start now)) pool_value_rune;
          decimals = unwrap_or UNKNOWN_DECIMALS (map_of (pools_decimal (as_config s)) asset) in
     \<lparr>po_asset = asset, po_status = pl_status st, po_asset_depth = int_str (pl_asset_e8 st),
      po_rune_depth = int_str (pl_rune_e8 st), po_asset_price = float_str price,
      po_asset_price_usd = float_str (f64_mul price rune_usd),
      po_liquidity_units = int_str (pl_units st), po_synth_units = int_str 0,
      po_synth_supply = int_str (pl_synth_e8 st), po_units = int_str (pl_units st),
      po_native_decimal = int_str decimals, po_savers_depth = int_str (pl_synth_e8 st),
      po_savers_units = int_str 0, po_volume_24h = int_str vol24,
      po_annual_percentage_rate = float_str apr, po_pool_apy = float_str (f64_max apr (Zero False)),
      po_earnings = int_str earned, po_earnings_annual_as_percent_of_depth = float_str apr,
      po_liquidity_in_usd = float_str (f64_mul pool_value_rune rune_usd),
      po_lp_luvi = float_str (luvi (pl_asset_e8 st) (pl_rune_e8 st) (pl_units st)),
      po_savers_apr = float_str (Zero False), po_total_collateral = int_str 0,
      po_total_debt_tor = int_str 0\<rparr>)"

definition build_detail ::
    "app_state \<Rightarrow> string \<Rightarrow> pool_state \<Rightarrow> f64 \<Rightarrow> i64 \<Rightarrow> second \<Rightarrow> pool_detail asks" where
  "build_detail s asset st rune_usd period now =
     (let window_start = second_sub now (wrap64 (period * 86400)) in
      ask_then (swap_volume_since asset (second_sub now 86400)) (\<lambda>vol24.
      ask_then (pool_earnings_since asset window_start) (\<lambda>earned.
      returns (Inr (pool_detail_of s asset st rune_usd window_start now vol24 earned)))))"

definition pools_params :: "(string option \<times> i64) parser" where
  "pools_params = then_take (take_string ''status'') (\<lambda>status.
     then_take period_days (\<lambda>period. done_with (map_option to_ascii_lowercase status, period)))"

text \<open>The states are a \<open>HashMap\<close>: its keys come in the order \<open>as_hash_order\<close> of them.\<close>

definition in_hash_order :: "app_state \<Rightarrow> (string \<times> 'a) list \<Rightarrow> (string \<times> 'a) list" where
  "in_hash_order s kvs = List.map_filter (\<lambda>k. map_option (Pair k) (map_of kvs k)) (as_hash_order s (map fst kvs))"

definition deepest_first :: "pool_detail list \<Rightarrow> pool_detail list" where
  "deepest_first = sort_key (\<lambda>d. - unwrap_or 0 (parse_i64 (po_rune_depth d)))"

definition list_pools :: "app_state \<Rightarrow> (string \<times> string) list \<Rightarrow> pool_detail list asks" where
  "list_pools s raw = with_query raw pools_params (\<lambda>(status_filter, period).
     let now = now_second (as_cursor s) in
     ask_then (load_pool_states s now) (\<lambda>states.
     ask_then (rune_price_now s now) (\<lambda>rune_usd.
     ask_then (ask_each (\<lambda>(asset, st). build_detail s asset st rune_usd period now)
         (filter (\<lambda>(_, st). case status_filter of None \<Rightarrow> True | Some want \<Rightarrow> pl_status st = want)
           (in_hash_order s states))) (\<lambda>out.
     returns (Inr (deepest_first out))))))"

definition one_pool :: "app_state \<Rightarrow> string \<Rightarrow> (string \<times> string) list \<Rightarrow> pool_detail asks" where
  "one_pool s asset raw = with_query raw period_days (\<lambda>period.
     let now = now_second (as_cursor s) in
     ask_then (load_pool_states s now) (\<lambda>states.
     ask_then (returns (ok_or (NotFound (''pool '' @ asset @ '' not found'')) (map_of states asset))) (\<lambda>st.
     ask_then (rune_price_now s now) (\<lambda>rune_usd.
     build_detail s asset st rune_usd period now))))"

definition known_pools :: "app_state \<Rightarrow> (string \<times> string) list asks" where
  "known_pools s = ask (\<lambda>db. Inr (latest_statuses s db))"

section \<open>Lemmas\<close>

lemma knows_period: "''period'' \<in> ks \<Longrightarrow> knows period_days ks"
  unfolding period_days_def by (intro knows_intros) (auto intro!: knows_intros split: option.split)

lemma knows_one_pool: "knows period_days {''period''}"
  by (rule knows_period) simp

lemma knows_pools_params: "knows pools_params {''status'', ''period''}"
  unfolding pools_params_def by (intro knows_intros knows_period) auto

lemma clean_build_detail [clean_intros]: "fails_clean (build_detail s asset st rune_usd period now)"
  unfolding build_detail_def swap_volume_since_def pool_earnings_since_def Let_def by (intro clean_intros)

lemma clean_load_states [clean_intros]: "fails_clean (load_pool_states s now)"
  unfolding load_pool_states_def by (intro clean_intros)

lemma clean_list_pools [clean_intros]: "fails_clean (list_pools s raw)"
  unfolding list_pools_def Let_def case_prod_unfold by (intro clean_intros)

lemma clean_one_pool [clean_intros]: "fails_clean (one_pool s asset raw)"
  unfolding one_pool_def Let_def by (intro clean_intros)

lemma clean_known_pools [clean_intros]: "fails_clean (known_pools s)"
  unfolding known_pools_def by (intro clean_intros)

end
