(* ===== verification/Members.thy ===== *)
theory Members
  imports Depth_History
begin

text \<open>
  \<open>crates/midgard-api/src/handlers/members.rs\<close>: who holds units, and one address's position in
  each pool. A position is not stored: it is the sum of deposits and withdrawals.
\<close>

definition members_params :: "string option parser" where
  "members_params = take_string ''pool''"

definition members :: "app_state \<Rightarrow> (string \<times> string) list \<Rightarrow> string list asks" where
  "members s raw = with_query raw members_params (\<lambda>pool.
     ask (\<lambda>db. map_ok (\<lambda>moves. as_collate s
         (holders (List.map_filter (\<lambda>(m, u). map_option (\<lambda>a. (a, u)) m) moves)))
       (unit_moves (filter (of_pool pool) (db ''stake_events'')) (filter (of_pool pool) (db ''withdraw_events'')))))"

section \<open>One member\<close>

text \<open>The rows of the united sub-query, with the column names it gives them.\<close>

definition deposit_move :: "row \<Rightarrow> row" where
  "deposit_move r =
     [(''pool'', cell r ''pool''), (''rune_addr'', cell r ''rune_addr''), (''asset_addr'', cell r ''asset_addr''),
      (''units'', cell r ''stake_units''), (''rune_added'', cell r ''rune_e8''), (''asset_added'', cell r ''asset_e8''),
      (''rune_withdrawn'', VInt 0), (''asset_withdrawn'', VInt 0), (''added_at'', cell r ''block_timestamp'')]"

definition withdrawal_move :: "row \<Rightarrow> int \<Rightarrow> row" where
  "withdrawal_move r units =
     [(''pool'', cell r ''pool''), (''rune_addr'', cell r ''from_addr''), (''asset_addr'', VNull),
      (''units'', VInt units), (''rune_added'', VInt 0), (''asset_added'', VInt 0),
      (''rune_withdrawn'', cell r ''emit_rune_e8''), (''asset_withdrawn'', cell r ''emit_asset_e8''), (''added_at'', VInt 0)]"

definition member_moves :: "string \<Rightarrow> database \<Rightarrow> string + row list" where
  "member_moves addr db =
     (let deposits = filter (\<lambda>r. opt_text_cell r ''rune_addr'' = Some addr \<or> opt_text_cell r ''asset_addr'' = Some addr)
            (db ''stake_events'');
          withdrawals = filter (\<lambda>r. opt_text_cell r ''from_addr'' = Some addr) (db ''withdraw_events'')
      in map_ok (\<lambda>units. map deposit_move deposits @ map2 withdrawal_move withdrawals units)
           (negated_units withdrawals))"

text \<open>\<open>MAX\<close> of a text column by the collation, \<open>COALESCE(MIN(NULLIF(c, 0)), 0)\<close>, \<open>COALESCE(MAX(c), 0)\<close>.\<close>

definition max_text :: "app_state \<Rightarrow> string \<Rightarrow> row list \<Rightarrow> string" where
  "max_text s c rows = (case as_collate s (List.map_filter (\<lambda>r. opt_text_cell r c) rows) of
     [] \<Rightarrow> [] | a # as \<Rightarrow> last (a # as))"

definition min_nonzero :: "int list \<Rightarrow> int" where
  "min_nonzero xs = (case filter (\<lambda>x. x \<noteq> 0) xs of [] \<Rightarrow> 0 | y # ys \<Rightarrow> fold min ys y)"

definition max_or_zero :: "int list \<Rightarrow> int" where
  "max_or_zero xs = (case xs of [] \<Rightarrow> 0 | y # ys \<Rightarrow> fold max ys y)"

definition member_pool_of :: "app_state \<Rightarrow> string \<Rightarrow> row list \<Rightarrow> string + member_pool" where
  "member_pool_of s pool rows =
     (let total = (\<lambda>c. to_bigint (sum_of (\<lambda>r. int_cell r c) rows));
          times = map (\<lambda>r. int_cell r ''added_at'') rows in
      map_ok (\<lambda>ns.
        \<lparr>mp_pool = pool, mp_rune_address = max_text s ''rune_addr'' rows,
         mp_asset_address = max_text s ''asset_addr'' rows,
         mp_liquidity_units = int_str (ns ! 0), mp_rune_added = int_str (ns ! 1),
         mp_asset_added = int_str (ns ! 2), mp_rune_withdrawn = int_str (ns ! 3),
         mp_asset_withdrawn = int_str (ns ! 4), mp_rune_pending = int_str 0, mp_asset_pending = int_str 0,
         mp_date_first_added = int_str (min_nonzero times sdiv 1000000000),
         mp_date_last_added = int_str (max_or_zero times sdiv 1000000000)\<rparr>)
      (collectE total [''units'', ''rune_added'', ''asset_added'', ''rune_withdrawn'', ''asset_withdrawn'']))"

text \<open>\<open>GROUP BY pool HAVING SUM(units) > 0 ORDER BY pool\<close>.\<close>

definition positions :: "app_state \<Rightarrow> row list \<Rightarrow> string + member_pool list" where
  "positions s moves =
     (let in_pool = (\<lambda>p. filter (\<lambda>r. text_cell r ''pool'' = p) moves);
          held = filter (\<lambda>p. 0 < sum_of (\<lambda>r. int_cell r ''units'') (in_pool p))
                   (remdups (map (\<lambda>r. text_cell r ''pool'') moves))
      in collectE (\<lambda>p. member_pool_of s p (in_pool p)) (as_collate s held))"

definition member_details :: "app_state \<Rightarrow> string \<Rightarrow> member_details asks" where
  "member_details s addr =
     ask_then (ask (\<lambda>db. bindE (member_moves addr db) (positions s))) (\<lambda>pools.
     if pools = [] then returns (Inl (NotFound (''no liquidity found for address '' @ addr)))
     else returns (Inr \<lparr>md_pools = pools\<rparr>))"

section \<open>Lemmas\<close>

lemma knows_members_params: "knows members_params {''pool''}"
  unfolding members_params_def by (intro knows_intros) simp

lemma clean_members [clean_intros]: "fails_clean (members s raw)"
  unfolding members_def by (intro clean_intros)

lemma clean_member_details [clean_intros]: "fails_clean (member_details s addr)"
  unfolding member_details_def by (auto intro!: clean_intros)

lemma holders_iff: "m \<in> set (holders moves) \<longleftrightarrow> 0 < net_units moves m"
proof -
  have "net_units moves m = 0" if "m \<notin> fst ` set moves"
  proof -
    have "filter (\<lambda>mv. fst mv = m) moves = []" using that by (force simp: filter_empty_conv)
    then show ?thesis by (simp add: net_units_def)
  qed
  then show ?thesis by (cases "m \<in> fst ` set moves") (auto simp: holders_def)
qed

end
