(* ===== verification/Status_Pages.thy ===== *)
theory Status_Pages
  imports Requests
begin

text \<open>
  \<open>network.rs\<close>, \<open>stats.rs\<close> and \<open>health.rs\<close> of \<open>crates/midgard-api/src/handlers\<close>, and
  \<open>metrics.rs\<close>: the pages on the state of the network and of the process.
\<close>

section \<open>The network\<close>

definition no_bonds :: bond_metrics where
  "no_bonds = \<lparr>bm_total_active_bond = int_str 0, bm_average_active_bond = int_str 0,
     bm_median_active_bond = int_str 0, bm_minimum_active_bond = int_str 0, bm_maximum_active_bond = int_str 0\<rparr>"

definition bond_metrics_of :: "i64 list \<Rightarrow> bond_metrics" where
  "bond_metrics_of bonds =
     (if bonds = [] then no_bonds
      else let total = sum64 bonds; n = length bonds in
        \<lparr>bm_total_active_bond = int_str total, bm_average_active_bond = int_str (wrap64 (total sdiv int n)),
         bm_median_active_bond = int_str (bonds ! (n div 2)),
         bm_minimum_active_bond = int_str (bonds ! 0), bm_maximum_active_bond = int_str (bonds ! (n - 1))\<rparr>)"

definition total_pooled_rune :: "app_state \<Rightarrow> second \<Rightarrow> i64 asks" where
  "total_pooled_rune s now = ask (\<lambda>db. to_bigint (sum_of (\<lambda>r. int_cell r ''rune_e8'')
     (depths_until (as_collate s) (to_nano now) db)))"

definition network_page :: "app_state \<Rightarrow> network asks" where
  "network_page s =
     ask_then (total_pooled_rune s (now_second (as_cursor s))) (\<lambda>total_pooled.
     let nodes = (case get_nodes (as_node_http s) (as_thornode s) of Inr ns \<Rightarrow> ns | Inl _ \<Rightarrow> []);
         active = sort (map bond_e8 (filter is_active nodes))
     in returns (Inr
       \<lparr>nw_active_node_count = int_str (int (length active)),
        nw_standby_node_count = int_str (int (length nodes - length active)),
        nw_total_reserve = int_str 0, nw_total_pooled_rune = int_str total_pooled,
        nw_bonding_apy = float_str (Zero False), nw_liquidity_apy = float_str (Zero False),
        nw_pool_activation_countdown = int_str 0, nw_next_churn_height = int_str 0,
        nw_bond_metrics = bond_metrics_of active\<rparr>))"

section \<open>Statistics\<close>

definition distinct_swappers :: "second option \<Rightarrow> i64 asks" where
  "distinct_swappers since = ask (\<lambda>db. Inr (int (length (remdups
     (map (\<lambda>r. text_cell r ''from_addr'')
       (filter (\<lambda>r. case since of None \<Rightarrow> True | Some t \<Rightarrow> to_nano t \<le> ts_of r) (db ''swap_events'')))))))"

text \<open>The columns of the one row over \<open>swap_events\<close>.\<close>

definition swap_counters :: "nano \<Rightarrow> row list \<Rightarrow> string + i64 list" where
  "swap_counters day_ago rows =
     (let dir = (\<lambda>r. int_cell r ''_direction''); count_if = (\<lambda>P. sum_of (\<lambda>r. if P r then 1 else 0) rows) in
      collectE to_bigint
        [int (length rows),
         sum_of (\<lambda>r. if dir r \<in> {0, 4, 6} then int_cell r ''from_e8'' else int_cell r ''to_e8'') rows,
         count_if (\<lambda>r. dir r \<in> {0, 4, 6}), count_if (\<lambda>r. dir r \<in> {1, 5, 7}),
         count_if (\<lambda>r. dir r = 2), count_if (\<lambda>r. dir r = 3), count_if (\<lambda>r. day_ago \<le> ts_of r)])"

text \<open>A sum of \<open>BIGINT\<close> additions: each addition may be out of range, and so may the cast.\<close>

definition sum_bigints :: "(row \<Rightarrow> int) \<Rightarrow> row list \<Rightarrow> string + i64" where
  "sum_bigints f rows = bindE (collectE (\<lambda>r. to_bigint (f r)) rows) (\<lambda>ns. to_bigint (sum_list ns))"

definition compute_stats :: "app_state \<Rightarrow> stats asks" where
  "compute_stats s =
     (let now = now_second (as_cursor s); day_ago = to_nano (second_sub now 86400) in
      ask_then (rune_price_now s now) (\<lambda>rune_usd.
      ask_then (ask (\<lambda>db. swap_counters day_ago (db ''swap_events''))) (\<lambda>c.
      ask_then (ask (\<lambda>db. map_ok (\<lambda>v. (int (length (db ''stake_events'')), v))
          (sum_bigints (\<lambda>r. int_cell r ''rune_e8'' + int_cell r ''_asset_in_rune_e8'') (db ''stake_events'')))) (\<lambda>(add_count, add_vol).
      ask_then (ask (\<lambda>db. bindE (sum_bigints (\<lambda>r. int_cell r ''emit_rune_e8'' + int_cell r ''_emit_asset_in_rune_e8'')
              (db ''withdraw_events''))
          (\<lambda>v. map_ok (\<lambda>ilp. (int (length (db ''withdraw_events'')), v, ilp))
            (to_bigint (sum_of (\<lambda>r. int_cell r ''imp_loss_protection_e8'') (db ''withdraw_events'')))))) (\<lambda>(wd_count, wd_vol, ilp_paid).
      ask_then (total_pooled_rune s now) (\<lambda>rune_depth.
      ask_then (distinct_swappers None) (\<lambda>unique_swappers.
      ask_then (distinct_swappers (Some (second_sub now 86400))) (\<lambda>daily.
      ask_then (distinct_swappers (Some (second_sub now (30 * 86400)))) (\<lambda>monthly.
      returns (Inr
        \<lparr>sx_rune_price_usd = float_str rune_usd, sx_switched_rune = int_str 0, sx_rune_depth = int_str rune_depth,
         sx_swap_volume = int_str (c ! 1), sx_swap_count = int_str (c ! 0), sx_swap_count_24h = int_str (c ! 6),
         sx_to_asset_count = int_str (c ! 2), sx_to_rune_count = int_str (c ! 3),
         sx_synth_mint_count = int_str (c ! 4), sx_synth_burn_count = int_str (c ! 5),
         sx_daily_active_users = int_str daily, sx_monthly_active_users = int_str monthly,
         sx_unique_swapper_count = int_str unique_swappers,
         sx_add_liquidity_volume = int_str add_vol, sx_add_liquidity_count = int_str add_count,
         sx_withdraw_volume = int_str wd_vol, sx_withdraw_count = int_str wd_count,
         sx_impermanent_loss_protection_paid = int_str ilp_paid\<rparr>)))))))))) "

text \<open>The page: the cache keyed by the committed height, and the queries run.\<close>

definition stats_page :: "app_state \<Rightarrow> stats height_cache \<Rightarrow> reads \<Rightarrow> (error + stats) \<times> stats height_cache \<times> nat" where
  "stats_page s cache reads =
     (case get_or_compute (bp_height (cu_last (as_cursor s))) (fst (compute_stats s reads)) cache of
        (r, cache', computed) \<Rightarrow> (r, cache', if computed then snd (compute_stats s reads) else 0))"

section \<open>Health and metrics\<close>

definition health_page :: "app_state \<Rightarrow> health" where
  "health_page s =
     (let lst = cu_last (as_cursor s);
          committed = \<lparr>ht_height = bp_height lst, ht_timestamp = to_second (bp_timestamp lst)\<rparr>;
          age = wrap64 (as_clock s - ht_timestamp committed);
          in_sync = 0 < bp_height lst \<and> age < wrap64 (max_block_age (as_config s) div 1000000000) in
     \<lparr>he_database = as_ping s, he_in_sync = in_sync, he_scanner_height = int_to_string (ht_height committed),
      he_last_committed = committed,
      he_last_fetched = \<lparr>ht_height = bp_height lst, ht_timestamp = ht_timestamp committed\<rparr>,
      he_last_thornode = \<lparr>ht_height = as_chain_height s, ht_timestamp = 0\<rparr>,
      he_last_aggregated = \<lparr>ht_height = bp_height lst, ht_timestamp = ht_timestamp committed\<rparr>\<rparr>)"

definition gauge :: "string \<Rightarrow> string \<Rightarrow> i64 \<Rightarrow> string" where
  "gauge name help value =
     ''# HELP '' @ name @ '' '' @ help @ newline @ ''# TYPE '' @ name @ '' gauge'' @ newline
     @ name @ '' '' @ int_to_string value @ newline"

definition blocks_behind :: "app_state \<Rightarrow> i64" where
  "blocks_behind s = max (wrap64 (as_chain_height s - bp_height (cu_last (as_cursor s)))) 0"

definition metrics_text :: "app_state \<Rightarrow> string" where
  "metrics_text s =
     (let lst = cu_last (as_cursor s) in
      gauge ''midgard_chain_cursor_height'' ''Height of the newest block committed to the database.'' (bp_height lst)
      @ gauge ''midgard_chain_height'' ''Height of the chain tip as last reported by the node.'' (as_chain_height s)
      @ gauge ''midgard_blocks_behind'' ''Blocks between the committed height and the chain tip.'' (blocks_behind s)
      @ gauge ''midgard_earliest_block_height'' ''Height of the oldest block in the database.''
          (bp_height (cu_first (as_cursor s)))
      @ gauge ''midgard_last_block_timestamp_seconds'' ''Block time of the newest committed block.''
          (to_second (bp_timestamp lst))
      @ gauge ''midgard_database_up'' ''1 if the database answered a ping, 0 otherwise.'' (if as_ping s then 1 else 0))"

section \<open>Lemmas\<close>

lemma clean_network [clean_intros]: "fails_clean (network_page s)"
  unfolding network_page_def total_pooled_rune_def Let_def by (intro clean_intros)

lemma clean_compute_stats [clean_intros]: "fails_clean (compute_stats s)"
  unfolding compute_stats_def total_pooled_rune_def distinct_swappers_def Let_def case_prod_unfold
  by (intro clean_intros)

end
