(* ===== verification/Router.thy ===== *)
theory Router
  imports Swap_History Liquidity_History Depth_History Earnings_History Actions_Feed Pool_List Members Status_Pages
begin

text \<open>
  \<open>crates/midgard-api/src/lib.rs\<close>: the routes, and the answer of each endpoint on the wire. The
  framework hands over the path as its decoded segments and the query string as a map.
\<close>

datatype endpoint =
    Root | HealthPage | MetricsPage | PoolsPage | PoolPage string | KnownPoolsPage
  | DepthsPage string | SwapsPage | EarningsPage | LiquidityPage | TvlPage | ActionsPage
  | MembersPage | MemberPage string | NetworkPage | StatsPage

definition route :: "string list \<Rightarrow> endpoint option" where
  "route path = (case path of
     [] \<Rightarrow> Some Root
   | v # rest \<Rightarrow> if v \<noteq> ''v2'' then None else (case rest of
       [a] \<Rightarrow> map_of [(''health'', HealthPage), (''pools'', PoolsPage), (''knownpools'', KnownPoolsPage),
           (''actions'', ActionsPage), (''members'', MembersPage), (''network'', NetworkPage), (''stats'', StatsPage)] a
     | [a, b] \<Rightarrow> if a = ''debug'' \<and> b = ''metrics'' then Some MetricsPage
         else if a = ''pool'' then Some (PoolPage b)
         else if a = ''member'' then Some (MemberPage b)
         else if a = ''history'' then map_of [(''swaps'', SwapsPage), (''earnings'', EarningsPage),
           (''liquidity_changes'', LiquidityPage), (''tvl'', TvlPage)] b
         else None
     | [a, b, c] \<Rightarrow> if a = ''history'' \<and> b = ''depths'' then Some (DepthsPage c) else None
     | _ \<Rightarrow> None))"

definition root_body :: json where
  "root_body = JObj [(''docs'', JStr ''/v2/doc''), (''health'', JStr ''/v2/health''), (''swagger'', JStr ''/v2/swagger.json'')]"

definition ok_json :: "json \<Rightarrow> response" where
  "ok_json j = \<lparr>rs_status = 200, rs_body = JsonBody j\<rparr>"

definition respond :: "('a \<Rightarrow> json) \<Rightarrow> 'a asks \<Rightarrow> reads \<Rightarrow> response \<times> nat" where
  "respond wire m reads = (case m reads of
     (Inl e, n) \<Rightarrow> (into_response e, n) | (Inr a, n) \<Rightarrow> (ok_json (wire a), n))"

definition known_pools_json :: "(string \<times> string) list \<Rightarrow> json" where
  "known_pools_json kvs = JObj (map (\<lambda>(k, v). (k, JStr v)) kvs)"

text \<open>The response with the number of queries run, for every endpoint but the cached one.\<close>

fun handle :: "app_state \<Rightarrow> endpoint \<Rightarrow> (string \<times> string) list \<Rightarrow> reads \<Rightarrow> response \<times> nat" where
  "handle s Root raw reads = (ok_json root_body, 0)"
| "handle s HealthPage raw reads = (ok_json (json_of_health (health_page s)), 0)"
| "handle s MetricsPage raw reads = (\<lparr>rs_status = 200, rs_body = TextBody (metrics_text s)\<rparr>, 0)"
| "handle s PoolsPage raw reads = respond (\<lambda>ps. JArr (map json_of_pool_detail ps)) (list_pools s raw) reads"
| "handle s (PoolPage asset) raw reads = respond json_of_pool_detail (one_pool s asset raw) reads"
| "handle s KnownPoolsPage raw reads = respond known_pools_json (known_pools s) reads"
| "handle s (DepthsPage pool) raw reads = respond json_of_depth_history (depth_history s pool raw) reads"
| "handle s SwapsPage raw reads = respond (json_of_history json_of_swap_history_item) (swap_history s raw) reads"
| "handle s EarningsPage raw reads = respond (json_of_history json_of_earnings_history_item) (earnings_history s raw) reads"
| "handle s LiquidityPage raw reads = respond (json_of_history json_of_liquidity_history_item) (liquidity_history s raw) reads"
| "handle s TvlPage raw reads = respond (json_of_history json_of_tvl_history_item) (tvl_history s raw) reads"
| "handle s ActionsPage raw reads = respond json_of_actions (actions_feed s raw) reads"
| "handle s MembersPage raw reads = respond (\<lambda>ms. JArr (map JStr ms)) (members s raw) reads"
| "handle s (MemberPage addr) raw reads = respond json_of_member_details (member_details s addr) reads"
| "handle s NetworkPage raw reads = respond json_of_network (network_page s) reads"
| "handle s StatsPage raw reads = respond json_of_stats (compute_stats s) reads"

text \<open>The service: its state between requests is the cache of \<open>/v2/stats\<close>.\<close>

definition serve_request ::
    "app_state \<Rightarrow> string list \<Rightarrow> (string \<times> string) list \<Rightarrow> reads \<Rightarrow> stats height_cache \<Rightarrow>
     response \<times> stats height_cache \<times> nat" where
  "serve_request s path raw reads cache = (case route path of
     None \<Rightarrow> (\<lparr>rs_status = 404, rs_body = TextBody []\<rparr>, cache, 0)
   | Some StatsPage \<Rightarrow> (case stats_page s cache reads of
        (Inl e, cache', n) \<Rightarrow> (into_response e, cache', n)
      | (Inr st, cache', n) \<Rightarrow> (ok_json (json_of_stats st), cache', n))
   | Some ep \<Rightarrow> (case handle s ep raw reads of (r, n) \<Rightarrow> (r, cache, n)))"

section \<open>Which parameters an endpoint knows\<close>

fun known_params :: "endpoint \<Rightarrow> string set option" where
  "known_params PoolsPage = Some {''status'', ''period''}"
| "known_params (PoolPage _) = Some {''period''}"
| "known_params (DepthsPage _) = Some {''from'', ''to'', ''count'', ''interval''}"
| "known_params SwapsPage = Some {''from'', ''to'', ''count'', ''interval'', ''pool''}"
| "known_params EarningsPage = Some {''from'', ''to'', ''count'', ''interval''}"
| "known_params LiquidityPage = Some {''from'', ''to'', ''count'', ''interval'', ''pool''}"
| "known_params TvlPage = Some {''from'', ''to'', ''count'', ''interval''}"
| "known_params ActionsPage = Some {''address'', ''asset'', ''type'', ''nextPageToken'', ''limit''}"
| "known_params MembersPage = Some {''pool''}"
| "known_params _ = None"

lemma respond_unknown:
  assumes "knows m ks" "k \<in> set (map fst raw)" "k \<notin> ks"
  shows "\<exists>msg. respond wire (with_query raw m f) reads = (into_response (BadRequest msg), 0)"
  using query_unknown [OF assms, of f reads] by (auto simp: respond_def)

lemma respond_fails:
  assumes "fails_clean m" "k < snd (respond wire m reads)" "reads k = Inl msg"
  shows "respond wire m reads = (into_response (Internal msg), Suc k)"
proof -
  have "k < snd (m reads)" using assms(2) by (auto simp: respond_def split: prod.splits sum.splits)
  with assms(1,3) have "m reads = (Inl (Internal msg), Suc k)" by (simp add: fails_clean_def)
  then show ?thesis by (simp add: respond_def)
qed

lemma handle_unknown:
  assumes "known_params ep = Some ks" "k \<in> set (map fst raw)" "k \<notin> ks"
  shows "\<exists>msg. handle s ep raw reads = (into_response (BadRequest msg), 0)"
proof (cases ep)
  case PoolsPage
  with assms respond_unknown [OF knows_pools_params, of k raw] show ?thesis by (simp add: list_pools_def)
next
  case (PoolPage asset)
  with assms respond_unknown [OF knows_one_pool, of k raw] show ?thesis by (simp add: one_pool_def)
next
  case (DepthsPage pool)
  with assms respond_unknown [OF knows_level_params, of k raw] show ?thesis by (simp add: depth_history_def)
next
  case SwapsPage
  with assms respond_unknown [OF knows_swap_params, of k raw] show ?thesis by (simp add: swap_history_def)
next
  case EarningsPage
  with assms respond_unknown [OF knows_buckets [of "{''from'', ''to'', ''count'', ''interval''}"], of k raw] show ?thesis by (simp add: earnings_history_def)
next
  case LiquidityPage
  with assms respond_unknown [OF knows_liquidity_params, of k raw] show ?thesis by (simp add: liquidity_history_def)
next
  case TvlPage
  with assms respond_unknown [OF knows_level_params, of k raw] show ?thesis by (simp add: tvl_history_def)
next
  case ActionsPage
  with assms respond_unknown [OF knows_action_params, of k raw] show ?thesis by (simp add: actions_feed_def)
next
  case MembersPage
  with assms respond_unknown [OF knows_members_params, of k raw] show ?thesis by (simp add: members_def)
qed (use assms in simp_all)

lemma handle_fails:
  assumes "k < snd (handle s ep raw reads)" "reads k = Inl msg"
  shows "handle s ep raw reads = (into_response (Internal msg), Suc k)"
  using assms by (cases ep) (auto intro!: respond_fails clean_intros)

end
