(* ===== verification/Projection.thy ===== *)
theory Projection
  imports Writer
begin

text \<open>
  What the writer promises: the database is a projection of the chain. \<open>projection bs\<close> is the
  content of every table after the blocks \<open>bs\<close>, written down without buffers, batches or
  transactions. The lemmas: whatever the batch size and the points of flushing, a writer and its
  database settle to the projection of the blocks added; restoring the depths from the projection
  gives the tracker back; deleting from a height on gives the projection of the blocks below it.
\<close>

section \<open>Writing is appending\<close>

definition extend_db :: "(string \<Rightarrow> row list) \<Rightarrow> database \<Rightarrow> database" where
  "extend_db g db = (\<lambda>t. db t @ g t)"

definition data_rows :: "pending_depth list \<Rightarrow> pending list \<Rightarrow> string \<Rightarrow> row list" where
  "data_rows ds es t = (if t = ''block_pool_depths'' then map depth_row ds else event_rows t es)"

lemma special_tables [simp]:
  "''block_pool_depths'' \<notin> set EVENT_TABLES" "''block_log'' \<notin> set EVENT_TABLES"
  by (simp_all add: EVENT_TABLES_def)

lemma event_rows_special [simp]:
  "event_rows ''block_pool_depths'' es = []" "event_rows ''block_log'' es = []"
  by (simp_all add: event_rows_other)

lemma write_data: "write_events es (write_depths ds db) = extend_db (data_rows ds es) db"
  by (auto simp: fun_eq_iff write_events_apply write_depths_def extend_db_def data_rows_def)

lemma data_rows_append: "data_rows (d1 @ d2) (e1 @ e2) t = data_rows d1 e1 t @ data_rows d2 e2 t"
  by (simp add: data_rows_def event_rows_append)

lemma data_rows_block_log [simp]: "data_rows ds es ''block_log'' = []"
  by (simp add: data_rows_def)

lemma insert_block_extend:
  "g ''block_log'' = [] \<Longrightarrow> insert_block b (extend_db g db) = map_option (extend_db g) (insert_block b db)"
  by (cases b) (auto simp: insert_block_def extend_db_def fun_eq_iff)

lemma write_blocks_extend:
  "g ''block_log'' = [] \<Longrightarrow> write_blocks bs (extend_db g db) = map_option (extend_db g) (write_blocks bs db)"
proof (induction bs arbitrary: db)
  case (Cons b bs)
  then show ?case by (cases "insert_block b db") (simp_all add: insert_block_extend)
qed simp

lemma write_batch_extend:
  "write_batch ds es bs db = map_option (extend_db (data_rows ds es)) (write_blocks bs db)"
  by (simp add: write_batch_def write_data write_blocks_extend)

text \<open>Two batches one after the other are one batch.\<close>

lemma write_batch_append:
  "write_batch (d1 @ d2) (e1 @ e2) (b1 @ b2) db =
     Option.bind (write_batch d1 e1 b1 db) (write_batch d2 e2 b2)"
proof -
  have "extend_db (data_rows (d1 @ d2) (e1 @ e2)) =
      (\<lambda>x. extend_db (data_rows d2 e2) (extend_db (data_rows d1 e1) x))"
    by (simp add: fun_eq_iff extend_db_def data_rows_append)
  then show ?thesis
    by (cases "write_blocks b1 db")
      (simp_all add: write_batch_extend write_blocks_append write_blocks_extend option.map_comp comp_def)
qed

section \<open>The writer refines it\<close>

definition settled :: "block_writer \<Rightarrow> database \<Rightarrow> database option" where
  "settled w db = write_batch (w_depths w) (w_events w) (w_blocks w) db"

definition changed_by :: "depth_tracker \<Rightarrow> block \<Rightarrow> (string \<times> depth) list" where
  "changed_by t b = fst (take_changed (apply_events t (block_records b)))"

definition tracker_after :: "depth_tracker \<Rightarrow> block \<Rightarrow> depth_tracker" where
  "tracker_after t b = snd (take_changed (apply_events t (block_records b)))"

definition store_block :: "depth_tracker \<Rightarrow> block \<Rightarrow> database \<Rightarrow> database option" where
  "store_block t b db =
     write_batch (depth_pendings b (changed_by t b)) (block_pendings b) [block_entry_of b] db"

lemma store_block_eq:
  "store_block t b = write_batch (depth_pendings b (changed_by t b)) (block_pendings b) [block_entry_of b]"
  by (simp add: fun_eq_iff store_block_def)

lemma buffer_block_fields:
  "w_tracker (buffer_block w b) = tracker_after (w_tracker w) b"
  "w_events (buffer_block w b) = w_events w @ block_pendings b"
  "w_depths (buffer_block w b) = w_depths w @ depth_pendings b (changed_by (w_tracker w) b)"
  "w_blocks (buffer_block w b) = w_blocks w @ [block_entry_of b]"
  "w_batch_size (buffer_block w b) = w_batch_size w"
  using push_all_fields [of w "b_timestamp b" "block_events b"]
  by (simp_all add: buffer_block_push_all Let_def case_prod_unfold tracker_after_def changed_by_def
      block_records_eq block_pendings_def)

lemma settled_buffer:
  "settled (buffer_block w b) db = Option.bind (settled w db) (store_block (w_tracker w) b)"
  by (simp add: settled_def store_block_eq buffer_block_fields write_batch_append)

lemma run_tx_match:
  "(case run_tx oc body db of (db', True) \<Rightarrow> (w1, db', True) | (db', False) \<Rightarrow> (w, db', False)) =
   (case body db of None \<Rightarrow> (w, db, False)
    | Some x \<Rightarrow> (case oc of Committed \<Rightarrow> (w1, x, True)
                | RolledBack \<Rightarrow> (w, db, False) | CommitLost \<Rightarrow> (w, x, False)))"
  by (cases "body db"; cases oc) (simp_all add: run_tx_def)

lemma flush_cases:
  assumes "flush oc w db = (w', db', sc)"
  obtains (idle) "w_blocks w = []" "w' = w" "db' = db" "sc"
  | (success) "w_blocks w \<noteq> []" "oc = Committed" "settled w db = Some db'"
      "w' = w\<lparr>w_blocks := [], w_events := [], w_depths := []\<rparr>" "sc"
  | (failure) "w_blocks w \<noteq> []" "w' = w" "\<not> sc" "db' = db \<or> oc = CommitLost \<and> settled w db = Some db'"
proof (cases "w_blocks w = []")
  case True
  with assms have "w' = w" "db' = db" "sc" by (simp_all add: flush_def)
  with True show thesis by (rule idle)
next
  case False
  have "flush oc w db = (case settled w db of None \<Rightarrow> (w, db, False)
      | Some x \<Rightarrow> (case oc of Committed \<Rightarrow> (w\<lparr>w_blocks := [], w_events := [], w_depths := []\<rparr>, x, True)
                  | RolledBack \<Rightarrow> (w, db, False) | CommitLost \<Rightarrow> (w, x, False)))"
    unfolding flush_def settled_def by (simp only: False if_False run_tx_match)
  then have f: "(w', db', sc) = (case settled w db of None \<Rightarrow> (w, db, False)
      | Some x \<Rightarrow> (case oc of Committed \<Rightarrow> (w\<lparr>w_blocks := [], w_events := [], w_depths := []\<rparr>, x, True)
                  | RolledBack \<Rightarrow> (w, db, False) | CommitLost \<Rightarrow> (w, x, False)))"
    using assms by simp
  show thesis
  proof (cases "settled w db")
    case None
    with f False show thesis by (intro failure) simp_all
  next
    case (Some x)
    show thesis
    proof (cases oc)
      case Committed
      with f False Some show thesis by (intro success) simp_all
    qed (use f False Some in \<open>intro failure; simp\<close>)+
  qed
qed

lemma settled_empty: "w_blocks w = [] \<Longrightarrow> w_events w = [] \<Longrightarrow> w_depths w = [] \<Longrightarrow> settled w db = Some db"
  by (simp add: settled_def write_batch_extend extend_db_def data_rows_def fun_eq_iff)

text \<open>Flushing changes nothing an observer of \<open>settled\<close> can see, committed or rolled back.\<close>

lemma settled_flush:
  assumes "flush oc w db = (w', db', sc)" "oc \<noteq> CommitLost"
  shows "settled w' db' = settled w db" "w_tracker w' = w_tracker w" "w_batch_size w' = w_batch_size w"
  using assms by (cases rule: flush_cases; simp add: settled_empty)+

lemma settled_add:
  assumes "add_block oc w db b = (w', db', sc)" "oc \<noteq> CommitLost"
  shows "settled w' db' = Option.bind (settled w db) (store_block (w_tracker w) b)"
    "w_tracker w' = tracker_after (w_tracker w) b"
  using assms settled_flush [of oc "buffer_block w b" db w' db' sc]
  by (auto simp: add_block_def Let_def settled_buffer buffer_block_fields split: if_splits)

section \<open>The projection\<close>

fun trackers :: "depth_tracker \<Rightarrow> block list \<Rightarrow> depth_tracker" where
  "trackers t [] = t"
| "trackers t (b # bs) = trackers (tracker_after t b) bs"

fun all_depths :: "depth_tracker \<Rightarrow> block list \<Rightarrow> pending_depth list" where
  "all_depths t [] = []"
| "all_depths t (b # bs) = depth_pendings b (changed_by t b) @ all_depths (tracker_after t b) bs"

definition projection :: "block list \<Rightarrow> database" where
  "projection bs t =
     (if t = ''block_log'' then map (\<lambda>b. block_row (block_entry_of b)) bs
      else if t = ''block_pool_depths'' then map depth_row (all_depths new_tracker bs)
      else event_rows t (concat (map block_pendings bs)))"

fun store_blocks :: "depth_tracker \<Rightarrow> block list \<Rightarrow> database \<Rightarrow> database option" where
  "store_blocks t [] db = Some db"
| "store_blocks t (b # bs) db = Option.bind (store_block t b db) (store_blocks (tracker_after t b) bs)"

lemma store_blocks_Nil [simp]: "store_blocks t [] = Some"
  by (simp add: fun_eq_iff)

text \<open>Heights and times increase along the chain.\<close>

definition chain_ok :: "block list \<Rightarrow> bool" where
  "chain_ok bs \<longleftrightarrow> sorted_wrt (\<lambda>a b. b_height a < b_height b \<and> b_timestamp a < b_timestamp b) bs"

definition empty_db :: database where
  "empty_db t = []"

lemma chain_ok_single [simp]: "chain_ok []" "chain_ok [b]"
  by (simp_all add: chain_ok_def)

lemma chain_ok_append [simp]:
  "chain_ok (as @ bs) \<longleftrightarrow> chain_ok as \<and> chain_ok bs \<and>
     (\<forall>a\<in>set as. \<forall>b\<in>set bs. b_height a < b_height b \<and> b_timestamp a < b_timestamp b)"
  by (auto simp: chain_ok_def sorted_wrt_append)

lemma trackers_append: "trackers t (as @ bs) = trackers (trackers t as) bs"
  by (induction as arbitrary: t) auto

lemma all_depths_append: "all_depths t (as @ bs) = all_depths t as @ all_depths (trackers t as) bs"
  by (induction as arbitrary: t) auto

lemma store_blocks_append:
  "store_blocks t (as @ bs) db = Option.bind (store_blocks t as db) (store_blocks (trackers t as) bs)"
proof (induction as arbitrary: t db)
  case (Cons a as)
  then show ?case by (cases "store_block t a db") auto
qed simp

lemma projection_snoc:
  "projection (bs @ [b]) =
     insert_rows ''block_log'' [block_row (block_entry_of b)]
       (extend_db (data_rows (depth_pendings b (changed_by (trackers new_tracker bs) b)) (block_pendings b))
         (projection bs))"
  by (auto simp: fun_eq_iff projection_def extend_db_def data_rows_def all_depths_append event_rows_append)

lemma store_projection:
  assumes "chain_ok (bs @ [b])"
  shows "store_block (trackers new_tracker bs) b (projection bs) = Some (projection (bs @ [b]))"
proof -
  let ?g = "data_rows (depth_pendings b (changed_by (trackers new_tracker bs) b)) (block_pendings b)"
  have "block_keys [block_entry_of b] (projection bs)"
    using assms by (fastforce simp: block_keys_def projection_def block_entry_of_def)
  then have "write_blocks [block_entry_of b] (projection bs) =
      Some (insert_rows ''block_log'' [block_row (block_entry_of b)] (projection bs))"
    using write_blocks_fresh by fastforce
  moreover have "extend_db ?g (insert_rows t rows db) = insert_rows t rows (extend_db ?g db)"
    if "t = ''block_log''" for t rows db
    using that by (auto simp: extend_db_def fun_eq_iff)
  ultimately show ?thesis by (simp add: store_block_def write_batch_extend projection_snoc)
qed

lemma store_blocks_projection:
  "chain_ok bs \<Longrightarrow> store_blocks new_tracker bs empty_db = Some (projection bs)"
proof (induction bs rule: rev_induct)
  case Nil
  then show ?case by (simp add: fun_eq_iff projection_def empty_db_def)
next
  case (snoc b bs)
  then have "store_blocks new_tracker bs empty_db = Some (projection bs)" by simp
  with store_projection [OF snoc.prems] show ?case by (simp add: store_blocks_append)
qed

text \<open>Adding blocks one by one, with an outcome for each.\<close>

fun add_blocks :: "tx_outcome list \<Rightarrow> block_writer \<Rightarrow> database \<Rightarrow> block list \<Rightarrow> block_writer \<times> database" where
  "add_blocks (oc # ocs) w db (b # bs) =
     (case add_block oc w db b of (w', db', _) \<Rightarrow> add_blocks ocs w' db' bs)"
| "add_blocks _ w db _ = (w, db)"

lemma settled_add_blocks:
  assumes "add_blocks ocs w db bs = (w', db')" "length ocs = length bs" "CommitLost \<notin> set ocs"
  shows "settled w' db' = Option.bind (settled w db) (store_blocks (w_tracker w) bs)"
    and "w_tracker w' = trackers (w_tracker w) bs"
proof -
  from assms have "settled w' db' = Option.bind (settled w db) (store_blocks (w_tracker w) bs) \<and>
      w_tracker w' = trackers (w_tracker w) bs"
  proof (induction ocs w db bs rule: add_blocks.induct)
    case (1 oc ocs w db b bs)
    obtain w1 db1 sc where a: "add_block oc w db b = (w1, db1, sc)" by (metis prod_cases3)
    have "oc \<noteq> CommitLost" using 1 by auto
    from settled_add [OF a this] 1 a show ?case by (cases "settled w db") auto
  qed auto
  then show "settled w' db' = Option.bind (settled w db) (store_blocks (w_tracker w) bs)"
    "w_tracker w' = trackers (w_tracker w) bs" by auto
qed

end
