(* ===== verification/Recovery.thy ===== *)
theory Recovery
  imports Projection
begin

text \<open>
  Restarts and roll backs on the projection of a chain: \<open>restore\<close> rebuilds the tracker from the
  last depth row of each pool, and \<open>delete_from_height\<close> leaves the projection of the blocks below
  the height.
\<close>

section \<open>The depth rows carry the tracker\<close>

abbreviation depth_pairs :: "pending_depth list \<Rightarrow> (string \<times> depth) list" where
  "depth_pairs ds \<equiv> map (\<lambda>d. (pd_pool d, pd_depth d)) ds"

definition clean :: "depth_tracker \<Rightarrow> bool" where
  "clean t \<longleftrightarrow> tracker_ok t \<and> dirty t = []"

lemma clean_new: "clean new_tracker"
  by (simp add: clean_def tracker_ok_new) (simp add: new_tracker_def)

lemma block_changes:
  assumes "clean t"
  shows "clean (tracker_after t b)" "distinct (map fst (changed_by t b))"
    "current (tracker_after t b) = current t ++ map_of (rev (changed_by t b))"
proof -
  obtain rows t' where r: "take_changed (apply_events t (block_records b)) = (rows, t')" by force
  have ok: "tracker_ok (apply_events t (block_records b))" using assms by (simp add: clean_def)
  note tr = take_changed_rows [OF ok r]
  show "clean (tracker_after t b)" "distinct (map fst (changed_by t b))"
    using tr by (simp_all add: tracker_after_def changed_by_def r clean_def)
  show "current (tracker_after t b) = current t ++ map_of (rev (changed_by t b))"
    using rows_cover_changes [OF _ _ r] assms tr(1)
    by (simp add: tracker_after_def changed_by_def r clean_def map_of_rev_distinct)
qed

lemma depth_pairs_pendings [simp]: "depth_pairs (depth_pendings b rows) = rows"
  by (simp add: depth_pendings_def case_prod_unfold comp_def)

lemma trackers_current:
  "clean t \<Longrightarrow> clean (trackers t bs) \<and>
     current (trackers t bs) = current t ++ map_of (rev (depth_pairs (all_depths t bs)))"
proof (induction bs arbitrary: t)
  case (Cons b bs)
  then show ?case using block_changes [OF Cons.prems, of b] by simp
qed simp

lemma distinct_fst_sorted: "distinct (map fst xs) \<Longrightarrow> sorted_wrt (\<lambda>x y. fst x \<noteq> fst y) xs"
  by (induction xs) (auto intro: rev_image_eqI)

lemma map_filter_total: "(\<And>x. x \<in> set xs \<Longrightarrow> f x = Some (g x)) \<Longrightarrow> List.map_filter f xs = map g xs"
  by (induction xs) (simp_all add: map_filter_simps)

text \<open>No two rows of a pool have the same time, and later rows come later.\<close>

lemma all_depths_times:
  "clean t \<Longrightarrow> chain_ok bs \<Longrightarrow>
   sorted_wrt (\<lambda>c d. pd_pool c = pd_pool d \<longrightarrow> pd_block_timestamp c < pd_block_timestamp d) (all_depths t bs)
   \<and> (\<forall>d\<in>set (all_depths t bs). \<exists>b\<in>set bs. pd_block_timestamp d = b_timestamp b)"
proof (induction bs arbitrary: t)
  case (Cons b bs)
  have co: "chain_ok bs" "\<forall>c\<in>set bs. b_timestamp b < b_timestamp c"
    using Cons.prems(2) chain_ok_append [of "[b]" bs] by simp_all
  have "distinct (map fst (changed_by t b))" using block_changes(2) Cons.prems(1) by blast
  then have "sorted_wrt (\<lambda>c d. pd_pool c = pd_pool d \<longrightarrow> pd_block_timestamp c < pd_block_timestamp d)
      (depth_pendings b (changed_by t b))"
    by (auto simp: depth_pendings_def sorted_wrt_map dest!: distinct_fst_sorted
        elim!: sorted_wrt_mono_rel [rotated])
  moreover have "\<forall>d\<in>set (depth_pendings b (changed_by t b)). pd_block_timestamp d = b_timestamp b"
    by (auto simp: depth_pendings_def)
  ultimately show ?case
    using Cons.IH [OF block_changes(1) [OF Cons.prems(1)] co(1)] co(2)
    by (fastforce simp: sorted_wrt_append)
qed simp

section \<open>Restoring\<close>

lemma map_of_last:
  "map_of (rev (map (\<lambda>x. (k x, v x)) xs)) p =
     (if filter (\<lambda>x. k x = p) xs = [] then None else Some (v (last (filter (\<lambda>x. k x = p) xs))))"
  by (induction xs rule: rev_induct) auto

lemma map_of_rev_graph:
  "map_of (rev (map (\<lambda>p. (p, g p)) ps)) q = (if q \<in> set ps then Some (g q) else None)"
  by (induction ps rule: rev_induct) auto

lemma first_row_last:
  assumes "sorted_wrt (\<lambda>a b. ts a < ts b) rows" "rows \<noteq> []"
  shows "first_row (\<lambda>r. - ts r) rows = Some (last rows)"
proof -
  obtain r where r: "first_row (\<lambda>r. - ts r) rows = Some r"
    using assms(2) by (metis first_row_None not_None_eq)
  note m = first_row_min [OF r]
  have "r = last rows"
  proof (rule ccontr)
    assume "r \<noteq> last rows"
    with m(1) assms(2) have "r \<in> set (butlast rows)"
      by (metis append_butlast_last_id in_set_conv_decomp in_set_butlastD UnE set_append empty_iff
          insertE list.set(1,2))
    moreover have "sorted_wrt (\<lambda>a b. ts a < ts b) (butlast rows @ [last rows])" using assms by simp
    ultimately have "ts r < ts (last rows)" by (simp only: sorted_wrt_append) simp
    moreover have "- ts r \<le> - ts (last rows)" using m(2) assms(2) by simp
    ultimately show False by simp
  qed
  with r show ?thesis by simp
qed

lemma latest_depths_map:
  assumes "sorted_wrt (\<lambda>a b. text_cell a ''pool'' = text_cell b ''pool'' \<longrightarrow>
             int_cell a ''block_timestamp'' < int_cell b ''block_timestamp'') rows"
  shows "map_of (rev (map (\<lambda>r. (text_cell r ''pool'', v r)) (latest_depths rows))) =
         map_of (rev (map (\<lambda>r. (text_cell r ''pool'', v r)) rows))"
proof -
  let ?k = "\<lambda>r. text_cell r ''pool''"
  let ?of = "\<lambda>p. filter (\<lambda>r. ?k r = p) rows"
  let ?ps = "remdups (map ?k rows)"
  have one: "first_row (\<lambda>r. - int_cell r ''block_timestamp'') (?of p) = Some (last (?of p))"
    if "p \<in> set ?ps" for p
  proof (rule first_row_last)
    have "sorted_wrt (\<lambda>a b. ?k a = ?k b \<longrightarrow>
        int_cell a ''block_timestamp'' < int_cell b ''block_timestamp'') (?of p)"
      using assms by (rule sorted_wrt_filter)
    then show "sorted_wrt (\<lambda>a b. int_cell a ''block_timestamp'' < int_cell b ''block_timestamp'') (?of p)"
      by (rule sorted_wrt_mono_rel [rotated]) auto
    show "?of p \<noteq> []" using that by (auto simp: filter_empty_conv)
  qed
  have "latest_depths rows = map (\<lambda>p. last (?of p)) ?ps"
    unfolding latest_depths_def by (rule map_filter_total) (rule one)
  moreover have "?k (last (?of p)) = p" if "p \<in> set ?ps" for p
  proof -
    have "?of p \<noteq> []" using that by (auto simp: filter_empty_conv)
    then have "last (?of p) \<in> set (?of p)" by (rule last_in_set)
    then show ?thesis by simp
  qed
  ultimately have "map (\<lambda>r. (?k r, v r)) (latest_depths rows) = map (\<lambda>p. (p, v (last (?of p)))) ?ps"
    by simp
  then show ?thesis
    by (auto simp: fun_eq_iff map_of_rev_graph map_of_last filter_empty_conv)
qed

lemma depth_row_cells [simp]:
  "text_cell (depth_row d) ''pool'' = pd_pool d"
  "int_cell (depth_row d) ''block_timestamp'' = pd_block_timestamp d"
  "depth_of_row (depth_row d) = pd_depth d"
  by (simp_all add: depth_row_def text_cell_def int_cell_def depth_of_row_def)

lemma restore_projection:
  assumes "chain_ok bs"
  shows "w_tracker (restore w (projection bs)) = trackers new_tracker bs"
proof -
  let ?ds = "all_depths new_tracker bs"
  let ?rows = "map depth_row ?ds"
  note t = trackers_current [OF clean_new, of bs]
  have "sorted_wrt (\<lambda>a b. text_cell a ''pool'' = text_cell b ''pool'' \<longrightarrow>
      int_cell a ''block_timestamp'' < int_cell b ''block_timestamp'') ?rows"
    using all_depths_times [OF clean_new assms] by (simp add: sorted_wrt_map)
  from latest_depths_map [OF this, of depth_of_row]
  have "map_of (rev (map (\<lambda>r. (text_cell r ''pool'', depth_of_row r)) (latest_depths ?rows))) =
      map_of (rev (depth_pairs ?ds))"
    by (simp add: comp_def)
  moreover have "current new_tracker = Map.empty" by (simp add: new_tracker_def)
  ultimately show ?thesis
    using t by (simp add: restore_def projection_def load_depths_def clean_def)
qed

section \<open>Rolling back\<close>

lemma pendings_time: "p \<in> set (block_pendings b) \<Longrightarrow> p_block_timestamp p = b_timestamp b"
  by (auto simp: block_pendings_def)

lemma event_rows_cut:
  assumes "\<And>p. p \<in> set es \<Longrightarrow> p_block_timestamp p < ts" "\<And>p. p \<in> set fs \<Longrightarrow> ts \<le> p_block_timestamp p"
  shows "filter (\<lambda>r. \<not> ts \<le> int_cell r ''block_timestamp'') (event_rows t (es @ fs)) = event_rows t es"
proof -
  have "filter (\<lambda>r. \<not> ts \<le> int_cell r ''block_timestamp'') (event_rows t es) = event_rows t es"
    using assms(1) by (force simp: filter_id_conv dest: event_rows_identity)
  moreover have "filter (\<lambda>r. \<not> ts \<le> int_cell r ''block_timestamp'') (event_rows t fs) = []"
    using assms(2) by (force simp: filter_empty_conv dest: event_rows_identity)
  ultimately show ?thesis by (simp add: event_rows_append)
qed

lemma depth_rows_cut:
  assumes "chain_ok (pre @ post)" "\<And>b. b \<in> set pre \<Longrightarrow> b_timestamp b < ts"
    "\<And>b. b \<in> set post \<Longrightarrow> ts \<le> b_timestamp b"
  shows "filter (\<lambda>r. \<not> ts \<le> int_cell r ''block_timestamp'')
           (map depth_row (all_depths new_tracker (pre @ post))) = map depth_row (all_depths new_tracker pre)"
proof -
  have "\<forall>d\<in>set (all_depths new_tracker pre). pd_block_timestamp d < ts"
    using all_depths_times [OF clean_new, of pre] assms(1,2) by fastforce
  moreover have "\<forall>d\<in>set (all_depths (trackers new_tracker pre) post). ts \<le> pd_block_timestamp d"
    using all_depths_times [of "trackers new_tracker pre" post] trackers_current [OF clean_new, of pre]
      assms(1,3) by fastforce
  ultimately have "filter (\<lambda>d. \<not> ts \<le> pd_block_timestamp d) (all_depths new_tracker pre) = all_depths new_tracker pre"
    "filter (\<lambda>d. \<not> ts \<le> pd_block_timestamp d) (all_depths (trackers new_tracker pre) post) = []"
    by (auto simp: filter_id_conv filter_empty_conv)
  then show ?thesis by (simp add: all_depths_append filter_map comp_def)
qed

lemma projection_other:
  "t \<notin> set rollback_tables \<Longrightarrow> t \<noteq> ''block_log'' \<Longrightarrow> projection bs t = []"
  by (auto simp: projection_def rollback_tables_def DERIVED_TABLES_def event_rows_other)

lemma delete_from_projection:
  assumes "chain_ok (pre @ b # post)"
  shows "delete_from_height Committed (projection (pre @ b # post)) (b_height b) = (projection pre, True)"
proof -
  let ?bs = "pre @ b # post" and ?ts = "b_timestamp b" and ?h = "b_height b"
  have pre: "\<And>c. c \<in> set pre \<Longrightarrow> b_height c < ?h \<and> b_timestamp c < ?ts"
    and post: "\<And>c. c \<in> set (b # post) \<Longrightarrow> ?h \<le> b_height c \<and> ?ts \<le> b_timestamp c"
    using assms chain_ok_append [of "[b]" post] by fastforce+
  have log: "projection ?bs ''block_log'' = map (\<lambda>b. block_row (block_entry_of b)) ?bs"
    by (simp add: projection_def)
  have cells: "int_cell (block_row (block_entry_of c)) ''height'' = b_height c"
    "int_cell (block_row (block_entry_of c)) ''timestamp'' = b_timestamp c" for c
    by (simp_all add: block_entry_of_def)
  have "List.find (\<lambda>r. int_cell r ''height'' = ?h) (projection ?bs ''block_log'') =
      Some (block_row (block_entry_of b))"
    unfolding log using pre by (induction pre) (force simp: cells)+
  moreover have "delete_where (\<lambda>r. ?h \<le> int_cell r ''height'') ''block_log''
      (fold (delete_where (\<lambda>r. ?ts \<le> int_cell r ''block_timestamp'')) rollback_tables (projection ?bs)) =
      projection pre" (is "?db = _")
  proof
    fix t
    show "?db t = projection pre t"
    proof (cases "t = ''block_log''")
      case True
      have "filter (\<lambda>b. \<not> ?h \<le> b_height b) pre = pre"
        using pre by (force simp: filter_id_conv)
      moreover have "filter (\<lambda>b. \<not> ?h \<le> b_height b) (b # post) = []"
        using post by (auto simp: filter_empty_conv)
      ultimately have "filter (\<lambda>r. \<not> ?h \<le> int_cell r ''height'') (projection ?bs ''block_log'') =
          projection pre ''block_log''"
        unfolding log by (simp add: filter_map comp_def cells projection_def)
      with True show ?thesis
        by (simp add: delete_where_def fold_delete_where distinct_rollback_tables)
    next
      case False
      show ?thesis
      proof (cases "t \<in> set rollback_tables")
        case True
        have "filter (\<lambda>r. \<not> ?ts \<le> int_cell r ''block_timestamp'') (projection ?bs t) = projection pre t"
        proof (cases "t = ''block_pool_depths''")
          case True
          then show ?thesis
            using depth_rows_cut [OF assms, of ?ts] pre post by (simp add: projection_def)
        next
          case False
          have "filter (\<lambda>r. \<not> ?ts \<le> int_cell r ''block_timestamp'')
              (event_rows t (concat (map block_pendings pre) @ concat (map block_pendings (b # post)))) =
              event_rows t (concat (map block_pendings pre))"
            by (rule event_rows_cut) (use pre post pendings_time in force)+
          with False \<open>t \<noteq> ''block_log''\<close> show ?thesis by (simp add: projection_def)
        qed
        with True False show ?thesis
          by (simp add: delete_where_def fold_delete_where distinct_rollback_tables)
      next
        case nr: False
        with False show ?thesis
          by (simp add: delete_where_def fold_delete_where distinct_rollback_tables projection_other)
      qed
    qed
  qed
  ultimately show ?thesis
    by (simp add: delete_from_height_def Let_def run_tx_def cells)
qed

section \<open>The identifiers of a block\<close>

text \<open>The budget of \<open>crates/midgard-db/src/eventid.rs\<close>, for indices that start at one.\<close>

definition block_in_budget :: "block \<Rightarrow> bool" where
  "block_in_budget b \<longleftrightarrow> 0 \<le> b_height b \<and> b_height b \<le> MAX_HEIGHT \<and>
     int (length (finalize_block_events (b_results b))) < TYPE_DIGIT \<and>
     (case txs_results (b_results b) of None \<Rightarrow> True
      | Some txs \<Rightarrow> length txs < 800000 \<and> (\<forall>tx\<in>set txs. length (tx_events tx) < 10000))"

lemma sorted_wrt_filter_enumerate:
  "sorted_wrt (\<lambda>x y. fst x < fst y) (filter P (List.enumerate n xs))"
  by (rule sorted_wrt_filter)
    (simp add: enumerate_eq_zip sorted_wrt_iff_nth_less)

lemma sorted_wrt_concat_map:
  "(\<And>x. x \<in> set xs \<Longrightarrow> sorted_wrt R (f x)) \<Longrightarrow>
   sorted_wrt (\<lambda>x y. \<forall>a\<in>set (f x). \<forall>b\<in>set (f y). R a b) xs \<Longrightarrow> sorted_wrt R (concat (map f xs))"
  by (induction xs) (auto simp: sorted_wrt_append)

lemma block_events_sorted:
  "sorted_wrt (\<lambda>x y. chain_key (fst x) < chain_key (fst y)) (block_events b)"
proof -
  let ?R = "\<lambda>x y. chain_key (fst (x :: event_id \<times> event)) < chain_key (fst (y :: event_id \<times> event))"
  have ids: "chain_key ((begin_block_id h)\<lparr>ei_event_index := i\<rparr>) = (h, BeginBlock, 0, i)"
    "chain_key (tx_event_id h t i) = (h, TxsResults, t, i)"
    "chain_key (end_block_id h i) = (h, EndBlock, 0, i)" for h t i
    by (simp_all add: chain_key_def begin_block_id_def tx_event_id_def end_block_id_def)
  have less: "BeginBlock < TxsResults" "BeginBlock < EndBlock" "TxsResults < EndBlock"
    by (simp_all add: less_location_def)
  let ?h = "b_height b"
  let ?B = "map (\<lambda>(i, e). ((begin_block_id ?h)\<lparr>ei_event_index := int i + 1\<rparr>, e)) (begin_block_events b)"
  let ?E = "map (\<lambda>(i, e). (end_block_id ?h (int i + 1), e)) (end_block_events b)"
  let ?tx = "\<lambda>(t, tx :: exec_tx_result). map (\<lambda>(i, e). (tx_event_id ?h (int t + 1) (int i + 1), e))
      (List.enumerate 0 (tx_events tx))"
  have B: "sorted_wrt ?R ?B" unfolding begin_block_events_def sorted_wrt_map
    by (rule sorted_wrt_mono_rel [OF _ sorted_wrt_filter_enumerate]) (auto simp: ids)
  have E: "sorted_wrt ?R ?E" unfolding end_block_events_def sorted_wrt_map
    by (rule sorted_wrt_mono_rel [OF _ sorted_wrt_filter_enumerate]) (auto simp: ids)
  have T: "sorted_wrt ?R (concat (map ?tx (successful_txs b)))"
  proof (rule sorted_wrt_concat_map)
    fix x :: "nat \<times> exec_tx_result"
    have "sorted_wrt (\<lambda>x y. fst x < fst y) (List.enumerate 0 (tx_events (snd x)))"
      using sorted_wrt_filter_enumerate [of "\<lambda>_. True"] by simp
    then show "sorted_wrt ?R (?tx x)"
      by (cases x) (auto simp: sorted_wrt_map ids elim!: sorted_wrt_mono_rel [rotated])
    show "sorted_wrt (\<lambda>x y. \<forall>a\<in>set (?tx x). \<forall>b\<in>set (?tx y). ?R a b) (successful_txs b)"
      unfolding successful_txs_def
      by (rule sorted_wrt_mono_rel [OF _ sorted_wrt_filter_enumerate]) (auto simp: ids)
  qed
  show ?thesis
    unfolding block_events_def using B E T
    by (auto simp: sorted_wrt_append ids less)
qed

end
