(* ===== verification/Level_Reads.thy ===== *)
theory Level_Reads
  imports Depth_History Recovery
begin

text \<open>
  The endpoints that report levels, on a database that is the projection of a chain: what they
  read at a time is the ledger after the blocks up to that time.
\<close>

definition blocks_until :: "nano \<Rightarrow> block list \<Rightarrow> block list" where
  "blocks_until t bs = filter (\<lambda>b. b_timestamp b \<le> t) bs"

definition ledger_at :: "block list \<Rightarrow> nano \<Rightarrow> string \<Rightarrow> depth" where
  "ledger_at bs t pool = get_depth (trackers new_tracker (blocks_until t bs)) pool"

lemma chain_split: "chain_ok bs \<Longrightarrow> blocks_until t bs @ filter (\<lambda>b. t < b_timestamp b) bs = bs"
proof (induction bs)
  case (Cons b bs)
  have co: "chain_ok bs" "\<forall>c\<in>set bs. b_timestamp b < b_timestamp c"
    using Cons.prems chain_ok_append [of "[b]" bs] by simp_all
  show ?case
  proof (cases "b_timestamp b \<le> t")
    case True
    then show ?thesis using Cons.IH [OF co(1)] by (simp add: blocks_until_def)
  next
    case False
    then have "filter (\<lambda>c. b_timestamp c \<le> t) bs = []" using co(2) by (fastforce simp: filter_empty_conv)
    moreover have "filter (\<lambda>c. t < b_timestamp c) bs = bs" using co(2) False by (fastforce simp: filter_id_conv)
    ultimately show ?thesis using False by (simp add: blocks_until_def)
  qed
qed (simp add: blocks_until_def)

lemma depth_rows_until:
  assumes "chain_ok bs"
  shows "filter (\<lambda>r. ts_of r \<le> t) (projection bs ''block_pool_depths'') =
    map depth_row (all_depths new_tracker (blocks_until t bs))"
proof -
  let ?post = "filter (\<lambda>b. t < b_timestamp b) bs"
  have "chain_ok (blocks_until t bs @ ?post)" using chain_split [OF assms] assms by simp
  then have "filter (\<lambda>r. \<not> t + 1 \<le> int_cell r ''block_timestamp'') (map depth_row (all_depths new_tracker bs)) =
      map depth_row (all_depths new_tracker (blocks_until t bs))"
    using depth_rows_cut [of "blocks_until t bs" ?post "t + 1"] unfolding chain_split [OF assms]
    by (simp add: blocks_until_def)
  moreover have "(\<not> t + 1 \<le> x) = (x \<le> t)" for x by linarith
  ultimately show ?thesis by (simp only: projection_def ts_of_def if_True if_False simp_thms) simp
qed

lemma depth_row_ledger:
  assumes "chain_ok bs"
  shows "ledger_at bs t pool =
    (case depth_row_at pool t (projection bs) of Some r \<Rightarrow> depth_of_row r | None \<Rightarrow> default_depth)"
proof -
  let ?ds = "all_depths new_tracker (blocks_until t bs)"
  let ?mine = "filter (\<lambda>d. pd_pool d = pool) ?ds"
  have rows: "filter (\<lambda>r. text_cell r ''pool'' = pool \<and> ts_of r \<le> t) (projection bs ''block_pool_depths'') =
      map depth_row ?mine"
    using depth_rows_until [OF assms, of t]
    by (simp add: filter_filter [symmetric] conj_commute filter_map comp_def)
  have co: "chain_ok (blocks_until t bs)" using assms by (simp add: chain_ok_def blocks_until_def sorted_wrt_filter)
  have "sorted_wrt (\<lambda>c d. pd_pool c = pd_pool d \<longrightarrow> pd_block_timestamp c < pd_block_timestamp d) ?mine"
    using all_depths_times [OF clean_new co] by (intro sorted_wrt_filter) simp
  then have "sorted_wrt (\<lambda>c d. pd_block_timestamp c < pd_block_timestamp d) ?mine"
    by (rule sorted_wrt_mono_rel [rotated]) auto
  then have sorted: "sorted_wrt (\<lambda>a b. ts_of a < ts_of b) (map depth_row ?mine)"
    by (simp add: sorted_wrt_map ts_of_def)
  have row: "depth_row_at pool t (projection bs) = (if ?mine = [] then None else Some (depth_row (last ?mine)))"
    using first_row_last [OF sorted] by (simp add: depth_row_at_def rows last_map)
  have "current (trackers new_tracker (blocks_until t bs)) = map_of (rev (depth_pairs ?ds))"
    using trackers_current [OF clean_new] by (simp add: new_tracker_def)
  then show ?thesis
    using map_of_last [of pd_pool pd_depth ?ds pool] by (auto simp: ledger_at_def get_depth_def row)
qed

text \<open>A snapshot has the levels of the newest row, from the first query it makes.\<close>

definition snapshot_of :: "depth \<Rightarrow> i64 \<Rightarrow> snapshot" where
  "snapshot_of d mem = \<lparr>sn_asset_e8 = d_asset_e8 d, sn_rune_e8 = d_rune_e8 d, sn_synth_e8 = d_synth_e8 d,
     sn_units = d_units d, sn_members = mem\<rparr>"

lemma snapshot_read:
  assumes "fst (snapshot_at pool at reads) = Inr sn"
  obtains db mem where "reads 0 = Inr db"
    "sn = snapshot_of (case depth_row_at pool (to_nano at) db of Some r \<Rightarrow> depth_of_row r | None \<Rightarrow> default_depth) mem"
  using assms
  by (cases "reads 0")
    (auto simp: snapshot_at_def Let_def ask_then_Inr returns_def ask_def map_err_def snapshot_of_def depth_of_row_def
      default_depth_def split: option.splits sum.splits)

text \<open>What is committed later does not change the levels at a time the chain has passed.\<close>

lemma ledger_settled:
  assumes "chain_ok (bs @ bs')" "bs = [] \<Longrightarrow> bs' = []" "bs \<noteq> [] \<Longrightarrow> t \<le> b_timestamp (last bs)"
  shows "ledger_at (bs @ bs') t pool = ledger_at bs t pool"
proof -
  have "\<not> b_timestamp b \<le> t" if "b \<in> set bs'" for b
  proof -
    have "bs \<noteq> []" using assms(2) that by auto
    then have "b_timestamp (last bs) < b_timestamp b" using assms(1) that last_in_set by auto
    with assms(3) [OF \<open>bs \<noteq> []\<close>] show ?thesis by simp
  qed
  then have "filter (\<lambda>b. b_timestamp b \<le> t) bs' = []" by (simp add: filter_empty_conv)
  then show ?thesis by (simp add: ledger_at_def blocks_until_def)
qed

end
