(* ===== verification/Earnings_Totals.thy ===== *)
theory Earnings_Totals
  imports Earnings_History
begin

text \<open>
  The per-pool amounts of the earnings history: the map of maps holds the sums of the rows of each
  bucket and pool, and merging the buckets gives the sums of the window.
\<close>

interpretation sums: bucket_totals ts_of "sum_of f" i64_ok wrap64 0 "\<lambda>a v. wrap64 (a + v)" for f :: "row \<Rightarrow> int"
  by unfold_locales (auto simp: i64_ok_def intro: sum_of_perm)

definition amounts_ok :: "amounts \<Rightarrow> bool" where
  "amounts_ok m \<longleftrightarrow> distinct (map fst m) \<and> (\<forall>x\<in>set m. i64_ok (snd x))"

lemma map_of_ok: "\<forall>x\<in>set m. i64_ok (snd x) \<Longrightarrow> i64_ok (unwrap_or 0 (map_of m p))"
proof (cases "map_of m p")
  case (Some v)
  assume "\<forall>x\<in>set m. i64_ok (snd x)"
  with map_of_SomeD [OF Some] Some show ?thesis by force
qed (simp add: i64_ok_def)

lemma amount_of_ok [simp]: "amounts_ok m \<Longrightarrow> i64_ok (amount_of m pool)"
  unfolding amounts_ok_def amount_of_def by (blast intro: map_of_ok)

lemma amount_of_bumped:
  "i64_ok v \<Longrightarrow> amount_of (bump pool v m) q = (if q = pool then wrap64 (amount_of m q + v) else amount_of m q)"
  by (induction pool v m rule: bump.induct) (auto simp: amount_of_def)

lemma bump_keys: "fst ` set (bump pool v m) = insert pool (fst ` set m)"
  by (induction pool v m rule: bump.induct) auto

lemma bump_ok: "i64_ok v \<Longrightarrow> amounts_ok m \<Longrightarrow> amounts_ok (bump pool v m)"
  by (induction pool v m rule: bump.induct) (auto simp: amounts_ok_def bump_keys [simplified image_iff] image_iff)

lemma bumps:
  assumes "distinct (map fst L)" "\<forall>x\<in>set L. i64_ok (snd x)" "amounts_ok m"
  shows "amounts_ok (fold (\<lambda>(p, v). bump p v) L m)"
    "amount_of (fold (\<lambda>(p, v). bump p v) L m) q = wrap64 (amount_of m q + unwrap_or 0 (map_of L q))"
proof -
  have "amounts_ok (fold (\<lambda>(p, v). bump p v) L m) \<and>
      amount_of (fold (\<lambda>(p, v). bump p v) L m) q = wrap64 (amount_of m q + unwrap_or 0 (map_of L q))"
    using assms
  proof (induction L arbitrary: m)
    case (Cons x L)
    obtain p v where x: "x = (p, v)" by (cases x)
    have v: "i64_ok v" using Cons.prems(2) x by simp
    have "map_of L p = None" using Cons.prems(1) x by (simp add: map_of_eq_None_iff)
    with Cons.IH [of "bump p v m"] Cons.prems x v bump_ok [OF v Cons.prems(3)] show ?case
      by (auto simp: amount_of_bumped)
  qed simp
  then show "amounts_ok (fold (\<lambda>(p, v). bump p v) L m)"
    "amount_of (fold (\<lambda>(p, v). bump p v) L m) q = wrap64 (amount_of m q + unwrap_or 0 (map_of L q))" by auto
qed

lemma bump_all_amounts:
  assumes "amounts_ok new" "amounts_ok m"
  shows "amounts_ok (bump_all new m)" "amount_of (bump_all new m) q = wrap64 (amount_of m q + amount_of new q)"
proof -
  have new: "distinct (map fst new)" "\<forall>x\<in>set new. i64_ok (snd x)" using assms(1) by (simp_all add: amounts_ok_def)
  show "amounts_ok (bump_all new m)" unfolding bump_all_def by (rule bumps(1) [OF new assms(2)])
  show "amount_of (bump_all new m) q = wrap64 (amount_of m q + amount_of new q)"
    unfolding bump_all_def bumps(2) [OF new assms(2)] by (simp only: amount_of_def)
qed

lemma merged_amounts:
  assumes "\<And>k. amounts_ok (F k)" "amounts_ok m"
  shows "amount_of (fold (\<lambda>k. bump_all (F k)) ks m) q = foldl (\<lambda>a k. wrap64 (a + amount_of (F k) q)) (amount_of m q) ks"
  using assms(2) by (induction ks arbitrary: m) (simp_all add: bump_all_amounts assms(1))

section \<open>The nested map is the sums by pool\<close>

lemma group_by_total:
  assumes "\<And>k. k \<in> key ` set rows \<Longrightarrow> \<exists>v. agg (filter (\<lambda>r. key r = k) rows) = Inr v"
  shows "\<exists>g. group_by key agg rows = Inr g"
proof -
  let ?f = "\<lambda>k. map_ok (Pair k) (agg (filter (\<lambda>r. key r = k) rows))"
  obtain v where v: "k \<in> key ` set rows \<Longrightarrow> agg (filter (\<lambda>r. key r = k) rows) = Inr (v k)" for k
    using assms by metis
  have "collectE ?f (remdups (map key rows)) = Inr (map (\<lambda>k. (k, v k)) (remdups (map key rows)))"
    by (rule collectE_total) (simp add: v)
  then show ?thesis by (simp add: group_by_def)
qed

lemma collect_ok:
  assumes "sums_by_bucket_and_pool s b f rows = Inr g"
  shows "amounts_ok (collect g k)" "amount_of (collect g k) p = unwrap_or 0 (map_of g (k, p))"
proof -
  have keys: "distinct (map fst g)"
    using group_by_keys [OF assms [unfolded sums_by_bucket_and_pool_def]] by simp
  have vals: "i64_ok v" if "(kp, v) \<in> set g" for kp v
  proof -
    have m: "map_of g kp = Some v" using that keys by simp
    from group_by_lookup(1) [OF assms [unfolded sums_by_bucket_and_pool_def], of kp] m show ?thesis
      by (auto simp: ok_def to_bigint_def split: if_splits)
  qed
  let ?L = "map (\<lambda>((_, p), v). (p, v)) (filter (\<lambda>((k', _), _). k' = k) g)"
  have col: "collect g k = fold (\<lambda>(p, v). bump p v) ?L []"
    by (simp add: collect_def fold_map comp_def case_prod_unfold)
  have dist: "distinct (map fst ?L)"
    using keys by (induction g) (auto simp: image_iff split: prod.splits)
  have look: "map_of ?L p = map_of g (k, p)" for p
    by (induction g) auto
  have okL: "\<forall>x\<in>set ?L. i64_ok (snd x)" using vals by auto
  have nil: "amounts_ok []" "amount_of [] p = 0" by (simp_all add: amounts_ok_def amount_of_def)
  show "amounts_ok (collect g k)" unfolding col by (rule bumps(1) [OF dist okL nil(1)])
  have "i64_ok (unwrap_or 0 (map_of ?L p))"
    using okL by (rule map_of_ok)
  with bumps(2) [OF dist okL nil(1), where q = p] nil(2) look [of p]
  show "amount_of (collect g k) p = unwrap_or 0 (map_of g (k, p))" unfolding col by simp
qed

text \<open>For one pool, the grouping by bucket and pool is the grouping of its rows by bucket.\<close>

lemma pool_grouping:
  fixes p :: string
  assumes "sums_by_bucket_and_pool s b f rows = Inr g"
  defines "mine \<equiv> filter (\<lambda>r. text_cell r ''pool'' = p) rows"
  obtains gp where "grouped ts_of (sum_of f) i64_ok (as_date_trunc s) b mine = Inr gp"
    "\<And>k. amount_of (collect g k) p = unwrap_or 0 (map_of gp k)"
proof -
  let ?key = "\<lambda>r. bucket_key (as_date_trunc s) b (ts_of r)"
  let ?R = "filter (\<lambda>r. in_span (bu_start b) (bu_end b) (ts_of r)) rows"
  let ?M = "filter (\<lambda>r. in_span (bu_start b) (bu_end b) (ts_of r)) mine"
  note look = group_by_lookup [OF assms(1) [unfolded sums_by_bucket_and_pool_def]]
  have same: "filter (\<lambda>r. (?key r, text_cell r ''pool'') = (k, p)) ?R = filter (\<lambda>r. ?key r = k) ?M" for k
    unfolding mine_def filter_filter by (rule filter_cong) auto
  have img: "(k, p) \<in> (\<lambda>r. (?key r, text_cell r ''pool'')) ` set ?R \<longleftrightarrow> k \<in> ?key ` set ?M" for k
    unfolding mine_def by (auto intro: rev_image_eqI)
  have agg: "checked i64_ok (sum_of f) xs = to_bigint (sum_of f xs)" for xs
    by (simp add: checked_def to_bigint_def)
  have "\<exists>gp. grouped ts_of (sum_of f) i64_ok (as_date_trunc s) b mine = Inr gp"
    unfolding grouped_def
  proof (rule group_by_total)
    fix k assume "k \<in> ?key ` set ?M"
    with look(2) [of "(k, p)", unfolded same img] show "\<exists>v. checked i64_ok (sum_of f) (filter (\<lambda>r. ?key r = k) ?M) = Inr v"
      unfolding agg by blast
  qed
  then obtain gp where gp: "grouped ts_of (sum_of f) i64_ok (as_date_trunc s) b mine = Inr gp" by blast
  have "map_of g (k, p) = map_of gp k" for k
    using look(1) [of "(k, p)", unfolded same img] group_by_lookup(1) [OF gp [unfolded grouped_def], of k]
    unfolding agg by simp
  with collect_ok(2) [OF assms(1)] that [OF gp] show thesis by simp
qed

lemma merged_window:
  assumes "utc (as_date_trunc s)" "buckets_ok b" "sums_by_bucket_and_pool s b f rows = Inr g"
  defines "keys \<equiv> map (\<lambda>i. wi_from (bucket b i)) [0..<bu_count b]"
  shows "amount_of (fold (\<lambda>k. bump_all (collect g k)) keys []) p =
    wrap64 (sum_of f (filter (\<lambda>r. text_cell r ''pool'' = p \<and> in_span (bu_start b) (bu_end b) (ts_of r)) rows))"
    and "i < bu_count b \<Longrightarrow> amount_of (collect g (wi_from (bucket b i))) p =
    sum_of f (filter (\<lambda>r. text_cell r ''pool'' = p \<and> in_span (wi_from (bucket b i)) (wi_until (bucket b i)) (ts_of r)) rows)"
proof -
  let ?mine = "filter (\<lambda>r. text_cell r ''pool'' = p) rows"
  obtain gp where gp: "grouped ts_of (sum_of f) i64_ok (as_date_trunc s) b ?mine = Inr gp"
    "\<And>k. amount_of (collect g k) p = unwrap_or 0 (map_of gp k)"
    by (rule pool_grouping [OF assms(3), of p]) blast
  have tot: "amount_of (collect g (wi_from (bucket b i))) p = totals_at 0 gp b i" for i
    by (simp add: totals_at_def gp(2))
  have nil: "amounts_ok []" "amount_of [] p = 0" by (simp_all add: amounts_ok_def amount_of_def)
  have ts: "bu_timestamps b ! bu_count b = bu_end b"
  proof -
    have "bu_timestamps b \<noteq> []" using assms(2) by (cases "bu_interval b") (auto simp: buckets_ok_def)
    then show ?thesis by (simp add: bu_count_def bu_end_def last_conv_nth)
  qed
  have "amount_of (fold (\<lambda>k. bump_all (collect g k)) keys []) p =
      foldl (\<lambda>a v. wrap64 (a + v)) 0 (map (totals_at 0 gp b) [0..<bu_count b])"
    unfolding merged_amounts [of "collect g", OF collect_ok(1) [OF assms(3)] nil(1)] keys_def nil(2)
    by (simp add: foldl_map tot)
  also have "\<dots> = wrap64 (sum_of f (filter (\<lambda>r. in_span (bu_start b) (bu_end b) (ts_of r)) ?mine))"
    using sums.totals_upto [OF assms(1,2) gp(1) order_refl] ts by simp
  finally show "amount_of (fold (\<lambda>k. bump_all (collect g k)) keys []) p =
    wrap64 (sum_of f (filter (\<lambda>r. text_cell r ''pool'' = p \<and> in_span (bu_start b) (bu_end b) (ts_of r)) rows))"
    by (simp add: filter_filter conj_commute)
  assume "i < bu_count b"
  from sums.totals_at_bucket(1) [OF assms(1,2) this gp(1)]
  show "amount_of (collect g (wi_from (bucket b i))) p =
    sum_of f (filter (\<lambda>r. text_cell r ''pool'' = p \<and> in_span (wi_from (bucket b i)) (wi_until (bucket b i)) (ts_of r)) rows)"
    by (simp add: tot filter_filter conj_commute)
qed

text \<open>Summing over the names of the pools is summing over the map.\<close>

lemma sum_over_names:
  assumes "amounts_ok m" "distinct ns" "fst ` set m \<subseteq> set ns"
  shows "sum_list (map (amount_of m) ns) = sum_list (map snd m)"
proof -
  have d: "distinct (map fst m)" using assms(1) by (simp add: amounts_ok_def)
  have "sum_list (map (amount_of m) ns) = (\<Sum>n\<in>set ns. amount_of m n)"
    using assms(2) by (simp add: sum_list_distinct_conv_sum_set)
  also have "\<dots> = (\<Sum>n\<in>fst ` set m. amount_of m n)"
  proof (rule sum.mono_neutral_right)
    have "map_of m i = None" if "i \<notin> fst ` set m" for i using that by (simp add: map_of_eq_None_iff)
    then show "\<forall>i\<in>set ns - fst ` set m. amount_of m i = 0" by (simp add: amount_of_def)
  qed (use assms(3) in simp_all)
  also have "\<dots> = sum_list (map (amount_of m) (map fst m))"
    using sum_list_distinct_conv_sum_set [OF d, of "amount_of m"] by (simp only: set_map)
  also have "map (amount_of m) (map fst m) = map snd m"
    using d by (auto simp: amount_of_def)
  finally show ?thesis .
qed

end
