(* ===== verification/Writer_Runs.thy ===== *)
theory Writer_Runs
  imports Recovery
begin

text \<open>
  Runs of a \<open>BlockWriter\<close>: the blocks added so far are those in the database followed by those in
  the buffers, in order, nothing missing and nothing twice (\<open>in_step\<close>). Every flush, committed or
  rolled back, and every added block keeps it.
\<close>

definition buffered :: "block_writer \<Rightarrow> block list \<Rightarrow> block list \<Rightarrow> bool" where
  "buffered w pre post \<longleftrightarrow>
     w_blocks w = map block_entry_of post \<and> w_events w = concat (map block_pendings post) \<and>
     w_depths w = all_depths (trackers new_tracker pre) post \<and>
     w_tracker w = trackers new_tracker (pre @ post)"

definition in_step :: "block_writer \<Rightarrow> database \<Rightarrow> block list \<Rightarrow> block list \<Rightarrow> bool" where
  "in_step w db pre post \<longleftrightarrow> chain_ok (pre @ post) \<and> db = projection pre \<and> buffered w pre post"

lemma in_step_new: "in_step (new_writer n) empty_db [] []"
  by (auto simp: in_step_def buffered_def new_writer_def projection_def empty_db_def fun_eq_iff chain_ok_def)

lemma in_step_buffer:
  assumes "in_step w db pre post" "chain_ok (pre @ post @ [b])"
  shows "in_step (buffer_block w b) db pre (post @ [b])"
  using assms
  by (auto simp: in_step_def buffered_def buffer_block_fields all_depths_append trackers_append)

lemma projection_blocks_fresh:
  assumes "chain_ok (pre @ post)"
  shows "block_keys (map block_entry_of post) (projection pre)"
proof -
  have "distinct (map b_height post)" "distinct (map b_timestamp post)"
    using assms by (induction post) (force simp: chain_ok_def sorted_wrt_append)+
  moreover have "\<forall>b\<in>set post. \<forall>a\<in>set pre. b_height a < b_height b \<and> b_timestamp a < b_timestamp b"
    using assms by simp
  ultimately show ?thesis
    by (fastforce simp: block_keys_def projection_def block_entry_of_def comp_def)
qed

text \<open>What a flush would leave, with the blocks in the buffers.\<close>

lemma in_step_settled:
  assumes "in_step w db pre post"
  shows "settled w db = Some (projection (pre @ post))"
proof -
  let ?log = "insert_rows ''block_log'' (map block_row (map block_entry_of post)) (projection pre)"
  have "write_blocks (map block_entry_of post) (projection pre) = Some ?log"
    using assms by (intro write_blocks_fresh projection_blocks_fresh) (simp add: in_step_def)
  moreover have "extend_db (data_rows (w_depths w) (w_events w)) ?log = projection (pre @ post)"
    using assms by (auto simp: in_step_def buffered_def extend_db_def data_rows_def projection_def
        fun_eq_iff all_depths_append event_rows_append comp_def)
  ultimately show ?thesis
    using assms by (simp add: settled_def write_batch_extend in_step_def buffered_def)
qed

lemma in_step_flush:
  assumes "in_step w db pre post" "flush oc w db = (w', db', sc)" "oc \<noteq> CommitLost"
  shows "in_step w' db' (pre @ post) [] \<or> in_step w' db' pre post \<and> \<not> sc"
  using assms(2)
proof (cases rule: flush_cases)
  case idle
  then show ?thesis using assms(1) by (simp add: in_step_def buffered_def)
next
  case success
  then have "db' = projection (pre @ post)" using in_step_settled [OF assms(1)] by simp
  with success assms(1) show ?thesis by (simp add: in_step_def buffered_def)
next
  case failure
  with assms show ?thesis by simp
qed

lemma flush_commits:
  assumes "in_step w db pre post" "flush Committed w db = (w', db', sc)"
  shows "in_step w' db' (pre @ post) [] \<and> sc"
  using assms(2)
proof (cases rule: flush_cases)
  case idle
  then show ?thesis using assms(1) by (simp add: in_step_def buffered_def)
next
  case success
  then have "db' = projection (pre @ post)" using in_step_settled [OF assms(1)] by simp
  with success assms(1) show ?thesis by (simp add: in_step_def buffered_def)
next
  case failure
  have "w_blocks w \<noteq> []" by (rule failure)
  with in_step_settled [OF assms(1)] assms(2) have sc
    by (auto simp: flush_def settled_def run_tx_def)
  with failure show ?thesis by simp
qed

text \<open>One block more.\<close>

lemma in_step_add:
  assumes "in_step w db pre post" "chain_ok (pre @ post @ [b])" "add_block oc w db b = (w', db', sc)"
    "oc \<noteq> CommitLost"
  shows "\<exists>pre' post'. in_step w' db' pre' post' \<and> pre' @ post' = pre @ post @ [b]"
proof -
  note buf = in_step_buffer [OF assms(1,2)]
  show ?thesis
  proof (cases "w_batch_size (buffer_block w b) \<le> length (w_blocks (buffer_block w b))")
    case True
    with assms(3) have "flush oc (buffer_block w b) db = (w', db', sc)" by (simp add: add_block_def)
    from in_step_flush [OF buf this assms(4)] show ?thesis by auto
  next
    case False
    with assms(3) buf show ?thesis by (auto simp: add_block_def)
  qed
qed

lemma in_step_add_blocks:
  assumes "in_step w db pre post" "chain_ok (pre @ post @ bs)" "length ocs = length bs"
    "CommitLost \<notin> set ocs" "add_blocks ocs w db bs = (w', db')"
  shows "\<exists>pre' post'. in_step w' db' pre' post' \<and> pre' @ post' = pre @ post @ bs"
  using assms
proof (induction ocs w db bs arbitrary: pre post rule: add_blocks.induct)
  case (1 oc ocs w db b bs)
  obtain w1 db1 sc where a: "add_block oc w db b = (w1, db1, sc)" by (metis prod_cases3)
  have "chain_ok (pre @ post @ [b])" using "1.prems"(2) by auto
  with "1.prems" a obtain p q where pq: "in_step w1 db1 p q" "p @ q = pre @ post @ [b]"
    using in_step_add by (metis list.set_intros(1))
  moreover have all: "p @ q @ bs = pre @ post @ b # bs"
    using arg_cong [OF pq(2), of "\<lambda>x. x @ bs"] by simp
  moreover have "chain_ok (p @ q @ bs)" unfolding all using "1.prems"(2) .
  ultimately show ?case
    using "1.IH" [OF a [symmetric] refl, of p q] "1.prems" a by (simp add: all)
qed auto

text \<open>With every flush committed, fewer blocks than a batch are buffered.\<close>

lemma add_block_bounded:
  assumes "add_block Committed w db b = (w', db', sc)" "in_step w db pre post" "chain_ok (pre @ post @ [b])"
    "0 < w_batch_size w"
  shows "length (w_blocks w') < w_batch_size w'" "w_batch_size w' = w_batch_size w"
proof -
  note buf = in_step_buffer [OF assms(2,3)]
  have "length (w_blocks w') < w_batch_size w' \<and> w_batch_size w' = w_batch_size w"
  proof (cases "w_batch_size (buffer_block w b) \<le> length (w_blocks (buffer_block w b))")
    case True
    with assms(1) have f: "flush Committed (buffer_block w b) db = (w', db', sc)"
      by (simp add: add_block_def)
    then have "in_step w' db' (pre @ post @ [b]) []" using flush_commits [OF buf] by simp
    then have "w_blocks w' = []" by (simp add: in_step_def buffered_def)
    moreover have "w_batch_size w' = w_batch_size w"
      using settled_flush(3) [OF f] by (simp add: buffer_block_fields)
    ultimately show ?thesis using assms(4) by simp
  next
    case False
    with assms(1) show ?thesis by (auto simp: add_block_def buffer_block_fields)
  qed
  then show "length (w_blocks w') < w_batch_size w'" "w_batch_size w' = w_batch_size w" by auto
qed

lemma in_step_committed_blocks:
  assumes "in_step v d pre post" "chain_ok (pre @ post @ bs)" "length (w_blocks v) < w_batch_size v"
    and "add_blocks (replicate (length bs) Committed) v d bs = (w, db)"
  shows "\<exists>p q. in_step w db p q \<and> p @ q = pre @ post @ bs \<and> length (w_blocks w) < w_batch_size v"
  using assms
proof (induction bs arbitrary: v d pre post)
  case (Cons b bs)
  obtain v1 d1 sc where a: "add_block Committed v d b = (v1, d1, sc)" by (metis prod_cases3)
  have co: "chain_ok (pre @ post @ [b])"
    using Cons.prems(2) chain_ok_append [of "pre @ post @ [b]" bs] by simp
  obtain p q where pq: "in_step v1 d1 p q" "p @ q = pre @ post @ [b]"
    using in_step_add [OF Cons.prems(1) co a] by blast
  have all: "p @ q @ bs = pre @ post @ b # bs" using arg_cong [OF pq(2), of "\<lambda>x. x @ bs"] by simp
  have pos: "0 < w_batch_size v" using Cons.prems(3) by simp
  note bound = add_block_bounded [OF a Cons.prems(1) co pos]
  have ok: "chain_ok (p @ q @ bs)" using Cons.prems(2) unfolding all .
  have rest: "add_blocks (replicate (length bs) Committed) v1 d1 bs = (w, db)"
    using Cons.prems(4) a by simp
  have lt: "length (w_blocks v1) < w_batch_size v1" using bound by simp
  from Cons.IH [OF pq(1) ok lt rest] show ?case unfolding all using bound by auto
qed auto

end
