(* ===== verification/Client.thy ===== *)
theory Client
  imports Rpc Chain_Types Config_Schema
begin

text \<open>
  \<open>crates/midgard-chain/src/client.rs\<close>: the client, the assembly of a block from its two
  responses, ranges fetched in batches and in chunks, and the iterator over a range. What the node
  answers (\<open>send\<close>, one request or batch at a time) and the decoding of its JSON are
  parameters, collected in \<open>node\<close>. The iterator sees the client through the locale
  \<open>block_source\<close>: what it fetches has the heights asked for.
\<close>

section \<open>Errors and configuration\<close>

datatype chain_error =
    RpcErr rpc_error
  | HeightMismatch i64 i64
  | BadTimestamp i64 string string
  | ConfigErr string

fun chain_error_str :: "chain_error \<Rightarrow> string" where
  "chain_error_str (RpcErr e) = rpc_error_str e"
| "chain_error_str (HeightMismatch requested returned) =
     ''block '' @ int_to_string requested @ '': node answered for height '' @ int_to_string returned"
| "chain_error_str (BadTimestamp height time reason) =
     ''block '' @ int_to_string height @ '': unparseable timestamp '' @ [CHR 34] @ time @ [CHR 34]
     @ '': '' @ reason"
| "chain_error_str (ConfigErr m) = ''configuration: '' @ m"

record client =
  cl_url :: string
  cl_batch_size :: nat
  cl_parallelism :: nat
  cl_max_status_retries :: nat
  cl_status_retry_backoff :: int

definition new_client :: "thor_chain \<Rightarrow> chain_error + client" where
  "new_client cfg =
     (if parallelism cfg = 0 \<or> fetch_batch_size cfg = 0
      then Inl (ConfigErr ''fetch_batch_size and parallelism must both be at least 1'')
      else if fetch_batch_size cfg mod parallelism cfg \<noteq> 0
      then Inl (ConfigErr (''fetch_batch_size ('' @ int_to_string (int (fetch_batch_size cfg))
             @ '') must be divisible by parallelism ('' @ int_to_string (int (parallelism cfg)) @ '')''))
      else Inr \<lparr>cl_url = trim_end_slashes (fst (split_tendermint_url cfg)),
                cl_batch_size = fetch_batch_size cfg, cl_parallelism = parallelism cfg,
                cl_max_status_retries = max_status_retries cfg,
                cl_status_retry_backoff = status_retry_backoff cfg\<rparr>)"

section \<open>Responses\<close>

text \<open>The part of \<open>tendermint_rpc\<close>'s block response that is read; heights are 64-bit unsigned.\<close>

record block_response =
  rs_height :: int
  rs_time_nanos :: int
  rs_time_str :: string
  rs_hash :: string
  rs_chain_id :: string
  rs_data :: "nat list list"

text \<open>\<open>u64 as i64\<close>.\<close>

definition as_signed :: "int \<Rightarrow> i64" where
  "as_signed n = wrap64 n"

definition block_time_to_nano :: "i64 \<Rightarrow> int \<Rightarrow> string \<Rightarrow> chain_error + nano" where
  "block_time_to_nano height nanos time_str =
     (if i64_ok nanos then Inr nanos
      else Inl (BadTimestamp height time_str ''out of range for a 64-bit nanosecond count''))"

definition assemble :: "i64 \<Rightarrow> block_response \<Rightarrow> block_results \<Rightarrow> chain_error + block" where
  "assemble requested b results =
     (if as_signed (rs_height b) \<noteq> requested then Inl (HeightMismatch requested (as_signed (rs_height b)))
      else if as_signed (br_height results) \<noteq> requested
      then Inl (HeightMismatch requested (as_signed (br_height results)))
      else bindE (block_time_to_nano requested (rs_time_nanos b) (rs_time_str b)) (\<lambda>timestamp.
        Inr \<lparr>b_height = requested, b_timestamp = timestamp, b_hash = rs_hash b,
             b_chain_id = rs_chain_id b, b_results = results, b_txs = rs_data b\<rparr>))"

section \<open>Calls\<close>

record node =
  nd_send :: "json \<Rightarrow> rpc_error + json"
  nd_show :: "json \<Rightarrow> string"
  nd_block :: "json \<Rightarrow> string + block_response"
  nd_results :: "json \<Rightarrow> string + block_results"

text \<open>\<open>status\<close>: the answers to the successive attempts, until one succeeds.\<close>

fun status_loop :: "nat \<Rightarrow> (nat \<Rightarrow> rpc_error + 'a) \<Rightarrow> nat \<Rightarrow> rpc_error option \<Rightarrow> rpc_error + 'a" where
  "status_loop 0 answer attempt prev = Inl (case prev of Some e \<Rightarrow> e | None \<Rightarrow> undefined)"
| "status_loop (Suc n) answer attempt prev =
     (case answer attempt of Inr s \<Rightarrow> Inr s | Inl e \<Rightarrow> status_loop n answer (Suc attempt) (Some e))"

definition status :: "client \<Rightarrow> (nat \<Rightarrow> rpc_error + 'a) \<Rightarrow> chain_error + 'a" where
  "status c answer = map_err RpcErr (status_loop (max (cl_max_status_retries c) 1) answer 0 None)"

definition latest_height :: "client \<Rightarrow> (nat \<Rightarrow> rpc_error + int) \<Rightarrow> chain_error + i64" where
  "latest_height c answer = map_ok as_signed (status c answer)"

definition height_params :: "i64 \<Rightarrow> json" where
  "height_params h = JObj [(''height'', JStr (int_to_string h))]"

text \<open>
  \<open>try_join!\<close> runs both calls; where both fail, the error is the first to arrive, here that of
  the first call.
\<close>

definition fetch_block :: "node \<Rightarrow> i64 \<Rightarrow> chain_error + block" where
  "fetch_block n height =
     bindE (map_err RpcErr (rpc_call (nd_show n) (nd_block n) (nd_send n) ''block'' (height_params height)))
       (\<lambda>b. bindE (map_err RpcErr (rpc_call (nd_show n) (nd_results n) (nd_send n) ''block_results''
                    (height_params height)))
         (\<lambda>results. assemble height b results))"

definition fetch_batch :: "node \<Rightarrow> i64 \<Rightarrow> nat \<Rightarrow> chain_error + block list" where
  "fetch_batch n from_h cnt =
     (let params = map (\<lambda>i. height_params (wrap64 (from_h + int i))) [0..<cnt] in
      bindE (map_err RpcErr (call_batch (nd_show n) (nd_block n) (nd_send n) ''block'' params)) (\<lambda>blocks.
      bindE (map_err RpcErr (call_batch (nd_show n) (nd_results n) (nd_send n) ''block_results'' params))
        (\<lambda>results.
      collectE (\<lambda>(i, b, r). assemble (wrap64 (from_h + int i)) b r)
        (List.enumerate 0 (zip blocks results)))))"

definition fetch_range :: "client \<Rightarrow> node \<Rightarrow> i64 \<Rightarrow> nat \<Rightarrow> chain_error + block list" where
  "fetch_range c n from_h cnt =
     (if cnt = 0 then Inr []
      else if cnt = 1 then map_ok (\<lambda>b. [b]) (fetch_block n from_h)
      else
        let chunks = (if 1 < cl_parallelism c \<and> cnt mod cl_parallelism c = 0
                      then cl_parallelism c else 1);
            per_chunk = cnt div chunks in
        map_ok concat (collectE (\<lambda>i. fetch_batch n (wrap64 (from_h + int (i * per_chunk))) per_chunk)
          [0..<chunks]))"

definition first_block_hash :: "node \<Rightarrow> chain_error + string" where
  "first_block_hash n = map_ok b_hash (fetch_block n 1)"

section \<open>The iterator\<close>

record block_iterator =
  it_next :: i64
  it_through :: i64
  it_buffered :: "block list"

definition iterator :: "i64 \<Rightarrow> i64 \<Rightarrow> block_iterator" where
  "iterator from_h through = \<lparr>it_next = from_h, it_through = through, it_buffered = []\<rparr>"

text \<open>Over whatever fetches a range: the client's \<open>fetch_range\<close>.\<close>

definition iter_next ::
    "(i64 \<Rightarrow> nat \<Rightarrow> chain_error + block list) \<Rightarrow> nat \<Rightarrow> block_iterator \<Rightarrow>
     (chain_error + block option) \<times> block_iterator" where
  "iter_next fetch batch_size it =
     (case it_buffered it of
        b # bs \<Rightarrow> (Inr (Some b), it\<lparr>it_buffered := bs\<rparr>)
      | [] \<Rightarrow>
          if it_through it < it_next it then (Inr None, it)
          else
            let remaining = nat (it_through it - it_next it + 1); cnt = min remaining batch_size in
            case fetch (it_next it) cnt of
              Inl e \<Rightarrow> (Inl e, it)
            | Inr [] \<Rightarrow> (Inr None, it\<lparr>it_next := wrap64 (it_next it + int cnt)\<rparr>)
            | Inr (b # bs) \<Rightarrow>
                (Inr (Some b), it\<lparr>it_next := wrap64 (it_next it + int cnt), it_buffered := bs\<rparr>))"

section \<open>Lemmas\<close>

lemma assemble_height: "assemble h b r = Inr blk \<Longrightarrow> b_height blk = h \<and> i64_ok (b_timestamp blk)"
  by (auto simp: assemble_def bindE_eq_Inr block_time_to_nano_def split: if_splits)

lemma fetch_block_height: "fetch_block n h = Inr b \<Longrightarrow> b_height b = h"
  by (auto simp: fetch_block_def bindE_eq_Inr dest: assemble_height)

definition heights_from :: "i64 \<Rightarrow> nat \<Rightarrow> i64 list" where
  "heights_from h n = map (\<lambda>i. wrap64 (h + int i)) [0..<n]"

lemma fetch_batch_heights:
  assumes "fetch_batch n h cnt = Inr bs"
  shows "map b_height bs = heights_from h cnt"
proof -
  obtain blocks results where l: "length blocks = cnt" "length results = cnt"
    and c: "collectE (\<lambda>(i, b, r). assemble (wrap64 (h + int i)) b r)
        (List.enumerate 0 (zip blocks results)) = Inr bs"
    using assms by (auto simp: fetch_batch_def Let_def bindE_eq_Inr dest!: call_batch_length)
  then have "length bs = cnt" using collectE_length by fastforce
  moreover have "b_height (bs ! i) = wrap64 (h + int i)" if "i < cnt" for i
    using c that l by (auto simp: collectE_eq_Inr list_all2_conv_all_nth enumerate_eq_zip dest: assemble_height)
  ultimately show ?thesis by (simp add: heights_from_def list_eq_iff_nth_eq)
qed

lemma heights_from_append:
  "heights_from h (m + n) = heights_from h m @ heights_from (wrap64 (h + int m)) n"
  by (induction n) (simp_all add: heights_from_def add.assoc)

lemma concat_heights:
  "concat (map (\<lambda>i. heights_from (wrap64 (h + int (i * k))) k) [0..<m]) = heights_from h (m * k)"
proof (induction m)
  case 0
  then show ?case by (simp add: heights_from_def)
next
  case (Suc m)
  have "heights_from h (m * k + k) = heights_from h (m * k) @ heights_from (wrap64 (h + int (m * k))) k"
    by (rule heights_from_append)
  with Suc show ?case by (simp add: add.commute)
qed

lemma collectE_map_eq:
  assumes "collectE f xs = Inr ys" "\<And>x y. x \<in> set xs \<Longrightarrow> f x = Inr y \<Longrightarrow> g y = k x"
  shows "map g ys = map k xs"
  using assms by (auto simp: collectE_eq_Inr list_all2_conv_all_nth list_eq_iff_nth_eq)

lemma fetch_range_heights:
  assumes "fetch_range c n h cnt = Inr bs" "i64_ok h"
  shows "map b_height bs = heights_from h cnt"
proof -
  consider (zero) "cnt = 0" | (one) "cnt = 1" | (many) "1 < cnt" by linarith
  then show ?thesis
  proof cases
    case zero
    with assms show ?thesis by (simp add: fetch_range_def heights_from_def)
  next
    case one
    with assms show ?thesis
      by (auto simp: fetch_range_def map_ok_eq_Inr heights_from_def dest: fetch_block_height)
  next
    case many
    define chunks where "chunks = (if 1 < cl_parallelism c \<and> cnt mod cl_parallelism c = 0
        then cl_parallelism c else 1)"
    define k where "k = cnt div chunks"
    have ck: "chunks * k = cnt" by (auto simp: chunks_def k_def)
    obtain parts where p: "collectE (\<lambda>i. fetch_batch n (wrap64 (h + int (i * k))) k) [0..<chunks] = Inr parts"
      and bs: "bs = concat parts"
      using assms(1) many by (auto simp: fetch_range_def Let_def map_ok_eq_Inr chunks_def k_def)
    from p have "map (map b_height) parts = map (\<lambda>i. heights_from (wrap64 (h + int (i * k))) k) [0..<chunks]"
      by (rule collectE_map_eq) (rule fetch_batch_heights)
    then have "map b_height bs = concat (map (\<lambda>i. heights_from (wrap64 (h + int (i * k))) k) [0..<chunks])"
      by (simp only: bs map_concat)
    then show ?thesis by (simp only: concat_heights ck)
  qed
qed

section \<open>Sources of blocks\<close>

locale block_source =
  fixes fetch :: "i64 \<Rightarrow> nat \<Rightarrow> chain_error + block list"
  assumes fetch_heights: "fetch h n = Inr bs \<Longrightarrow> i64_ok h \<Longrightarrow> map b_height bs = heights_from h n"
begin

lemma fetch_exact:
  assumes "fetch h n = Inr bs" "i64_ok h" "i64_ok (h + int n)"
  shows "map b_height bs = [h..h + int n - 1]"
proof -
  have "heights_from h n = map (\<lambda>i. h + int i) [0..<n]"
    using assms(2,3) by (auto simp: heights_from_def i64_ok_def intro!: wrap64_id)
  also have "\<dots> = [h..h + int n - 1]"
    by (induction n) (simp_all add: upto_rec2 add.commute)
  finally show ?thesis using fetch_heights [OF assms(1,2)] by simp
qed

text \<open>The heights an iterator has still to give.\<close>

definition pending :: "block_iterator \<Rightarrow> i64 list" where
  "pending it = map b_height (it_buffered it) @ [it_next it..it_through it]"

definition it_ok :: "block_iterator \<Rightarrow> bool" where
  "it_ok it \<longleftrightarrow> i64_ok (it_next it) \<and> i64_ok (it_through it + 1)"

lemma iter_next_pending:
  assumes "it_ok it" "0 < batch_size" "iter_next fetch batch_size it = (res, it')"
  shows "case res of Inl e \<Rightarrow> it' = it | Inr None \<Rightarrow> pending it = [] \<and> it' = it
         | Inr (Some b) \<Rightarrow> pending it = b_height b # pending it' \<and> it_ok it'"
proof (cases "it_buffered it")
  case (Cons b bs)
  with assms show ?thesis by (auto simp: iter_next_def pending_def it_ok_def)
next
  case Nil
  show ?thesis
  proof (cases "it_through it < it_next it")
    case True
    with Nil assms show ?thesis by (auto simp: iter_next_def pending_def)
  next
    case False
    define n where "n = min (nat (it_through it - it_next it + 1)) batch_size"
    have n: "0 < n" "it_next it + int n \<le> it_through it + 1"
      using False assms(2) by (auto simp: n_def)
    then have ok: "i64_ok (it_next it)" "i64_ok (it_next it + int n)"
      using assms(1) by (auto simp: it_ok_def i64_ok_def)
    show ?thesis
    proof (cases "fetch (it_next it) n")
      case (Inl e)
      with Nil False assms(3) show ?thesis by (auto simp: iter_next_def Let_def n_def)
    next
      case (Inr bs)
      from fetch_exact [OF Inr ok] have hs: "map b_height bs = [it_next it..it_next it + int n - 1]" .
      then have "bs \<noteq> []" using n(1) by auto
      then obtain c cs where bs: "bs = c # cs" by (cases bs) auto
      have "[it_next it..it_through it] = map b_height bs @ [it_next it + int n..it_through it]"
        using n by (simp only: hs) (subst upto_split2 [of "it_next it" "it_next it + int n - 1"]; simp)
      moreover have "res = Inr (Some c)"
        "it' = it\<lparr>it_next := it_next it + int n, it_buffered := cs\<rparr>"
        using Nil False assms(3) Inr bs ok by (auto simp: iter_next_def Let_def n_def)
      ultimately show ?thesis
        using Nil bs ok assms(1) by (simp add: pending_def it_ok_def)
    qed
  qed
qed

end

interpretation client_ranges: block_source "fetch_range c n" for c n
  by unfold_locales (rule fetch_range_heights)

section \<open>The iterator ends\<close>

text \<open>What the iterator can still hand out; every turn of the loop takes one from it.\<close>

definition it_left :: "block_iterator \<Rightarrow> nat" where
  "it_left it = length (it_buffered it) + nat (it_through it - it_next it + 1)"

definition it_ok :: "block_iterator \<Rightarrow> bool" where
  "it_ok it \<longleftrightarrow> i64_ok (it_next it) \<and> i64_ok (it_through it + 1)"

lemma iter_next_shrinks:
  assumes "\<And>h n bs. i64_ok h \<Longrightarrow> fetch h n = Inr bs \<Longrightarrow> length bs \<le> n" "0 < batch" "it_ok it"
    and "iter_next fetch batch it = (Inr (Some b), it')"
  shows "it_left it' < it_left it \<and> it_ok it'"
proof (cases "it_buffered it")
  case (Cons x xs)
  with assms(3,4) show ?thesis by (auto simp: iter_next_def it_left_def it_ok_def)
next
  case Nil
  define cnt where "cnt = min (nat (it_through it - it_next it + 1)) batch"
  from Nil assms(4) obtain bs where refill: "it_next it \<le> it_through it" "fetch (it_next it) cnt = Inr (b # bs)"
    "it' = it\<lparr>it_next := wrap64 (it_next it + int cnt), it_buffered := bs\<rparr>"
    by (auto simp: iter_next_def Let_def cnt_def split: if_splits sum.splits list.splits)
  have cnt: "0 < cnt" "int cnt \<le> it_through it - it_next it + 1" using refill(1) assms(2) by (auto simp: cnt_def)
  have "i64_ok (it_next it + int cnt)" using assms(3) cnt by (auto simp: it_ok_def i64_ok_def)
  moreover have "length (b # bs) \<le> cnt" using assms(1) [OF _ refill(2)] assms(3) by (simp add: it_ok_def)
  ultimately show ?thesis using refill(3) cnt assms(3) Nil by (auto simp: it_left_def it_ok_def)
qed

end
