(* ===== verification/Sync.thy ===== *)
theory Sync
  imports Writer_Runs Client
begin

text \<open>
  \<open>crates/midgard/src/sync.rs\<close>: the sync loop over the client, the writer and the cursor. What
  happens outside the process during one iteration is its \<open>environment\<close>: the tip, the blocks,
  the cancellations seen and the outcomes of the transactions. The state machine
  \<open>sync_reach\<close> adds crashes and restarts; its invariant is that the database is the projection
  of an initial segment of the chain.
\<close>

section \<open>The loop\<close>

definition BATCH_THRESHOLD :: i64 where "BATCH_THRESHOLD = 10"

definition is_not_ready_yet :: "chain_error \<Rightarrow> bool" where
  "is_not_ready_yet e =
     (let msg = chain_error_str e in
      contains_str ''could not find results for height'' msg
      \<or> contains_str ''must be less than or equal to the current blockchain height'' msg)"

record environment =
  en_tip :: "chain_error + i64"
  en_fetch_range :: "i64 \<Rightarrow> nat \<Rightarrow> chain_error + block list"
  en_fetch_block :: "i64 \<Rightarrow> chain_error + block"
  en_cancelled :: "nat \<Rightarrow> bool"
  en_outcome :: "nat \<Rightarrow> tx_outcome"

record syncer =
  sy_writer :: block_writer
  sy_db :: database
  sy_cursor :: block_cursor
  sy_chain_height :: i64
  sy_initial_height :: i64
  sy_fetch_batch :: nat

definition new_syncer :: "database \<Rightarrow> block_cursor \<Rightarrow> config \<Rightarrow> syncer" where
  "new_syncer db cursor cfg =
     \<lparr>sy_writer = restore (new_writer (commit_batch_size (cf_timescale cfg))) db, sy_db = db,
      sy_cursor = cursor, sy_chain_height = 0,
      sy_initial_height = initial_block_height (cf_genesis cfg),
      sy_fetch_batch = fetch_batch_size (cf_thorchain cfg)\<rparr>"

definition first_height :: "syncer \<Rightarrow> i64" where
  "first_height s = max (sy_initial_height s) 1"

definition pos_of :: "block \<Rightarrow> block_pos" where
  "pos_of b = \<lparr>bp_height = b_height b, bp_timestamp = b_timestamp b\<rparr>"

text \<open>\<open>while let Some(block) = iterator.next().await?\<close>, with fuel for each block and the end.\<close>

fun catch_up_loop ::
    "nat \<Rightarrow> environment \<Rightarrow> nat \<Rightarrow> block_iterator \<Rightarrow> syncer \<Rightarrow> (chain_error + unit) \<times> syncer" where
  "catch_up_loop 0 env i it s = (Inr (), s)"
| "catch_up_loop (Suc fuel) env i it s =
     (case iter_next (en_fetch_range env) (sy_fetch_batch s) it of
        (Inl e, _) \<Rightarrow> (Inl e, s)
      | (Inr None, _) \<Rightarrow> (Inr (), s)
      | (Inr (Some b), it') \<Rightarrow>
          if en_cancelled env i then (Inr (), s)
          else (case add_block (en_outcome env i) (sy_writer s) (sy_db s) b of
            (w, db, sc) \<Rightarrow>
              let s1 = s\<lparr>sy_writer := w, sy_db := db\<rparr> in
              if sc
              then catch_up_loop fuel env (Suc i) it' (s1\<lparr>sy_cursor := observe (sy_cursor s1) (pos_of b)\<rparr>)
              else (Inr (), s1)))"

definition catch_up :: "environment \<Rightarrow> i64 \<Rightarrow> i64 \<Rightarrow> syncer \<Rightarrow> (chain_error + unit) \<times> syncer" where
  "catch_up env from_h tip s = catch_up_loop (Suc (nat (tip - from_h + 1))) env 0 (iterator from_h tip) s"

text \<open>\<open>for height in from..=tip\<close>; each block has the transaction of \<open>add\<close> and that of \<open>flush\<close>.\<close>

fun follow_loop :: "environment \<Rightarrow> nat \<Rightarrow> i64 list \<Rightarrow> syncer \<Rightarrow> (chain_error + unit) \<times> syncer" where
  "follow_loop env i [] s = (Inr (), s)"
| "follow_loop env i (height # heights) s =
     (case en_fetch_block env height of
        Inl e \<Rightarrow> (Inl e, s)
      | Inr b \<Rightarrow>
          (case add_block (en_outcome env (2 * i)) (sy_writer s) (sy_db s) b of
            (w, db, sc) \<Rightarrow>
              let s1 = s\<lparr>sy_writer := w, sy_db := db\<rparr> in
              if \<not> sc then (Inr (), s1)
              else (case flush (en_outcome env (2 * i + 1)) (sy_writer s1) (sy_db s1) of
                (w2, db2, sc2) \<Rightarrow>
                  let s2 = s1\<lparr>sy_writer := w2, sy_db := db2\<rparr> in
                  if \<not> sc2 then (Inr (), s2)
                  else follow_loop env (Suc i) heights
                         (s2\<lparr>sy_cursor := observe (sy_cursor s2) (pos_of b)\<rparr>))))"

definition follow :: "environment \<Rightarrow> i64 \<Rightarrow> i64 \<Rightarrow> syncer \<Rightarrow> (chain_error + unit) \<times> syncer" where
  "follow env from_h tip s = follow_loop env 0 [from_h..tip] s"

definition sync_step :: "environment \<Rightarrow> syncer \<Rightarrow> (chain_error + bool) \<times> syncer" where
  "sync_step env s =
     (case en_tip env of
        Inl e \<Rightarrow> (Inl e, s)
      | Inr tip \<Rightarrow>
          let s1 = s\<lparr>sy_chain_height := tip\<rparr>; next_h = max (next_height (sy_cursor s1)) (first_height s1) in
          if tip < next_h then (Inr False, s1)
          else
            let behind = wrap64 (wrap64 (tip - next_h) + 1);
                (r, s2) = (if BATCH_THRESHOLD < behind then catch_up env next_h tip s1
                           else follow env next_h tip s1)
            in (map_ok (\<lambda>_. True) r, s2))"

text \<open>
  \<open>run\<close>: steps until cancelled, whatever each returns, then a last flush. The wait after a step
  is \<open>last_chain_backoff\<close> unless it wrote.
\<close>

definition step_waits :: "chain_error + bool \<Rightarrow> bool" where
  "step_waits r = (case r of Inr True \<Rightarrow> False | _ \<Rightarrow> True)"

definition run_sync :: "environment list \<Rightarrow> tx_outcome \<Rightarrow> syncer \<Rightarrow> syncer \<times> bool" where
  "run_sync envs oc s =
     (let s1 = foldl (\<lambda>s env. snd (sync_step env s)) s envs in
      case flush oc (sy_writer s1) (sy_db s1) of
        (w, db, sc) \<Rightarrow> (s1\<lparr>sy_writer := w, sy_db := db\<rparr>, sc))"

text \<open>What \<open>main\<close> does on the database of a previous run, the schema unchanged.\<close>

definition startup :: "config \<Rightarrow> database \<Rightarrow> syncer" where
  "startup cfg db = new_syncer db (refresh new_cursor db) cfg"

section \<open>Blocks up to a height\<close>

definition good_chain :: "(i64 \<Rightarrow> block) \<Rightarrow> bool" where
  "good_chain chain \<longleftrightarrow> (\<forall>h. b_height (chain h) = h) \<and>
     (\<forall>g h. g < h \<longrightarrow> b_timestamp (chain g) < b_timestamp (chain h))"

definition honest :: "(i64 \<Rightarrow> block) \<Rightarrow> environment \<Rightarrow> bool" where
  "honest chain env \<longleftrightarrow>
     (\<forall>tip. en_tip env = Inr tip \<longrightarrow> i64_ok (tip + 1)) \<and>
     (\<forall>h b. en_fetch_block env h = Inr b \<longrightarrow> b = chain h) \<and>
     (\<forall>h n bs. en_fetch_range env h n = Inr bs \<longrightarrow> bs = map chain [h..h + int n - 1])"

definition segment :: "(i64 \<Rightarrow> block) \<Rightarrow> i64 \<Rightarrow> i64 \<Rightarrow> block list" where
  "segment chain f k = map chain [f..k - 1]"

definition cursor_at :: "(i64 \<Rightarrow> block) \<Rightarrow> i64 \<Rightarrow> i64 \<Rightarrow> block_cursor" where
  "cursor_at chain f k =
     (if k = f then new_cursor else \<lparr>cu_first = pos_of (chain f), cu_last = pos_of (chain (k - 1))\<rparr>)"

text \<open>The blocks from the first height to below \<open>k\<close> are stored or buffered, and observed.\<close>

definition synced_at :: "(i64 \<Rightarrow> block) \<Rightarrow> i64 \<Rightarrow> syncer \<Rightarrow> i64 \<Rightarrow> bool" where
  "synced_at chain f s k \<longleftrightarrow> f \<le> k \<and> i64_ok k \<and> first_height s = f \<and> 0 < sy_fetch_batch s \<and>
     sy_cursor s = cursor_at chain f k \<and>
     (\<exists>pre post. pre @ post = segment chain f k \<and> in_step (sy_writer s) (sy_db s) pre post)"

definition stored_to :: "(i64 \<Rightarrow> block) \<Rightarrow> i64 \<Rightarrow> database \<Rightarrow> i64 \<Rightarrow> bool" where
  "stored_to chain f db k \<longleftrightarrow> f \<le> k \<and> i64_ok k \<and> db = projection (segment chain f k)"

lemma i64_ok_between: "1 \<le> f \<Longrightarrow> f \<le> j \<Longrightarrow> j \<le> k \<Longrightarrow> i64_ok k \<Longrightarrow> i64_ok j"
  by (simp add: i64_ok_def)

lemma segment_snoc: "f \<le> k \<Longrightarrow> segment chain f (k + 1) = segment chain f k @ [chain k]"
  by (simp add: segment_def upto_rec2)

lemma segment_prefix:
  assumes "pre @ post = segment chain f k" "f \<le> k"
  shows "\<exists>j. f \<le> j \<and> j \<le> k \<and> pre = segment chain f j"
proof -
  have "pre = take (length pre) (segment chain f k)" using assms(1) by (metis append_eq_conv_conj)
  also have "\<dots> = map chain (take (length pre) [f..k - 1])" by (simp add: segment_def take_map)
  also have "take (length pre) [f..k - 1] = [f..f + int (length pre) - 1]"
  proof -
    have le: "f + int (length pre) \<le> k"
      using arg_cong [OF assms(1), of length] assms(2) by (simp add: segment_def)
    have "[f..k - 1] = [f..f + int (length pre) - 1] @ [f + int (length pre)..k - 1]"
      using le by (cases "length pre = 0") (auto intro: upto_split2 [where j = "f + int (length pre) - 1", simplified])
    then show ?thesis by simp
  qed
  finally have "pre = segment chain f (f + int (length pre))" by (simp add: segment_def)
  moreover have "f + int (length pre) \<le> k"
    using arg_cong [OF assms(1), of length] assms(2) by (simp add: segment_def)
  ultimately show ?thesis by (intro exI [of _ "f + int (length pre)"]) simp
qed

lemma chain_ok_segment: "good_chain chain \<Longrightarrow> chain_ok (segment chain f k)"
proof -
  assume g: "good_chain chain"
  have "sorted_wrt (<) [f..k - 1]" by simp
  then have "sorted_wrt (\<lambda>x y. x < y \<and> b_timestamp (chain x) < b_timestamp (chain y)) [f..k - 1]"
    by (rule sorted_wrt_mono_rel [rotated]) (use g in \<open>simp add: good_chain_def\<close>)
  with g show ?thesis by (simp add: chain_ok_def segment_def sorted_wrt_map good_chain_def)
qed

section \<open>One transaction\<close>

lemma flush_any:
  assumes "in_step w db pre post" "flush oc w db = (w', db', sc)"
  shows "(sc \<longrightarrow> in_step w' db' (pre @ post) []) \<and> (db' = projection pre \<or> db' = projection (pre @ post))"
  using assms(2)
proof (cases rule: flush_cases)
  case idle
  then show ?thesis using assms(1) by (simp add: in_step_def buffered_def)
next
  case success
  then have "db' = projection (pre @ post)" using in_step_settled [OF assms(1)] by simp
  with success assms(1) show ?thesis by (simp add: in_step_def buffered_def)
next
  case failure
  then show ?thesis using in_step_settled [OF assms(1)] assms(1) by (auto simp: in_step_def)
qed

lemma add_any:
  assumes "in_step w db pre post" "chain_ok (pre @ post @ [b])" "add_block oc w db b = (w', db', sc)"
  shows "(sc \<longrightarrow> (\<exists>p q. in_step w' db' p q \<and> p @ q = pre @ post @ [b]))
    \<and> (db' = projection pre \<or> db' = projection (pre @ post @ [b])) \<and> (oc = Committed \<longrightarrow> sc)"
proof -
  note buf = in_step_buffer [OF assms(1,2)]
  show ?thesis
  proof (cases "w_batch_size (buffer_block w b) \<le> length (w_blocks (buffer_block w b))")
    case True
    with assms(3) have f: "flush oc (buffer_block w b) db = (w', db', sc)" by (simp add: add_block_def)
    then have "oc = Committed \<longrightarrow> sc" using flush_commits [OF buf] by auto
    with flush_any [OF buf f] show ?thesis by auto
  next
    case False
    with assms buf show ?thesis by (auto simp: add_block_def in_step_def)
  qed
qed

section \<open>One iteration\<close>

text \<open>
  What every piece of the loop keeps, from the blocks below \<open>k\<close>: the database holds an initial
  segment, and where every transaction is committed the state is again in step, at \<open>k'\<close>.
\<close>

definition kept :: "(i64 \<Rightarrow> block) \<Rightarrow> i64 \<Rightarrow> bool \<Rightarrow> i64 \<Rightarrow> syncer \<Rightarrow> bool" where
  "kept chain f committed k s \<longleftrightarrow> (\<exists>j. stored_to chain f (sy_db s) j) \<and>
     (committed \<longrightarrow> (\<exists>k'\<ge>k. synced_at chain f s k'))"

lemma synced_stored:
  assumes "synced_at chain f s k" "1 \<le> f"
  shows "\<exists>j. stored_to chain f (sy_db s) j"
proof -
  obtain pre post where pp: "pre @ post = segment chain f k" "in_step (sy_writer s) (sy_db s) pre post"
      "f \<le> k" "i64_ok k"
    using assms by (auto simp: synced_at_def)
  then obtain j where "f \<le> j" "j \<le> k" "pre = segment chain f j" using segment_prefix by blast
  with pp i64_ok_between [OF assms(2)] show ?thesis by (auto simp: stored_to_def in_step_def)
qed

lemma kept_synced: "synced_at chain f s k \<Longrightarrow> 1 \<le> f \<Longrightarrow> kept chain f c k s"
  using synced_stored by (auto simp: kept_def)

lemma kept_mono: "kept chain f c k' s \<Longrightarrow> k \<le> k' \<Longrightarrow> kept chain f c k s"
  unfolding kept_def by (meson order_trans)

text \<open>One block more, observed.\<close>

lemma synced_add:
  assumes "good_chain chain" "synced_at chain f s k" "1 \<le> f" "i64_ok (k + 1)"
    and "add_block oc (sy_writer s) (sy_db s) (chain k) = (w, db, sc)"
  shows "sc \<Longrightarrow> \<exists>p q. p @ q = segment chain f (k + 1) \<and> in_step w db p q"
    and "\<exists>j. stored_to chain f db j" "oc = Committed \<Longrightarrow> sc"
proof -
  obtain pre post where pp: "pre @ post = segment chain f k" "in_step (sy_writer s) (sy_db s) pre post"
      "f \<le> k" "i64_ok k"
    using assms(2) by (auto simp: synced_at_def)
  have all: "pre @ post @ [chain k] = segment chain f (k + 1)"
    using pp(1,3) by (simp add: segment_snoc flip: append_assoc)
  then have "chain_ok (pre @ post @ [chain k])" using chain_ok_segment [OF assms(1)] by simp
  from add_any [OF pp(2) this assms(5)] all
  have r: "sc \<longrightarrow> (\<exists>p q. in_step w db p q \<and> p @ q = segment chain f (k + 1))"
    "db = projection pre \<or> db = projection (segment chain f (k + 1))" "oc = Committed \<longrightarrow> sc"
    by auto
  then show "sc \<Longrightarrow> \<exists>p q. p @ q = segment chain f (k + 1) \<and> in_step w db p q" "oc = Committed \<Longrightarrow> sc"
    by blast+
  obtain j where "f \<le> j" "j \<le> k" "pre = segment chain f j" using segment_prefix [OF pp(1,3)] by blast
  moreover have "f \<le> k + 1" using pp(3) by simp
  moreover have "i64_ok j" using i64_ok_between [OF assms(3) \<open>f \<le> j\<close> \<open>j \<le> k\<close> pp(4)] .
  moreover note assms(4)
  ultimately show "\<exists>j. stored_to chain f db j" using r(2) by (metis stored_to_def)
qed

lemma observe_at:
  assumes "f \<le> k" "1 \<le> f" "good_chain chain"
  shows "observe (cursor_at chain f k) (pos_of (chain k)) = cursor_at chain f (k + 1)"
  using assms
  by (auto simp: cursor_at_def observe_def new_cursor_def empty_pos_def is_empty_def pos_of_def
      good_chain_def)

lemma synced_observe:
  assumes "good_chain chain" "synced_at chain f s k" "1 \<le> f" "i64_ok (k + 1)"
    and "p @ q = segment chain f (k + 1)" "in_step w db p q"
  shows "synced_at chain f (s\<lparr>sy_writer := w, sy_db := db,
           sy_cursor := observe (sy_cursor s) (pos_of (chain k))\<rparr>) (k + 1)"
  using assms observe_at [of f k chain] by (auto simp: synced_at_def first_height_def)

abbreviation all_committed :: "environment \<Rightarrow> bool" where
  "all_committed env \<equiv> (\<forall>i. en_outcome env i = Committed)"

text \<open>An iterator that will give the blocks from \<open>k\<close> on.\<close>

definition iter_at :: "(i64 \<Rightarrow> block) \<Rightarrow> i64 \<Rightarrow> block_iterator \<Rightarrow> bool" where
  "iter_at chain k it \<longleftrightarrow> k \<le> it_next it \<and> it_buffered it = map chain [k..it_next it - 1] \<and>
     i64_ok (it_next it) \<and> i64_ok (it_through it + 1)"

lemma iter_next_at:
  assumes "iter_at chain k it" "honest chain env" "0 < n"
    and "iter_next (en_fetch_range env) n it = (Inr (Some b), it')"
  shows "b = chain k \<and> iter_at chain (k + 1) it'"
proof (cases "it_buffered it")
  case (Cons c cs)
  then have "k \<le> it_next it - 1" "c = chain k" "cs = map chain [k + 1..it_next it - 1]"
    using assms(1) by (cases "k \<le> it_next it - 1"; simp add: iter_at_def upto_rec1 [of k])+
  with Cons assms(1,4) show ?thesis by (auto simp: iter_next_def iter_at_def)
next
  case Nil
  then have k: "k = it_next it" using assms(1) by (cases "k \<le> it_next it - 1") (auto simp: iter_at_def upto_rec1 [of k])
  show ?thesis
  proof (cases "it_through it < it_next it")
    case True
    with Nil assms(4) show ?thesis by (simp add: iter_next_def)
  next
    case False
    define m where "m = min (nat (it_through it - it_next it + 1)) n"
    have m: "0 < m" "it_next it + int m \<le> it_through it + 1" using False assms(3) by (auto simp: m_def)
    then have ok: "i64_ok (it_next it + int m)" using assms(1) by (auto simp: iter_at_def i64_ok_def)
    obtain bs where bs: "en_fetch_range env (it_next it) m = Inr bs"
      using Nil False assms(4) by (cases "en_fetch_range env (it_next it) m") (auto simp: iter_next_def Let_def m_def)
    then have "bs = map chain [k..k + int m - 1]" using assms(2) k by (auto simp: honest_def)
    then have "bs = chain k # map chain [k + 1..k + int m - 1]" using m(1) by (simp add: upto_rec1)
    with Nil False assms(1,4) bs ok m(1) show ?thesis
      by (auto simp: iter_next_def Let_def m_def [symmetric] k iter_at_def)
  qed
qed

lemma catch_up_loop_keeps:
  assumes "good_chain chain" "honest chain env" "1 \<le> f"
  shows "synced_at chain f s k \<Longrightarrow> iter_at chain k it \<Longrightarrow>
    kept chain f (all_committed env) k (snd (catch_up_loop fuel env i it s))"
proof (induction fuel arbitrary: i it s k)
  case 0
  then show ?case using assms(3) by (simp add: kept_synced)
next
  case (Suc fuel)
  note stay = kept_synced [OF Suc.prems(1) assms(3)]
  have n: "0 < sy_fetch_batch s" using Suc.prems(1) by (simp add: synced_at_def)
  obtain res it' where it: "iter_next (en_fetch_range env) (sy_fetch_batch s) it = (res, it')" by force
  show ?case
  proof (cases "\<exists>b. res = Inr (Some b) \<and> \<not> en_cancelled env i")
    case False
    then show ?thesis using it stay by (auto split: sum.split option.split)
  next
    case True
    then obtain b where b: "res = Inr (Some b)" "\<not> en_cancelled env i" by blast
    from iter_next_at [OF Suc.prems(2) assms(2) n] it b(1)
    have bk: "b = chain k" "iter_at chain (k + 1) it'" by auto
    then have k1: "i64_ok (k + 1)"
      using Suc.prems(1) assms(3) by (auto simp: iter_at_def synced_at_def i64_ok_def)
    obtain w db sc where a: "add_block (en_outcome env i) (sy_writer s) (sy_db s) (chain k) = (w, db, sc)"
      by (metis prod_cases3)
    note add = synced_add [OF assms(1) Suc.prems(1) assms(3) k1 a]
    show ?thesis
    proof (cases sc)
      case False
      then have "\<not> all_committed env" using add(3) by blast
      with add(2) False it b bk a show ?thesis by (auto simp: kept_def)
    next
      case True
      with add(1) obtain p q where pq: "p @ q = segment chain f (k + 1)" "in_step w db p q" by blast
      from Suc.IH [OF synced_observe [OF assms(1) Suc.prems(1) assms(3) k1 pq] bk(2), of "Suc i"]
      show ?thesis using True it b bk(1) a by (auto intro: kept_mono)
    qed
  qed
qed

lemma follow_loop_keeps:
  assumes "good_chain chain" "honest chain env" "1 \<le> f" "i64_ok (tip + 1)"
  shows "synced_at chain f s k \<Longrightarrow> kept chain f (all_committed env) k (snd (follow_loop env i [k..tip] s))"
proof (induction "nat (tip + 1 - k)" arbitrary: i s k)
  case 0
  then show ?case using assms(3) by (simp add: kept_synced)
next
  case (Suc n)
  then have le: "k \<le> tip" by simp
  then have hs: "[k..tip] = k # [k + 1..tip]" by (simp add: upto_rec1)
  have k1: "i64_ok (k + 1)"
    using le assms(3,4) Suc.prems(1) by (auto simp: synced_at_def i64_ok_def)
  note stay = kept_synced [OF Suc.prems(1) assms(3)]
  show ?case
  proof (cases "en_fetch_block env k")
    case (Inl e)
    then show ?thesis using stay by (simp add: hs)
  next
    case (Inr b)
    then have bk: "b = chain k" using assms(2) by (auto simp: honest_def)
    obtain w db sc where a: "add_block (en_outcome env (2 * i)) (sy_writer s) (sy_db s) (chain k) = (w, db, sc)"
      by (metis prod_cases3)
    note add = synced_add [OF assms(1) Suc.prems(1) assms(3) k1 a]
    show ?thesis
    proof (cases sc)
      case False
      then have "\<not> all_committed env" using add(3) by blast
      with add(2) False Inr bk a show ?thesis by (auto simp: hs kept_def)
    next
      case True
      with add(1) obtain p q where pq: "p @ q = segment chain f (k + 1)" "in_step w db p q" by blast
      have fk: "f \<le> k + 1" using Suc.prems(1) by (simp add: synced_at_def)
      obtain w2 db2 sc2 where fl: "flush (en_outcome env (2 * i + 1)) w db = (w2, db2, sc2)"
        by (metis prod_cases3)
      have fa: "sc2 \<longrightarrow> in_step w2 db2 (p @ q) []" "db2 = projection p \<or> db2 = projection (p @ q)"
        using flush_any [OF pq(2) fl] by auto
      show ?thesis
      proof (cases sc2)
        case False
        then have "\<not> all_committed env" using flush_commits [OF pq(2)] fl by metis
        moreover obtain j where "f \<le> j" "j \<le> k + 1" "p = segment chain f j"
          using segment_prefix [OF pq(1) fk] by blast
        then have "\<exists>j. stored_to chain f db2 j"
          using fa(2) fk pq(1) k1 i64_ok_between [OF assms(3)] by (metis stored_to_def)
        ultimately show ?thesis using False True Inr bk a fl by (auto simp: hs kept_def)
      next
        case sc2: True
        with fa(1) pq(1) have st: "(p @ q) @ [] = segment chain f (k + 1)" "in_step w2 db2 (p @ q) []"
          by simp_all
        have "n = nat (tip + 1 - (k + 1))" using Suc.hyps(2) by simp
        from Suc.hyps(1) [OF this synced_observe [OF assms(1) Suc.prems assms(3) k1 st], of "Suc i"]
        show ?thesis using sc2 True Inr bk a fl by (auto simp: hs intro: kept_mono)
      qed
    qed
  qed
qed

lemma next_height_at:
  assumes "good_chain chain" "synced_at chain f s k" "1 \<le> f" "i64_ok k"
  shows "max (next_height (sy_cursor s)) (first_height s) = k"
proof (cases "k = f")
  case True
  with assms show ?thesis
    by (simp add: synced_at_def cursor_at_def next_height_def new_cursor_def empty_pos_def i64_ok_def)
next
  case False
  with assms show ?thesis
    by (simp add: synced_at_def cursor_at_def next_height_def pos_of_def good_chain_def)
qed

lemma synced_irrelevant:
  "synced_at chain f (s\<lparr>sy_chain_height := t\<rparr>) k \<longleftrightarrow> synced_at chain f s k"
  by (simp add: synced_at_def first_height_def)

lemma sync_step_keeps:
  assumes "good_chain chain" "honest chain env" "1 \<le> f" "synced_at chain f s k"
  shows "kept chain f (all_committed env) k (snd (sync_step env s))"
proof (cases "en_tip env")
  case (Inl e)
  with assms(3,4) show ?thesis by (simp add: sync_step_def kept_synced)
next
  case (Inr tip)
  define s1 where "s1 = s\<lparr>sy_chain_height := tip\<rparr>"
  have s1: "synced_at chain f s1 k" using assms(4) by (simp add: s1_def synced_irrelevant)
  have k: "i64_ok k" "i64_ok (tip + 1)" using assms(2,4) Inr by (auto simp: synced_at_def honest_def)
  have nh: "max (next_height (sy_cursor s1)) (first_height s1) = k"
    using next_height_at [OF assms(1) s1 assms(3) k(1)] .
  have it: "iter_at chain k (iterator k tip)"
    using k by (auto simp: iter_at_def iterator_def)
  have "snd (sync_step env s) \<in> {s1, snd (catch_up env k tip s1), snd (follow env k tip s1)}"
    using Inr nh by (auto simp: sync_step_def Let_def s1_def case_prod_unfold)
  moreover have "kept chain f (all_committed env) k (snd (catch_up env k tip s1))"
    unfolding catch_up_def by (rule catch_up_loop_keeps [OF assms(1-3) s1 it])
  moreover have "kept chain f (all_committed env) k (snd (follow env k tip s1))"
    using follow_loop_keeps [OF assms(1-3) k(2) s1] by (simp add: follow_def)
  ultimately show ?thesis using kept_synced [OF s1 assms(3)] by auto
qed

section \<open>Restarting\<close>

lemma segment_nth: "h \<in> {f..<k} \<longleftrightarrow> h \<in> set [f..k - 1]"
  by auto

lemma refresh_segment:
  assumes "good_chain chain" "f \<le> k"
  shows "refresh new_cursor (projection (segment chain f k)) = cursor_at chain f k"
proof -
  let ?db = "projection (segment chain f k)"
  have log: "?db ''block_log'' = map (\<lambda>h. block_row (block_entry_of (chain h))) [f..k - 1]"
    by (simp add: projection_def segment_def)
  have cells: "int_cell (block_row (block_entry_of (chain h))) ''height'' = h"
    "pos_of_row (block_row (block_entry_of (chain h))) = pos_of (chain h)" for h
    using assms(1) by (simp_all add: block_entry_of_def pos_of_row_def pos_of_def good_chain_def)
  show ?thesis
  proof (cases "k = f")
    case True
    then show ?thesis
      using log by (simp add: refresh_def first_block_def last_block_def first_row_def cursor_at_def)
  next
    case False
    with assms(2) have fk: "f \<in> set [f..k - 1]" "k - 1 \<in> set [f..k - 1]" by auto
    have "first_row (\<lambda>r. int_cell r ''height'') (?db ''block_log'') \<noteq> None"
      "first_row (\<lambda>r. - int_cell r ''height'') (?db ''block_log'') \<noteq> None"
      using log fk by auto
    then obtain r q where r: "first_row (\<lambda>r. int_cell r ''height'') (?db ''block_log'') = Some r"
      and q: "first_row (\<lambda>r. - int_cell r ''height'') (?db ''block_log'') = Some q" by blast
    let ?row = "\<lambda>h. block_row (block_entry_of (chain h))"
    have mem: "x \<in> set (?db ''block_log'') \<longleftrightarrow> (\<exists>h\<in>set [f..k - 1]. x = ?row h)" for x
      by (auto simp: log)
    obtain h where h: "h \<in> set [f..k - 1]" "r = ?row h" using first_row_min(1) [OF r] mem by blast
    have "int_cell r ''height'' \<le> int_cell (?row f) ''height''"
      using first_row_min(2) [OF r] mem fk(1) by blast
    then have "h = f" using h by (simp add: cells)
    then have "pos_of_row r = pos_of (chain f)" using h(2) cells(2) by simp
    moreover obtain h where h: "h \<in> set [f..k - 1]" "q = ?row h" using first_row_min(1) [OF q] mem by blast
    have "- int_cell q ''height'' \<le> - int_cell (?row (k - 1)) ''height''"
      using first_row_min(2) [OF q] mem fk(2) by blast
    then have "h = k - 1" using h by (simp add: cells)
    then have "pos_of_row q = pos_of (chain (k - 1))" using h(2) cells(2) by simp
    ultimately show ?thesis
      using False r q by (simp add: refresh_def first_block_def last_block_def cursor_at_def Let_def)
  qed
qed

lemma restored_in_step:
  assumes "chain_ok bs"
  shows "in_step (restore (new_writer n) (projection bs)) (projection bs) bs []"
  using restore_projection [OF assms, of "new_writer n"] assms
  by (simp add: in_step_def buffered_def) (simp add: restore_def new_writer_def)

lemma startup_synced:
  assumes "good_chain chain" "stored_to chain f db k"
    and "f = max (initial_block_height (cf_genesis cfg)) 1" "0 < fetch_batch_size (cf_thorchain cfg)"
  shows "synced_at chain f (startup cfg db) k"
proof -
  have k: "f \<le> k" "db = projection (segment chain f k)" "i64_ok k" using assms(2) by (simp_all add: stored_to_def)
  have "in_step (restore (new_writer (commit_batch_size (cf_timescale cfg))) db) db (segment chain f k) []"
    unfolding k(2) by (rule restored_in_step [OF chain_ok_segment [OF assms(1)]])
  moreover have "refresh new_cursor db = cursor_at chain f k"
    unfolding k(2) using refresh_segment [OF assms(1) k(1)] .
  ultimately show ?thesis
    using assms(3,4) k(1,3)
    by (auto simp: startup_def new_syncer_def synced_at_def first_height_def intro: exI [of _ "[]"])
qed

section \<open>The state machine\<close>

text \<open>
  Steps whose transactions all commit; steps with any outcome, after which the process dies; deaths
  between two steps. Each death is followed by a start on the database it left. Heights stay below
  the last one an \<open>i64\<close> can name.
\<close>

inductive sync_reach :: "(i64 \<Rightarrow> block) \<Rightarrow> config \<Rightarrow> syncer \<Rightarrow> bool" for chain cfg where
  fresh: "sync_reach chain cfg (startup cfg empty_db)"
| step: "sync_reach chain cfg s \<Longrightarrow> honest chain env \<Longrightarrow> all_committed env \<Longrightarrow>
         sync_reach chain cfg (snd (sync_step env s))"
| crash: "sync_reach chain cfg s \<Longrightarrow> sync_reach chain cfg (startup cfg (sy_db s))"
| crash_in_step: "sync_reach chain cfg s \<Longrightarrow> honest chain env \<Longrightarrow>
         sync_reach chain cfg (startup cfg (sy_db (snd (sync_step env s))))"

inductive_cases sync_reachE: "sync_reach chain cfg s"

lemma empty_stored: "i64_ok f \<Longrightarrow> stored_to chain f empty_db f"
  by (auto simp: stored_to_def segment_def projection_def empty_db_def fun_eq_iff)

lemma sync_reach_synced:
  assumes "good_chain chain" "0 < fetch_batch_size (cf_thorchain cfg)"
    and "f = max (initial_block_height (cf_genesis cfg)) 1" "i64_ok f"
    and "sync_reach chain cfg s"
  shows "\<exists>k. synced_at chain f s k"
  using assms(5)
proof (induction rule: sync_reach.induct)
  case fresh
  then show ?case using startup_synced [OF assms(1) empty_stored [OF assms(4)] assms(3,2)] by blast
next
  case (step s env)
  then obtain k where "synced_at chain f s k" by blast
  from sync_step_keeps [OF assms(1) step.hyps(2) _ this] assms(3) step.hyps(3)
  show ?case by (auto simp: kept_def)
next
  case (crash s)
  then obtain k j where "synced_at chain f s k" "stored_to chain f (sy_db s) j"
    using synced_stored assms(3) by fastforce
  then show ?case using startup_synced [OF assms(1) _ assms(3,2)] by blast
next
  case (crash_in_step s env)
  then obtain k where "synced_at chain f s k" by blast
  from sync_step_keeps [OF assms(1) crash_in_step.hyps(2) _ this] assms(3)
  obtain j where "stored_to chain f (sy_db (snd (sync_step env s))) j" by (auto simp: kept_def)
  then show ?case using startup_synced [OF assms(1) _ assms(3,2)] by blast
qed

section \<open>Progress\<close>

text \<open>A node that answers everything, and nobody cancels.\<close>

definition responsive :: "(i64 \<Rightarrow> block) \<Rightarrow> environment \<Rightarrow> bool" where
  "responsive chain env \<longleftrightarrow> (\<forall>h n. en_fetch_range env h n = Inr (map chain [h..h + int n - 1])) \<and>
     (\<forall>h. en_fetch_block env h = Inr (chain h)) \<and> (\<forall>i. \<not> en_cancelled env i) \<and> all_committed env"

lemma iter_next_live:
  assumes "iter_at chain k it" "responsive chain env" "0 < n" "it_next it \<le> it_through it + 1"
    and "k \<le> it_through it"
  shows "\<exists>it'. iter_next (en_fetch_range env) n it = (Inr (Some (chain k)), it') \<and>
    it_next it' \<le> it_through it' + 1 \<and> it_through it' = it_through it"
proof (cases "it_buffered it")
  case (Cons c cs)
  then have "c = chain k"
    using assms(1) by (cases "k \<le> it_next it - 1") (simp_all add: iter_at_def upto_rec1 [of k])
  with Cons assms(4) show ?thesis by (simp add: iter_next_def)
next
  case Nil
  then have k: "k = it_next it"
    using assms(1) by (cases "k \<le> it_next it - 1") (auto simp: iter_at_def upto_rec1 [of k])
  define m where "m = min (nat (it_through it - it_next it + 1)) n"
  have m: "0 < m" "it_next it + int m \<le> it_through it + 1" using assms(3,5) k by (auto simp: m_def)
  then have ok: "i64_ok (it_next it + int m)" using assms(1) by (auto simp: iter_at_def i64_ok_def)
  have "en_fetch_range env k m = Inr (chain k # map chain [k + 1..k + int m - 1])"
    using assms(2) m(1) by (simp add: responsive_def upto_rec1 [of k])
  with Nil assms(5) ok m show ?thesis
    by (simp add: iter_next_def Let_def m_def [symmetric] k)
qed

lemma catch_up_loop_tip:
  assumes "good_chain chain" "honest chain env" "1 \<le> f" "responsive chain env"
  shows "synced_at chain f s k \<Longrightarrow> iter_at chain k it \<Longrightarrow> it_next it \<le> it_through it + 1 \<Longrightarrow>
    k \<le> it_through it + 1 \<Longrightarrow> nat (it_through it + 1 - k) < fuel \<Longrightarrow>
    \<exists>s'. catch_up_loop fuel env i it s = (Inr (), s') \<and> synced_at chain f s' (it_through it + 1)"
proof (induction fuel arbitrary: i it s k)
  case 0
  then show ?case by simp
next
  case (Suc fuel)
  have n: "0 < sy_fetch_batch s" using Suc.prems(1) by (simp add: synced_at_def)
  show ?case
  proof (cases "k \<le> it_through it")
    case False
    then have k: "k = it_through it + 1" using Suc.prems(4) by simp
    then have "it_buffered it = []" "it_through it < it_next it"
      using Suc.prems(2,3) by (auto simp: iter_at_def)
    then have "iter_next (en_fetch_range env) (sy_fetch_batch s) it = (Inr None, it)"
      by (simp add: iter_next_def)
    with Suc.prems(1) k show ?thesis by simp
  next
    case True
    from iter_next_live [OF Suc.prems(2) assms(4) n Suc.prems(3) True]
    obtain it' where it: "iter_next (en_fetch_range env) (sy_fetch_batch s) it = (Inr (Some (chain k)), it')"
      "it_next it' \<le> it_through it' + 1" "it_through it' = it_through it" by blast
    have at: "iter_at chain (k + 1) it'"
      using iter_next_at [OF Suc.prems(2) assms(2) n it(1)] by blast
    then have k1: "i64_ok (k + 1)"
      using Suc.prems(1) assms(3) by (auto simp: iter_at_def synced_at_def i64_ok_def)
    obtain w db sc where a: "add_block (en_outcome env i) (sy_writer s) (sy_db s) (chain k) = (w, db, sc)"
      by (metis prod_cases3)
    note add = synced_add [OF assms(1) Suc.prems(1) assms(3) k1 a]
    have sc using add(3) assms(4) by (simp add: responsive_def)
    with add(1) obtain p q where pq: "p @ q = segment chain f (k + 1)" "in_step w db p q" by blast
    have "k + 1 \<le> it_through it' + 1" "nat (it_through it' + 1 - (k + 1)) < fuel"
      using True it(3) Suc.prems(5) by simp_all
    from Suc.IH [OF synced_observe [OF assms(1) Suc.prems(1) assms(3) k1 pq] at it(2) this, of "Suc i"]
    show ?thesis using it a \<open>sc\<close> assms(4) by (simp add: responsive_def)
  qed
qed

lemma follow_loop_tip:
  assumes "good_chain chain" "1 \<le> f" "responsive chain env" "i64_ok (tip + 1)"
  shows "synced_at chain f s k \<Longrightarrow> k \<le> tip + 1 \<Longrightarrow>
    \<exists>s'. follow_loop env i [k..tip] s = (Inr (), s') \<and> synced_at chain f s' (tip + 1)"
proof (induction "nat (tip + 1 - k)" arbitrary: i s k)
  case 0
  then have "k = tip + 1" by simp
  with "0.prems" show ?case by simp
next
  case (Suc n)
  then have le: "k \<le> tip" by simp
  then have hs: "[k..tip] = k # [k + 1..tip]" by (simp add: upto_rec1)
  have k1: "i64_ok (k + 1)"
    using le assms(2,4) Suc.prems(1) by (auto simp: synced_at_def i64_ok_def)
  have com: "en_outcome env j = Committed" for j using assms(3) by (simp add: responsive_def)
  obtain w db sc where a: "add_block Committed (sy_writer s) (sy_db s) (chain k) = (w, db, sc)"
    by (metis prod_cases3)
  note add = synced_add [OF assms(1) Suc.prems(1) assms(2) k1 a]
  have sc using add(3) by simp
  with add(1) obtain p q where pq: "p @ q = segment chain f (k + 1)" "in_step w db p q" by blast
  obtain w2 db2 sc2 where fl: "flush Committed w db = (w2, db2, sc2)" by (metis prod_cases3)
  have st: "(p @ q) @ [] = segment chain f (k + 1)" "in_step w2 db2 (p @ q) []" "sc2"
    using flush_commits [OF pq(2) fl] pq(1) by simp_all
  have "n = nat (tip + 1 - (k + 1))" "k + 1 \<le> tip + 1" using Suc.hyps(2) le by simp_all
  from Suc.hyps(1) [OF this(1) synced_observe [OF assms(1) Suc.prems(1) assms(2) k1 st(1,2)] this(2), of "Suc i"]
  show ?case using assms(3) \<open>sc\<close> \<open>sc2\<close> a fl by (simp add: hs com responsive_def)
qed

lemma sync_step_tip:
  assumes "good_chain chain" "honest chain env" "1 \<le> f" "responsive chain env" "en_tip env = Inr tip"
    and "synced_at chain f s k" "k \<le> tip"
  shows "\<exists>s'. sync_step env s = (Inr True, s') \<and> synced_at chain f s' (tip + 1)"
proof -
  define s1 where "s1 = s\<lparr>sy_chain_height := tip\<rparr>"
  have s1: "synced_at chain f s1 k" using assms(6) by (simp add: s1_def synced_irrelevant)
  have k: "i64_ok k" "i64_ok (tip + 1)" using assms(2,5,6) by (auto simp: synced_at_def honest_def)
  have nh: "max (next_height (sy_cursor s1)) (first_height s1) = k"
    using next_height_at [OF assms(1) s1 assms(3) k(1)] .
  have "iter_at chain k (iterator k tip)" using k by (auto simp: iter_at_def iterator_def)
  then have "\<exists>s'. catch_up env k tip s1 = (Inr (), s') \<and> synced_at chain f s' (tip + 1)"
    using catch_up_loop_tip [OF assms(1-4) s1, of "iterator k tip" "Suc (nat (tip - k + 1))" 0] assms(7)
    by (simp add: catch_up_def iterator_def del: catch_up_loop.simps)
  moreover have "\<exists>s'. follow env k tip s1 = (Inr (), s') \<and> synced_at chain f s' (tip + 1)"
    using follow_loop_tip [OF assms(1,3,4) k(2) s1] assms(7) by (simp add: follow_def)
  ultimately obtain s2 s3 where "catch_up env k tip s1 = (Inr (), s2)" "synced_at chain f s2 (tip + 1)"
    "follow env k tip s1 = (Inr (), s3)" "synced_at chain f s3 (tip + 1)" by blast
  then show ?thesis using assms(5,7) nh by (simp add: sync_step_def Let_def s1_def)
qed

section \<open>A failed flush that is retried\<close>

text \<open>
  After a rolled back flush the buffers keep the block, and the loop fetches it again: its rows are
  written twice.
\<close>

lemma retried_block_twice:
  assumes "in_step w db pre []" "w_batch_size w = 1" "chain_ok (pre @ [b])"
    and "add_block RolledBack w db b = (w1, db1, sc1)" "add_block Committed w1 db1 b = (w2, db2, sc2)"
  shows "\<not> sc1" "sc2" "t \<in> set EVENT_TABLES \<Longrightarrow>
    db2 t = db t @ event_rows t (block_pendings b) @ event_rows t (block_pendings b)"
proof -
  let ?w = "buffer_block w b"
  have w: "w_blocks w = []" "w_events w = []" "w_depths w = []" "db = projection pre"
    using assms(1) by (simp_all add: in_step_def buffered_def)
  have f1: "flush RolledBack ?w db = (w1, db1, sc1)"
    using assms(2,4) by (simp add: add_block_def buffer_block_fields)
  have "w_blocks ?w \<noteq> []" by (simp add: buffer_block_fields)
  with f1 have 1: "w1 = ?w" "db1 = db" "\<not> sc1" by (cases rule: flush_cases; simp)+
  then show "\<not> sc1" by simp
  let ?v = "buffer_block ?w b"
  let ?e = "block_entry_of b"
  have f2: "flush Committed ?v db = (w2, db2, sc2)"
    using assms(2,5) 1 by (simp add: add_block_def buffer_block_fields)
  have "block_keys [?e] db"
    using projection_blocks_fresh [OF assms(3)] w(4) by simp
  then have e1: "insert_block ?e db = Some (insert_rows ''block_log'' [block_row ?e] db)"
    using write_blocks_fresh [of "[?e]" db] by (cases "insert_block ?e db") auto
  have "list_ex (\<lambda>r. int_cell r ''height'' = fst ?e) (insert_rows ''block_log'' [block_row ?e] db ''block_log'')"
    by (simp add: block_entry_of_def)
  then have e2: "insert_block ?e (insert_rows ''block_log'' [block_row ?e] db) =
      Some (insert_rows ''block_log'' [block_row ?e] db)"
    by (simp add: insert_block_def block_entry_of_def)
  have st: "settled ?v db = Some (extend_db (data_rows (w_depths ?v) (w_events ?v))
      (insert_rows ''block_log'' [block_row ?e] db))"
    by (simp add: settled_def write_batch_extend buffer_block_fields w(1-3) e1 e2)
  have ne: "w_blocks ?v \<noteq> []" by (simp add: buffer_block_fields)
  from f2 have "sc2 \<and> settled ?v db = Some db2"
  proof (cases rule: flush_cases)
    case failure
    with st f2 ne show ?thesis by (auto simp: flush_def settled_def run_tx_def)
  qed (use ne in auto)
  then show "sc2" "t \<in> set EVENT_TABLES \<Longrightarrow>
    db2 t = db t @ event_rows t (block_pendings b) @ event_rows t (block_pendings b)"
    using st by (auto simp: extend_db_def data_rows_def buffer_block_fields w event_rows_append EVENT_TABLES_def)
qed

section \<open>The fuel of catching up\<close>

lemma catch_up_fuel:
  assumes "\<And>h n bs. i64_ok h \<Longrightarrow> en_fetch_range env h n = Inr bs \<Longrightarrow> length bs \<le> n" "0 < sy_fetch_batch s" "it_ok it"
    and "it_left it < fuel" "it_left it < fuel'"
  shows "catch_up_loop fuel env i it s = catch_up_loop fuel' env i it s"
  using assms(2-)
proof (induction fuel arbitrary: fuel' i it s)
  case (Suc fuel)
  then obtain g where g: "fuel' = Suc g" by (cases fuel') auto
  show ?case
  proof (cases "\<exists>b it'. iter_next (en_fetch_range env) (sy_fetch_batch s) it = (Inr (Some b), it')")
    case True
    then obtain b it' where n: "iter_next (en_fetch_range env) (sy_fetch_batch s) it = (Inr (Some b), it')" by blast
    have "it_left it' < it_left it \<and> it_ok it'" by (rule iter_next_shrinks [OF assms(1) Suc.prems(1,2) n])
    with Suc.prems have "catch_up_loop fuel env j it' r = catch_up_loop g env j it' r" if "0 < sy_fetch_batch r" for j r
      using that by (intro Suc.IH) (auto simp: g)
    with Suc.prems(1) show ?thesis by (auto simp: g n Let_def split: prod.splits)
  next
    case False
    then show ?thesis
      by (cases "iter_next (en_fetch_range env) (sy_fetch_batch s) it") (auto simp: g split: sum.splits option.splits)
  qed
qed simp

end
