(* ===== verification/Pipeline_Properties.thy ===== *)
theory Pipeline_Properties
  imports Sync
begin

text \<open>
  The properties of the path from the chain to the database: fetching, decoding, depths, writing,
  recovery and the sync loop.
\<close>

section \<open>A chain for the witnesses\<close>

definition sample_event :: event where
  "sample_event = make_event ''add_liquidity''
     [(''mode'', ''EndBlock''), (''pool'', ''BTC.BTC''), (''asset_amount'', ''7''),
      (''rune_amount'', ''5''), (''liquidity_provider_units'', ''3'')]"

definition sample_swap :: event where
  "sample_swap = make_event ''swap''
     [(''pool'', ''BTC.BTC''), (''coin'', ''1000 THOR.RUNE''), (''emit_asset'', ''10 BTC/BTC''),
      (''liquidity_fee_in_rune'', ''2'')]"

definition sample_rewards :: event where
  "sample_rewards = make_event ''rewards'' [(''bond_reward'', ''6''), (''BTC.BTC'', ''4'')]"

definition sample_block :: "i64 \<Rightarrow> block" where
  "sample_block h =
     \<lparr>b_height = h, b_timestamp = h * 1000000000, b_hash = ''0A'', b_chain_id = ''thorchain'',
      b_results = \<lparr>br_height = h, finalize_block_events = [sample_event, sample_rewards],
        txs_results = Some [\<lparr>tx_code_is_err = False, tx_events = [sample_swap]\<rparr>]\<rparr>, b_txs = []\<rparr>"

definition sample_env :: "i64 \<Rightarrow> environment" where
  "sample_env tip =
     \<lparr>en_tip = Inr tip, en_fetch_range = (\<lambda>h n. Inr (map sample_block [h..h + int n - 1])),
      en_fetch_block = (\<lambda>h. Inr (sample_block h)), en_cancelled = (\<lambda>_. False),
      en_outcome = (\<lambda>_. Committed)\<rparr>"

lemma sample_good: "good_chain sample_block"
  by (simp add: good_chain_def sample_block_def)

lemma sample_honest: "i64_ok (tip + 1) \<Longrightarrow> honest sample_block (sample_env tip)"
  by (simp add: honest_def sample_env_def)

lemma sample_responsive: "responsive sample_block (sample_env tip)"
  by (simp add: responsive_def sample_env_def)

lemma sample_chain_ok: "chain_ok [sample_block 1, sample_block 2]"
  by (simp add: chain_ok_def sample_block_def)

lemma default_config_ok:
  "0 < fetch_batch_size (cf_thorchain default_config)"
  "initial_block_height (cf_genesis default_config) = 0"
  by (simp_all add: default_config_def default_thor_chain_def default_genesis_def)

section \<open>The sync loop\<close>


lemma sample_reached:
  "sync_reach sample_block default_config (snd (sync_step (sample_env 3) (startup default_config empty_db)))"
proof (rule sync_reach.step [OF sync_reach.fresh])
  show "honest sample_block (sample_env 3)" by (rule sample_honest) (simp add: i64_ok_def)
  show "all_committed (sample_env 3)" by (simp add: sample_env_def)
qed






text \<open>A node that answers every request with an error.\<close>

definition down :: node where
  "down = \<lparr>nd_send = (\<lambda>_. Inl (Malformed [] [])), nd_show = (\<lambda>_. []), nd_block = (\<lambda>_. Inl []), nd_results = (\<lambda>_. Inl [])\<rparr>"

definition some_client :: client where
  "some_client = \<lparr>cl_url = [], cl_batch_size = 7, cl_parallelism = 1, cl_max_status_retries = 1, cl_status_retry_backoff = 0\<rparr>"


section \<open>The writer\<close>

text \<open>C10: the database is a projection of the chain: whatever the batch size and whichever flushes
  are rolled back on the way, after a flush that commits every table holds exactly what the blocks
  added contribute, and the buffers are empty.\<close>

theorem database_is_projection:
  assumes "chain_ok bs" "length ocs = length bs" "CommitLost \<notin> set ocs"
    and "add_blocks ocs (new_writer n) empty_db bs = (w, db)"
  shows "flush Committed w db =
    (w\<lparr>w_blocks := [], w_events := [], w_depths := []\<rparr>, projection bs, True)"
proof -
  obtain pre post where pp: "in_step w db pre post" "pre @ post = bs"
    using in_step_add_blocks [OF in_step_new _ assms(2-4)] assms(1) by auto
  obtain w' db' sc where f: "flush Committed w db = (w', db', sc)" by (metis prod_cases3)
  have "in_step w' db' bs []" "sc" using flush_commits [OF pp(1) f] pp(2) by auto
  moreover have "w' = w\<lparr>w_blocks := [], w_events := [], w_depths := []\<rparr>"
    using f pp(1) \<open>sc\<close> by (cases rule: flush_cases) (auto simp: in_step_def buffered_def)
  ultimately show ?thesis using f by (simp add: in_step_def)
qed

theorem database_is_projection_witness:
  "\<exists>w db. add_blocks [RolledBack, Committed] (new_writer 1) empty_db [sample_block 1, sample_block 2] = (w, db)
    \<and> flush Committed w db = (w\<lparr>w_blocks := [], w_events := [], w_depths := []\<rparr>,
        projection [sample_block 1, sample_block 2], True)"
proof -
  obtain w db where a: "add_blocks [RolledBack, Committed] (new_writer 1) empty_db
      [sample_block 1, sample_block 2] = (w, db)" by force
  from database_is_projection [OF sample_chain_ok _ _ a] a show ?thesis by auto
qed

text \<open>A crash loses less than a batch: while every transaction commits, the database holds the
  blocks added but for the last few, whole, and those are fewer than the batch size.\<close>

lemma crash_loses_less_than_a_batch:
  assumes "chain_ok bs" "add_blocks (replicate (length bs) Committed) (new_writer n) empty_db bs = (w, db)"
  shows "\<exists>pre post. bs = pre @ post \<and> db = projection pre \<and> length post < max n 1"
proof -
  have "length (w_blocks (new_writer n)) < w_batch_size (new_writer n)" "chain_ok ([] @ [] @ bs)"
    using assms(1) by (simp_all add: new_writer_def)
  from in_step_committed_blocks [OF in_step_new this(2,1) assms(2)] obtain p q where
    "in_step w db p q" "bs = p @ q" "length (w_blocks w) < w_batch_size (new_writer n)" by auto
  then show ?thesis by (auto simp: in_step_def buffered_def new_writer_def)
qed

text \<open>C11: a restart rebuilds the depths in memory exactly: reading the last row of every pool gives
  the tracker that decoded the whole chain, with nothing left to report.\<close>

theorem restart_restores_depths:
  assumes "chain_ok bs"
  shows "w_tracker (restore (new_writer n) (projection bs)) = trackers new_tracker bs"
  by (rule restore_projection [OF assms])

theorem restart_restores_depths_witness:
  "w_tracker (restore (new_writer 1) (projection [sample_block 1, sample_block 2])) =
   trackers new_tracker [sample_block 1, sample_block 2]"
  by (rule restart_restores_depths [OF sample_chain_ok])

text \<open>C12: rolling back to a height undoes the blocks from that height on and nothing else: every
  table is left as the blocks below it wrote it.\<close>

theorem rollback_is_exact:
  assumes "chain_ok (pre @ b # post)"
  shows "delete_from_height Committed (projection (pre @ b # post)) (b_height b) = (projection pre, True)"
  by (rule delete_from_projection [OF assms])

theorem rollback_is_exact_witness:
  "delete_from_height Committed (projection [sample_block 1, sample_block 2]) 2 =
   (projection [sample_block 1], True)"
  using rollback_is_exact [of "[sample_block 1]" "sample_block 2" "[]"] sample_chain_ok
  by (simp add: sample_block_def)



end
