(* ===== verification/History_Properties.thy ===== *)
theory History_Properties
  imports Router Level_Reads Earnings_Totals Pipeline_Properties
begin

text \<open>The properties of the history endpoints.\<close>

section \<open>A state to try them on\<close>

definition sample_state :: app_state where
  "sample_state =
     \<lparr>as_cursor = \<lparr>cu_first = \<lparr>bp_height = 1, bp_timestamp = 1000000000\<rparr>,
                   cu_last = \<lparr>bp_height = 2, bp_timestamp = 7000000000\<rparr>\<rparr>,
      as_config = default_config\<lparr>usd_pools := []\<rparr>, as_thornode = ''http://localhost:1317'',
      as_chain_height = 2, as_node_http = (\<lambda>_. Inl (True, ''connection refused'')), as_clock = 10, as_ping = True,
      as_date_trunc = utc_trunc, as_collate = (\<lambda>xs. xs), as_hash_order = (\<lambda>xs. xs)\<rparr>"

definition sample_swap_row :: "nano \<Rightarrow> int \<Rightarrow> row" where
  "sample_swap_row ts d = [(''block_timestamp'', VInt ts), (''_direction'', VInt d), (''pool'', VText ''BTC.BTC''),
     (''from_e8'', VInt 100), (''to_e8'', VInt 7), (''liq_fee_in_rune_e8'', VInt 3), (''swap_slip_bp'', VInt 20),
     (''event_id'', VInt (ts div 1000000000))]"

definition table_db :: "string \<Rightarrow> row list \<Rightarrow> database" where
  "table_db table rows t = (if t = table then rows else [])"

definition sample_deposit :: "nano \<Rightarrow> row" where
  "sample_deposit ts = [(''block_timestamp'', VInt ts), (''pool'', VText ''BTC.BTC''), (''rune_addr'', VText ''thor1a''),
     (''asset_addr'', VText ''bc1a''), (''rune_e8'', VInt 50), (''asset_e8'', VInt 9), (''_asset_in_rune_e8'', VInt 0),
     (''stake_units'', VInt 100), (''event_id'', VInt (ts div 1000000000))]"

section \<open>Flows\<close>

lemma generated:
  assumes "with_query raw m f = q" "with_params raw m Inr = Inr a"
  shows "answer q db = answer (f a) db"
  using assms by (auto simp: with_query_def)

definition sample_span :: "(string \<times> string) list" where
  "sample_span = [(''from'', ''1''), (''to'', ''6'')]"

lemma sample_span_params:
  "with_params sample_span swap_params Inr =
     Inr (\<lparr>bp_from = Some 1, bp_to = Some 6, bp_count = None, bp_interval = None\<rparr>, None)"
  "with_params sample_span liquidity_params Inr =
     Inr (\<lparr>bp_from = Some 1, bp_to = Some 6, bp_count = None, bp_interval = None\<rparr>, None)"
  "with_params sample_span level_params Inr =
     Inr \<lparr>bp_from = Some 1, bp_to = Some 6, bp_count = None, bp_interval = None\<rparr>"
  "with_params sample_span take_buckets Inr =
     Inr \<lparr>bp_from = Some 1, bp_to = Some 6, bp_count = None, bp_interval = None\<rparr>"
  by code_simp+

lemma sample_span_buckets:
  "generate \<lparr>bp_from = Some 1, bp_to = Some 6, bp_count = None, bp_interval = None\<rparr> (as_cursor sample_state) =
     Inr (one_bucket 1 6)"
  by (simp add: generate_def Let_def)

lemma sample_state_ok:
  "utc (as_date_trunc sample_state)" "cursor_sane (as_cursor sample_state)"
  "params_sane \<lparr>bp_from = Some 1, bp_to = Some 6, bp_count = None, bp_interval = None\<rparr>"
  "\<forall>t\<in>set (bu_timestamps (one_bucket 1 6)). 0 \<le> t \<and> t \<le> 9223372036"
  by (simp_all add: sample_state_def utc_utc_trunc cursor_sane_def params_sane_def i64_ok_def one_bucket_def)

text \<open>C26: an entry of the earnings history adds up: its pools are those with fees or rewards, each once
  and in order; the liquidity earnings are the pools' fees and rewards together, the block rewards the
  bond and the pools' share, the earnings all three, at 64 bits.\<close>

theorem earnings_entry_adds_up:
  assumes "amounts_ok fees" "amounts_ok rewards"
  shows "sorted (map ep_pool (eh_pools (earnings_item usd f u fees rewards bond_share))) \<and>
    distinct (map ep_pool (eh_pools (earnings_item usd f u fees rewards bond_share))) \<and>
    set (map ep_pool (eh_pools (earnings_item usd f u fees rewards bond_share))) = fst ` set fees \<union> fst ` set rewards \<and>
    eh_liquidity_fees (earnings_item usd f u fees rewards bond_share) = int_str (wrap64 (sum_list (map snd fees))) \<and>
    eh_liquidity_earnings (earnings_item usd f u fees rewards bond_share) = int_str (wrap64 (sum_list (map snd fees) + sum_list (map snd rewards))) \<and>
    eh_block_rewards (earnings_item usd f u fees rewards bond_share) = int_str (wrap64 (bond_share + sum_list (map snd rewards))) \<and>
    eh_earnings (earnings_item usd f u fees rewards bond_share) = int_str (wrap64 (sum_list (map snd fees) + bond_share + sum_list (map snd rewards)))"
proof -
  let ?ns = "pool_names fees rewards"
  let ?F = "sum_list (map snd fees)" and ?R = "sum_list (map snd rewards)"
  have names: "map ep_pool (eh_pools (earnings_item usd f u fees rewards bond_share)) = ?ns"
    by (simp add: earnings_item_def earnings_pool_def Let_def comp_def)
  have F: "sum64 (map (amount_of fees) ?ns) = wrap64 ?F" and R: "sum64 (map (amount_of rewards) ?ns) = wrap64 ?R"
    unfolding sum64_def
    using sum_over_names [OF assms(1) pool_names_sorted(2)] sum_over_names [OF assms(2) pool_names_sorted(2)]
    by (simp_all add: pool_names_sorted(3))
  have "wrap64 (wrap64 ?F + bond_share + wrap64 ?R) = wrap64 (?F + (bond_share + ?R))"
    by (metis add.assoc wrap64_add_left wrap64_add_right)
  then show ?thesis
    unfolding names using pool_names_sorted [of fees rewards]
    by (simp add: earnings_item_def Let_def F R add.assoc)
qed

theorem earnings_entry_adds_up_witness:
  "eh_earnings (earnings_item (Zero False) 1 6 [(''A.A'', 7)] [(''A.A'', 40), (''B.B'', - 15)] 100) = int_str 132 \<and>
   distinct (map ep_pool (eh_pools (earnings_item (Zero False) 1 6 [(''A.A'', 7)] [(''A.A'', 40), (''B.B'', - 15)] 100)))"
proof -
  have "amounts_ok [(''A.A'', 7)]" "amounts_ok [(''A.A'', 40), (''B.B'', - 15)]"
    by (simp_all add: amounts_ok_def i64_ok_def)
  from earnings_entry_adds_up [OF this, of "Zero False" 1 6 100] show ?thesis by (simp add: i64_ok_def)
qed

end
