(* ===== verification/Api_Properties.thy ===== *)
theory Api_Properties
  imports History_Properties
begin

text \<open>The properties of the requests as a whole and of the endpoints that are not histories.\<close>

section \<open>Requests\<close>

lemma serve_other:
  assumes "route path = Some ep" "ep \<noteq> StatsPage"
  shows "serve_request s path raw reads cache = (case handle s ep raw reads of (r, n) \<Rightarrow> (r, cache, n))"
  using assms by (cases ep) (simp_all add: serve_request_def)

text \<open>C28: a query parameter the endpoint does not know is refused as a bad request, before any query has
  run, on every endpoint that takes parameters; a typo is never ignored.\<close>

theorem unknown_parameters_are_refused:
  assumes "route path = Some ep" "known_params ep = Some ks" "k \<in> set (map fst raw)" "k \<notin> ks"
  shows "\<exists>msg. serve_request s path raw reads cache = (into_response (BadRequest msg), cache, 0)"
proof -
  obtain msg where "handle s ep raw reads = (into_response (BadRequest msg), 0)"
    using handle_unknown [OF assms(2-4)] by blast
  moreover have "ep \<noteq> StatsPage" using assms(2) by auto
  ultimately have "serve_request s path raw reads cache = (into_response (BadRequest msg), cache, 0)"
    using serve_other [OF assms(1)] by simp
  then show ?thesis by blast
qed

theorem unknown_parameters_are_refused_witness:
  "\<exists>msg. serve_request sample_state [''v2'', ''history'', ''swaps''] [(''intreval'', ''day'')] (\<lambda>_. Inr empty_db) None =
     (into_response (BadRequest msg), None, 0)"
  by (rule unknown_parameters_are_refused [where k = "''intreval''" and ep = SwapsPage
        and ks = "{''from'', ''to'', ''count'', ''interval'', ''pool''}"]) (simp_all add: route_def)

text \<open>C29: a query that fails ends the request: no further query runs, the answer is status 500, and its
  body says no more than that; nothing of the query's own message reaches the caller, and the cache of
  the statistics is left as it was.\<close>

theorem failed_queries_are_hidden:
  assumes "serve_request s path raw reads cache = (r, cache', n)" "k < n" "reads k = Inl msg"
  shows "n = Suc k \<and> cache' = cache \<and>
    r = \<lparr>rs_status = 500, rs_body = JsonBody (JObj [(''error'', JStr ''Internal Server Error'')])\<rparr>"
proof (cases "route path = Some StatsPage")
  case True
  let ?c = "compute_stats s reads"
  obtain r0 c0 ran0 where g: "get_or_compute (bp_height (cu_last (as_cursor s))) (fst ?c) cache = (r0, c0, ran0)"
    by (metis prod_cases3)
  have ran: "ran0" "n = snd ?c" and res: "cache' = c0" "r = (case r0 of Inl e \<Rightarrow> into_response e | Inr st \<Rightarrow> ok_json (json_of_stats st))"
    using assms(1,2) True g by (auto simp: serve_request_def stats_page_def split: sum.splits if_splits)
  have "?c = (Inl (Internal msg), Suc k)"
    using clean_compute_stats [of s] assms(2,3) ran(2) by (simp add: fails_clean_def)
  then have "r0 = Inl (Internal msg)" "c0 = cache" "n = Suc k"
    using g ran by (auto simp: get_or_compute_cases split: option.splits if_splits)
  with res show ?thesis by (simp add: into_response_def)
next
  case False
  have "route path \<noteq> None"
  proof
    assume "route path = None"
    with assms(1,2) show False by (simp add: serve_request_def)
  qed
  with False obtain ep where p: "route path = Some ep" "ep \<noteq> StatsPage" by auto
  with serve_other [OF p] assms(1) have ep: "handle s ep raw reads = (r, n)" "cache' = cache"
    by (auto split: prod.splits)
  from handle_fails [of k s ep raw reads msg] ep assms(2,3) show ?thesis by (simp add: into_response_def)
qed

theorem failed_queries_are_hidden_witness:
  "serve_request sample_state [''v2'', ''knownpools''] [] (\<lambda>_. Inl ''password authentication failed'') None =
     (\<lparr>rs_status = 500, rs_body = JsonBody (JObj [(''error'', JStr ''Internal Server Error'')])\<rparr>, None, 1)"
proof -
  obtain r c n where q: "serve_request sample_state [''v2'', ''knownpools''] [] (\<lambda>_. Inl ''password authentication failed'') None = (r, c, n)"
    by (metis prod_cases3)
  moreover have "n = 1"
    using q by (auto simp: serve_request_def route_def known_pools_def respond_def ask_def split: sum.splits)
  ultimately show ?thesis
    using failed_queries_are_hidden [of sample_state "[''v2'', ''knownpools'']" "[]" "\<lambda>_. Inl ''password authentication failed''" None r c n 0]
    by simp
qed

section \<open>Statistics\<close>

text \<open>A run of requests for the statistics, each with its state and its database.\<close>

fun serve_stats :: "stats height_cache \<Rightarrow> (app_state \<times> reads) list \<Rightarrow> (error + stats) list \<times> nat" where
  "serve_stats cache [] = ([], 0)"
| "serve_stats cache ((s, reads) # reqs) =
     (case stats_page s cache reads of (r, cache', n) \<Rightarrow>
        case serve_stats cache' reqs of (rs, m) \<Rightarrow> (r # rs, n + m))"

abbreviation height_in :: "app_state \<Rightarrow> i64" where
  "height_in s \<equiv> bp_height (cu_last (as_cursor s))"

lemma stats_page_agrees:
  assumes "cache_agrees A cache" "fst (compute_stats s reads) = A (height_in s)" "stats_page s cache reads = (r, cache', n)"
  shows "r = A (height_in s)" "cache_agrees A cache'"
proof -
  obtain c ran0 where "get_or_compute (height_in s) (A (height_in s)) cache = (r, c, ran0)" "cache' = c"
    using assms(2,3) by (auto simp: stats_page_def split: prod.splits)
  with get_agrees [OF assms(1)] show "r = A (height_in s)" "cache_agrees A cache'" by auto
qed

lemma serve_stats_agrees:
  assumes "cache_agrees A cache" "\<forall>(s, reads)\<in>set reqs. fst (compute_stats s reads) = A (height_in s)"
  shows "fst (serve_stats cache reqs) = map (\<lambda>(s, _). A (height_in s)) reqs"
  using assms
proof (induction cache reqs rule: serve_stats.induct)
  case (2 cache s reads reqs)
  obtain r c n where p: "stats_page s cache reads = (r, c, n)" by (metis prod_cases3)
  have c: "fst (compute_stats s reads) = A (height_in s)" using "2.prems"(2) by simp
  note a = stats_page_agrees [OF "2.prems"(1) c p]
  have "fst (serve_stats c reqs) = map (\<lambda>(s, _). A (height_in s)) reqs"
    using "2.IH" [OF p [symmetric]] a(2) "2.prems"(2) by simp
  then show ?case using p a(1) by (auto split: prod.splits)
qed simp

lemma serve_stats_cached:
  "\<forall>(s, _)\<in>set reqs. height_in s = h \<Longrightarrow>
   serve_stats (Some (h, v)) reqs = (replicate (length reqs) (Inr v), 0)"
  by (induction reqs) (auto simp: stats_page_def get_or_compute_def)



end
