(* ===== verification/Page_Properties.thy ===== *)
theory Page_Properties
  imports Api_Properties
begin

text \<open>The properties of the feed, the pools, the members, the network and the statistics.\<close>

section \<open>The feed of actions\<close>

text \<open>C27: a client that follows the page tokens walks the feed: each page is the next slice of the actions
  below the token it started from, newest first, every action once and none left out, with whatever
  number of actions each of the three tables contributes, and although the database grows between the
  requests.\<close>

theorem page_tokens_walk_the_feed:
  assumes "1 \<le> aq_limit q" "aq_next_token q = Some hi" "0 \<le> hi"
    and "\<forall>db\<in>set dbs. distinct (map fst (feed q db)) \<and> filter (\<lambda>r. fst r < hi) (feed q db) = F"
    and "\<forall>r\<in>set F. 0 < fst r \<and> i64_ok (fst r)"
  shows "walk q dbs = take (length dbs * nat (aq_limit q)) (sort_key (\<lambda>r. - fst r) F)"
  using walk_slices [OF assms(1-3)] assms(4,5) by blast

definition sample_query :: action_query where
  "sample_query = \<lparr>aq_address = None, aq_asset = None, aq_type = None, aq_next_token = Some 10, aq_limit = 1\<rparr>"

theorem page_tokens_walk_the_feed_witness:
  "map fst (walk sample_query
     [\<lambda>t. if t = ''swap_events'' then [sample_swap_row 2000000000 0] else if t = ''stake_events'' then [sample_deposit 3000000000] else [],
      \<lambda>t. if t = ''swap_events'' then [sample_swap_row 2000000000 0, sample_swap_row 20000000000 0]
          else if t = ''stake_events'' then [sample_deposit 3000000000] else []]) = [3, 2]"
proof -
  let ?F = "[swap_action (sample_swap_row 2000000000 0), deposit_action (sample_deposit 3000000000)]"
  let ?dbs = "[\<lambda>t. if t = ''swap_events'' then [sample_swap_row 2000000000 0] else if t = ''stake_events'' then [sample_deposit 3000000000] else [],
      \<lambda>t. if t = ''swap_events'' then [sample_swap_row 2000000000 0, sample_swap_row 20000000000 0]
          else if t = ''stake_events'' then [sample_deposit 3000000000] else []]"
  have ids: "fst (swap_action (sample_swap_row ts d)) = ts div 1000000000"
    "fst (deposit_action (sample_deposit ts)) = ts div 1000000000" for ts d
    by (simp_all add: sample_swap_row_def sample_deposit_def int_cell_def)
  have feeds: "\<forall>db\<in>set ?dbs. distinct (map fst (feed sample_query db)) \<and> filter (\<lambda>r. fst r < 10) (feed sample_query db) = ?F"
    by (simp add: feed_def wants_def sample_query_def selected_def from_address_def either_address_def of_pool_def ids
        del: action_ids)
  have "walk sample_query ?dbs = take 2 (sort_key (\<lambda>r. - fst r) ?F)"
    using page_tokens_walk_the_feed [of sample_query 10 ?dbs ?F] feeds
    by (simp add: sample_query_def ids i64_ok_def del: action_ids)
  then show ?thesis by (simp add: ids del: action_ids)
qed

section \<open>Wire forms\<close>

text \<open>What a computation yields when it succeeds.\<close>

definition yields :: "'a asks \<Rightarrow> ('a \<Rightarrow> bool) \<Rightarrow> bool" where
  "yields m P \<longleftrightarrow> (\<forall>reads a. fst (m reads) = Inr a \<longrightarrow> P a)"

lemma yields_ask: "(\<And>db a. q db = Inr a \<Longrightarrow> P a) \<Longrightarrow> yields (ask q) P"
  by (auto simp: yields_def ask_def bindE_eq_Inr)

lemma yields_returns: "(\<And>a. r = Inr a \<Longrightarrow> P a) \<Longrightarrow> yields (returns r) P"
  by (simp add: yields_def returns_def)

lemma yields_then: "yields m Q \<Longrightarrow> (\<And>a. Q a \<Longrightarrow> yields (f a) P) \<Longrightarrow> yields (ask_then m f) P"
  by (auto simp: yields_def ask_then_def split: prod.splits sum.splits) (metis fst_conv)+

abbreviation plain_metadata :: "feed_row list \<Rightarrow> bool" where
  "plain_metadata rows \<equiv> \<forall>r\<in>set rows. no_numbers (an_metadata (snd r))"

lemma plain_feed: "yields (feed_page q) plain_metadata"
proof -
  have f: "yields (when_wanted c (swap_feed a p t l)) plain_metadata"
    "yields (when_wanted c (deposit_feed a p t l)) plain_metadata"
    "yields (when_wanted c (withdraw_feed a p t l)) plain_metadata" for c a p t l
    by (auto simp: when_wanted_def swap_feed_def deposit_feed_def withdraw_feed_def swap_action_def deposit_action_def
        withdraw_action_def Let_def intro!: yields_ask yields_returns)
  show ?thesis
    unfolding feed_page_def
  proof (intro yields_then [OF f(1)] yields_then [OF f(2)] yields_then [OF f(3)] yields_returns)
    fix sw de wi rows :: "feed_row list"
    assume "plain_metadata sw" "plain_metadata de" "plain_metadata wi"
      and "Inr (take (nat (aq_limit q)) (sort_key (\<lambda>r. - fst r) (sw @ de @ wi))) = (Inr rows :: error + feed_row list)"
    moreover from this have "set rows \<subseteq> set (sw @ de @ wi)" by (metis set_sort set_take_subset sum.inject(2))
    ultimately show "plain_metadata rows" by auto
  qed
qed

lemma plain_response: "plain_metadata rows \<Longrightarrow> no_numbers (json_of_actions (actions_response q rows))"
  by (auto simp: actions_response_def json_of_actions_def json_of_action_def json_of_transaction_def
      json_of_action_coin_def json_of_actions_meta_def list_all_iff)

lemma plain_actions: "yields (actions_feed s raw) (\<lambda>a. no_numbers (json_of_actions a))"
  unfolding actions_feed_def with_query_def
  by (rule yields_then [where Q = "\<lambda>_. True"], simp add: yields_def, rule yields_then [OF plain_feed],
      rule yields_returns) (use plain_response in auto)

lemma respond_plain:
  assumes "yields m (\<lambda>a. no_numbers (wire a))" "respond wire m reads = (r, n)" "rs_body r = JsonBody j"
  shows "no_numbers j"
proof (cases "m reads")
  case (Pair x k)
  show ?thesis
  proof (cases x)
    case (Inl e)
    with Pair assms(2,3) show ?thesis by (auto simp: respond_def into_response_def)
  next
    case (Inr a)
    with Pair have "no_numbers (wire a)" using assms(1) unfolding yields_def by (metis fst_conv)
    with Inr Pair assms(2,3) show ?thesis by (auto simp: respond_def ok_json_def)
  qed
qed

lemma plain_wire: "yields m (\<lambda>a. no_numbers (wire a))" if "\<And>a. no_numbers (wire a)"
  using that by (simp add: yields_def)

text \<open>C30: amounts, prices and times go over the wire as text: no answer of the API but that of
  \<open>/v2/health\<close> has a JSON number in it, so that no client rounds an amount beyond 2^53.\<close>

theorem numbers_travel_as_text:
  assumes "route path = Some ep" "ep \<noteq> HealthPage"
    and "serve_request s path raw reads cache = (r, cache', n)" "rs_body r = JsonBody j"
  shows "no_numbers j"
proof (cases "ep = StatsPage")
  case True
  then show ?thesis
    using assms by (auto simp: serve_request_def stats_page_def ok_json_def into_response_def json_of_stats_def
        split: sum.splits prod.splits)
next
  case False
  with assms(1,3) have h: "handle s ep raw reads = (r, n)"
    using serve_other [OF assms(1)] by (auto split: prod.splits)
  note plain = respond_plain [OF plain_wire]
  show ?thesis
  proof (cases ep)
    case ActionsPage
    with h assms(4) show ?thesis using respond_plain [OF plain_actions] by simp
  qed (use h assms(2,4) False in \<open>auto simp: wire_defs root_body_def ok_json_def known_pools_json_def list_all_iff
      case_prod_unfold elim!: plain [rotated]\<close>)
qed

theorem numbers_travel_as_text_witness:
  "\<exists>j. serve_request sample_state [''v2'', ''knownpools''] [] (\<lambda>_. Inr empty_db) None =
     (\<lparr>rs_status = 200, rs_body = JsonBody j\<rparr>, None, 1) \<and> no_numbers j"
proof -
  have r: "route [''v2'', ''knownpools''] = Some KnownPoolsPage" by (simp add: route_def)
  obtain j where j: "serve_request sample_state [''v2'', ''knownpools''] [] (\<lambda>_. Inr empty_db) None =
     (\<lparr>rs_status = 200, rs_body = JsonBody j\<rparr>, None, 1)"
    using serve_other [OF r, of sample_state "[]" "\<lambda>_. Inr empty_db" None]
    by (simp add: known_pools_def respond_def ask_def ok_json_def)
  with numbers_travel_as_text [OF r _ j] show ?thesis by auto
qed

section \<open>Prices\<close>

text \<open>RUNE is priced by the deepest anchor pool that has both sides; without one the price is zero.\<close>

lemma deepest_pool_prices_rune:
  "(filter (\<lambda>(_, a, r). 0 < a \<and> 0 < r) rows = [] \<longrightarrow> price_from_depths rows = Zero False) \<and>
   (filter (\<lambda>(_, a, r). 0 < a \<and> 0 < r) rows \<noteq> [] \<longrightarrow>
      (\<exists>p a r. (p, a, r) \<in> set rows \<and> 0 < a \<and> 0 < r \<and> price_from_depths rows = f64_div (f64_of_i64 a) (f64_of_i64 r) \<and>
        (\<forall>(_, a', r')\<in>set rows. 0 < a' \<longrightarrow> 0 < r' \<longrightarrow> r' \<le> r)))"
proof (cases "max_by (\<lambda>(_, _, rune_e8). rune_e8) (filter (\<lambda>(_, a, r). 0 < a \<and> 0 < r) rows)")
  case None
  then show ?thesis by (simp add: price_from_depths_def)
next
  case (Some x)
  obtain p a r where x: "x = (p, a, r)" by (metis prod_cases3)
  from max_by_max [OF Some] x have "(p, a, r) \<in> set rows" "0 < a" "0 < r"
    "\<forall>(_, a', r')\<in>set rows. 0 < a' \<longrightarrow> 0 < r' \<longrightarrow> r' \<le> r" by auto
  moreover have "price_from_depths rows = f64_div (f64_of_i64 a) (f64_of_i64 r)"
    using Some x by (simp add: price_from_depths_def)
  moreover have "filter (\<lambda>(_, a, r). 0 < a \<and> 0 < r) rows \<noteq> []" using Some by (metis max_by_None option.distinct(1))
  ultimately show ?thesis by blast
qed

section \<open>The network\<close>

lemma sorted_bonds:
  assumes "sorted xs" "xs \<noteq> []"
  shows "xs ! 0 * int (length xs) \<le> sum_list xs" "sum_list xs \<le> xs ! (length xs - 1) * int (length xs)"
proof -
  have lo: "xs ! 0 \<le> x" and hi: "x \<le> xs ! (length xs - 1)" if "x \<in> set xs" for x
    using that assms by (auto simp: in_set_conv_nth intro: sorted_nth_mono)
  have lo_sum: "b * int (length ys) \<le> sum_list ys" if "\<forall>y\<in>set ys. b \<le> y" for b and ys :: "int list"
    using that by (induction ys) (auto simp: algebra_simps)
  have hi_sum: "sum_list ys \<le> b * int (length ys)" if "\<forall>y\<in>set ys. y \<le> b" for b and ys :: "int list"
    using that by (induction ys) (auto simp: algebra_simps)
  show "xs ! 0 * int (length xs) \<le> sum_list xs" using lo by (intro lo_sum) blast
  show "sum_list xs \<le> xs ! (length xs - 1) * int (length xs)" using hi by (intro hi_sum) blast
qed



section \<open>Members\<close>

text \<open>What an address has put into the pools, or one of them, and not taken out.\<close>

definition units_held :: "database \<Rightarrow> string option \<Rightarrow> string \<Rightarrow> int" where
  "units_held db pool a =
     sum_of (\<lambda>r. int_cell r ''stake_units'') (filter (\<lambda>r. of_pool pool r \<and>
       (case opt_text_cell r ''rune_addr'' of None \<Rightarrow> opt_text_cell r ''asset_addr'' | b \<Rightarrow> b) = Some a) (db ''stake_events''))
     - sum_of (\<lambda>r. int_cell r ''stake_units'') (filter (\<lambda>r. of_pool pool r \<and> opt_text_cell r ''from_addr'' = Some a)
       (db ''withdraw_events''))"

lemma negated_units_eq: "negated_units rows = Inr units \<Longrightarrow> units = map (\<lambda>r. - int_cell r ''stake_units'') rows"
  by (simp add: negated_units_def collectE_eq_Inr list_all2_conv_all_nth list_eq_iff_nth_eq)

lemma net_units_append: "net_units (xs @ ys) m = net_units xs m + net_units ys m"
  by (simp add: net_units_def)

lemma net_units_known:
  "net_units (List.map_filter (\<lambda>(m, u). map_option (\<lambda>a. (a, u)) m) moves) a = net_units moves (Some a)"
proof (induction moves)
  case (Cons x xs)
  obtain m u where x: "x = (m, u)" by (cases x)
  with Cons show ?case by (cases m) (auto simp: net_units_def map_filter_simps)
qed (simp add: net_units_def map_filter_simps)

lemma net_units_map: "net_units (map (\<lambda>r. (k r, v r)) rows) m = sum_of v (filter (\<lambda>r. k r = m) rows)"
  by (induction rows) (simp_all add: net_units_def)

lemma net_units_moves:
  assumes "unit_moves stakes withdrawals = Inr moves"
  shows "net_units moves m =
    sum_of (\<lambda>r. int_cell r ''stake_units'') (filter (\<lambda>r.
      (case opt_text_cell r ''rune_addr'' of None \<Rightarrow> opt_text_cell r ''asset_addr'' | b \<Rightarrow> b) = m) stakes)
    - sum_of (\<lambda>r. int_cell r ''stake_units'') (filter (\<lambda>r. opt_text_cell r ''from_addr'' = m) withdrawals)"
proof -
  obtain units where u: "negated_units withdrawals = Inr units"
    and moves: "moves = map (\<lambda>r. (case opt_text_cell r ''rune_addr'' of None \<Rightarrow> opt_text_cell r ''asset_addr'' | a \<Rightarrow> a,
                 int_cell r ''stake_units'')) stakes
       @ map2 (\<lambda>r u. (opt_text_cell r ''from_addr'', u)) withdrawals units"
    using assms by (auto simp: unit_moves_def map_ok_eq_Inr)
  have "map2 (\<lambda>r u. (opt_text_cell r ''from_addr'', u)) withdrawals units =
      map (\<lambda>r. (opt_text_cell r ''from_addr'', - int_cell r ''stake_units'')) withdrawals"
    unfolding negated_units_eq [OF u] by (induction withdrawals) simp_all
  moreover have "sum_of (\<lambda>r. - f r) rows = - sum_of f rows" for f :: "row \<Rightarrow> int" and rows
    by (induction rows) simp_all
  ultimately show ?thesis by (simp add: moves net_units_append net_units_map)
qed

text \<open>C33: the members are exactly the addresses whose deposits exceed their withdrawals, in the pool asked
  for or in all of them, each once; one that has taken everything out is not listed.\<close>

theorem members_hold_units:
  assumes "\<forall>xs. mset (as_collate s xs) = mset xs" "with_params raw members_params Inr = Inr pool"
    and "answer (members s raw) db = Inr ms"
  shows "distinct ms \<and> (\<forall>a. a \<in> set ms \<longleftrightarrow> 0 < units_held db pool a)"
proof -
  obtain moves where mv: "unit_moves (filter (of_pool pool) (db ''stake_events'')) (filter (of_pool pool) (db ''withdraw_events'')) = Inr moves"
    and ms: "ms = as_collate s (holders (List.map_filter (\<lambda>(m, u). map_option (\<lambda>a. (a, u)) m) moves))"
    using assms(2,3) by (auto simp: members_def with_query_def map_ok_eq_Inr)
  have "mset ms = mset (holders (List.map_filter (\<lambda>(m, u). map_option (\<lambda>a. (a, u)) m) moves))"
    using assms(1) ms by simp
  moreover have "distinct (holders (List.map_filter (\<lambda>(m, u). map_option (\<lambda>a. (a, u)) m) moves))"
    by (simp add: holders_def)
  ultimately have "distinct ms" "set ms = set (holders (List.map_filter (\<lambda>(m, u). map_option (\<lambda>a. (a, u)) m) moves))"
    using mset_eq_imp_distinct_iff mset_eq_setD by blast+
  then show ?thesis
    using net_units_moves [OF mv]
    by (simp add: holders_iff net_units_known units_held_def filter_filter)
qed

definition sample_withdrawal :: "nano \<Rightarrow> row" where
  "sample_withdrawal ts = [(''block_timestamp'', VInt ts), (''pool'', VText ''BTC.BTC''), (''from_addr'', VText ''thor1a''),
     (''emit_rune_e8'', VInt 50), (''emit_asset_e8'', VInt 9), (''stake_units'', VInt 100), (''basis_points'', VInt 10000)]"

definition left_pool_db :: database where
  "left_pool_db t = (if t = ''stake_events'' then [sample_deposit 2000000000]
     else if t = ''withdraw_events'' then [sample_withdrawal 3000000000] else [])"

theorem members_hold_units_witness:
  "\<exists>ms. answer (members sample_state []) (table_db ''stake_events'' [sample_deposit 2000000000]) = Inr ms \<and>
     ''thor1a'' \<in> set ms"
proof -
  let ?db = "table_db ''stake_events'' [sample_deposit 2000000000]"
  have p: "with_params [] members_params Inr = Inr None" by code_simp
  then obtain ms where ms: "answer (members sample_state []) ?db = Inr ms"
    by (auto simp: members_def with_query_def unit_moves_def negated_units_def table_db_def)
  have "units_held ?db None ''thor1a'' = 100" by code_simp
  with members_hold_units [OF _ p ms] ms show ?thesis by (auto simp: sample_state_def)
qed


section \<open>Two volumes\<close>

text \<open>C35: the volume of \<open>/v2/stats\<close> is not the volume of the swap history: of swaps that mint synths it
  adds up the synths that came out, where the history adds up the RUNE that went in.\<close>

theorem stats_volume_counts_synths:
  assumes "\<forall>r\<in>set rows. int_cell r ''_direction'' = 2" "swap_counters day_ago rows = Inr c"
  shows "c ! 1 = sum_of (\<lambda>r. int_cell r ''to_e8'') rows \<and>
    total_volume (swap_sums rows) = wrap64 (sum_of (\<lambda>r. int_cell r ''from_e8'') rows)"
proof
  have cong: "sum_of f rows = sum_of g rows" if "\<And>r. r \<in> set rows \<Longrightarrow> f r = g r" for f g :: "row \<Rightarrow> int"
    unfolding sum_of_def using that by (metis map_cong)
  have "c ! 1 = sum_of (\<lambda>r. if int_cell r ''_direction'' \<in> {0, 4, 6} then int_cell r ''from_e8'' else int_cell r ''to_e8'') rows"
    using assms(2) by (auto simp: swap_counters_def Let_def bindE_eq_Inr)
  then show "c ! 1 = sum_of (\<lambda>r. int_cell r ''to_e8'') rows"
    using cong [of "\<lambda>r. if int_cell r ''_direction'' \<in> {0, 4, 6} then int_cell r ''from_e8'' else int_cell r ''to_e8''"]
      assms(1) by simp
  have zero: "directed ds f rows = 0" if "2 \<notin> set ds" for ds f
    unfolding directed_def using cong [of _ "\<lambda>_. 0"] assms(1) that by (simp add: sum_of_def sum_list_0)
  have two: "directed [2] f rows = sum_of f rows" for f
    unfolding directed_def using assms(1) by (intro cong) simp
  show "total_volume (swap_sums rows) = wrap64 (sum_of (\<lambda>r. int_cell r ''from_e8'') rows)"
    by (simp add: total_volume_def swap_sums_def Let_def zero two)
qed

theorem stats_volume_counts_synths_witness:
  "\<exists>c. swap_counters 0 [sample_swap_row 1000000000 2] = Inr c \<and> c ! 1 = 7 \<and>
     total_volume (swap_sums [sample_swap_row 1000000000 2]) = 100"
proof -
  let ?rows = "[sample_swap_row 1000000000 2]"
  have "\<not> isl (swap_counters 0 ?rows)" by code_simp
  then obtain c where c: "swap_counters 0 ?rows = Inr c" by (auto simp: isl_def) (metis sum.exhaust)
  have "\<forall>r\<in>set ?rows. int_cell r ''_direction'' = 2" by (simp add: sample_swap_row_def int_cell_def)
  from stats_volume_counts_synths [OF this c] c show ?thesis
    by (simp add: sample_swap_row_def int_cell_def i64_ok_def)
qed

end
