(* ===== verification/Durations.thy ===== *)
theory Durations
  imports F64
begin

text \<open>
  \<open>crates/midgard-config/src/duration.rs\<close>: the duration strings of the configuration. A
  duration is its number of nanoseconds; \<open>u128\<close> and \<open>u64\<close> are kept at their width, the
  numbers are read and scaled as binary64 the way the source does. The Greek letter of the second
  spelling of microseconds is above the scalars a string of the model holds.
\<close>

section \<open>Reading\<close>

type_synonym duration = int

definition U128_MAX :: int where "U128_MAX = 2 ^ 128 - 1"

text \<open>\<open>x as u128\<close>: towards zero, saturating, and zero for \<open>NaN\<close>.\<close>

fun f64_to_u128 :: "f64 \<Rightarrow> int" where
  "f64_to_u128 NaN = 0"
| "f64_to_u128 (Inf s) = (if s then 0 else U128_MAX)"
| "f64_to_u128 (Zero s) = 0"
| "f64_to_u128 (Num s m e) =
     (if s then 0 else min U128_MAX (if 0 \<le> e then m * 2 ^ nat e else m div 2 ^ nat (- e)))"

definition unit_nanos :: "string \<Rightarrow> int option" where
  "unit_nanos u =
     (if u = ''ns'' then Some 1
      else if u = ''us'' \<or> u = [CHR 0xB5, CHR ''s''] then Some 1000
      else if u = ''ms'' then Some 1000000
      else if u = ''s'' then Some 1000000000
      else if u = ''m'' then Some (60 * 1000000000)
      else if u = ''h'' then Some (3600 * 1000000000)
      else None)"

definition in_number :: "char \<Rightarrow> bool" where
  "in_number c \<longleftrightarrow> is_digit c \<or> c = CHR ''.''"

text \<open>The components from \<open>rest\<close> on, added to the nanoseconds read so far.\<close>

function components :: "int \<Rightarrow> string \<Rightarrow> string + int" where
  "components acc rest =
     (if rest = [] then Inr acc
      else
        let number = takeWhile in_number rest; tail = dropWhile in_number rest in
        if tail = [] then Inl ''missing unit''
        else if number = [] then Inl ''missing number''
        else (case parse_f64 number of
            None \<Rightarrow> Inl ''bad number''
          | Some v \<Rightarrow>
              (let u = takeWhile (\<lambda>c. \<not> is_digit c) tail; rest' = dropWhile (\<lambda>c. \<not> is_digit c) tail in
               (case unit_nanos u of
                  None \<Rightarrow> Inl ''unknown unit''
                | Some scale \<Rightarrow>
                    let acc' = acc + f64_to_u128 (f64_mul v (f64_of_i64 scale)) in
                    if U128_MAX < acc' then Inl ''overflow'' else components acc' rest'))))"
  by pat_completeness auto
termination
proof (relation "measure (length \<circ> snd)", goal_cases)
  case (2 acc rest number tail v u rest' scale acc')
  have "length rest = length number + length tail"
    using 2(2,3) by (metis length_append takeWhile_dropWhile_id)
  moreover have "length rest' \<le> length tail" using 2(8) by (simp add: length_dropWhile_le)
  ultimately show ?case using 2(5) by (cases number) auto
qed simp

declare components.simps [simp del]

text \<open>The whole seconds are kept in a \<open>u64\<close>: \<open>as u64\<close> wraps.\<close>

definition of_nanos :: "int \<Rightarrow> duration" where
  "of_nanos n = (n div 1000000000) mod 2 ^ 64 * 1000000000 + n mod 1000000000"

text \<open>\<open>Inl\<close> holds the reason of the \<open>ParseError\<close>.\<close>

definition parse_duration :: "string \<Rightarrow> string + duration" where
  "parse_duration input =
     (let s = trim input in
      if s = [] then Inl ''empty''
      else if s = ''0'' then Inr 0
      else if starts_with ''-'' s then Inl ''negative''
      else
        let rest = unwrap_or s (strip_prefix ''+'' s) in
        if rest = [] then Inl ''no components'' else map_ok of_nanos (components 0 rest))"

section \<open>Printing\<close>

definition show_duration :: "duration \<Rightarrow> string" where
  "show_duration n =
     (if n = 0 then ''0s''
      else if n mod 1000000000 \<noteq> 0
      then if n mod 1000000 = 0 then int_to_string (n div 1000000) @ ''ms'' else int_to_string n @ ''ns''
      else let secs = n div 1000000000 in
        if secs mod 3600 = 0 then int_to_string (secs div 3600) @ ''h''
        else if secs mod 60 = 0 then int_to_string (secs div 60) @ ''m''
        else int_to_string secs @ ''s'')"

section \<open>Exact integers\<close>

lemma bitlen_bounds: "0 < n \<Longrightarrow> 0 < bitlen n \<and> 2 ^ nat (bitlen n - 1) \<le> n \<and> n < 2 ^ nat (bitlen n)"
proof (induction n rule: bitlen.induct)
  case (1 n)
  show ?case
  proof (cases "n = 1")
    case True
    then show ?thesis by (simp add: bitlen.simps)
  next
    case False
    with 1(2) have IH: "0 < bitlen (n div 2)" "2 ^ nat (bitlen (n div 2) - 1) \<le> n div 2" "n div 2 < 2 ^ nat (bitlen (n div 2))"
      using 1(1) by simp_all
    have b: "bitlen n = 1 + bitlen (n div 2)" using 1(2) by (simp add: bitlen.simps [of n])
    obtain k where k: "bitlen (n div 2) = int (Suc k)" using IH(1) by (metis gr0_conv_Suc pos_int_cases)
    have "(2::int) ^ Suc k \<le> n" "n < 2 ^ Suc (Suc k)" using IH(2,3) k by (simp_all add: nat_add_distrib)
    with b k show ?thesis by (simp add: nat_add_distrib)
  qed
qed

lemma bitlen_unique:
  assumes "0 < k" "2 ^ nat (k - 1) \<le> n" "n < 2 ^ nat k"
  shows "bitlen n = k"
proof -
  have n: "0 < n" by (rule less_le_trans [OF _ assms(2)]) simp
  note b = bitlen_bounds [OF n]
  show ?thesis
  proof (rule ccontr)
    assume "bitlen n \<noteq> k"
    then consider "bitlen n \<le> k - 1" | "k \<le> bitlen n - 1" by linarith
    then show False
    proof cases
      case 1
      then have "(2::int) ^ nat (bitlen n) \<le> 2 ^ nat (k - 1)" by (intro power_increasing) auto
      with b assms show False by linarith
    next
      case 2
      then have "(2::int) ^ nat k \<le> 2 ^ nat (bitlen n - 1)" by (intro power_increasing) auto
      with b assms show False by linarith
    qed
  qed
qed

lemma bitlen_shift: "0 < n \<Longrightarrow> bitlen (n * 2 ^ k) = bitlen n + int k"
proof (rule bitlen_unique)
  assume n: "0 < n"
  note b = bitlen_bounds [OF n]
  then obtain j where j: "bitlen n = int (Suc j)" by (metis gr0_conv_Suc pos_int_cases)
  from b j show "0 < bitlen n + int k" "2 ^ nat (bitlen n + int k - 1) \<le> n * 2 ^ k" "n * 2 ^ k < 2 ^ nat (bitlen n + int k)"
    by (simp_all add: nat_add_distrib power_add)
qed

lemma rhe_exact: "0 < d \<Longrightarrow> rhe (n * d) d = n"
  by (simp add: rhe_def)

text \<open>An integer below \<open>2^53\<close> is a binary64, also when it is reached as a fraction.\<close>

lemma round_frac_exact:
  assumes "0 < n" "n < 2 ^ 53"
  shows "round_frac s (n * 2 ^ k) (2 ^ k) = Num s (n * 2 ^ nat (53 - bitlen n)) (bitlen n - 53)"
proof -
  have b: "0 < bitlen n" "2 ^ nat (bitlen n - 1) \<le> n" "n < 2 ^ nat (bitlen n)"
    using bitlen_bounds [OF assms(1)] by simp_all
  have up: "bitlen n \<le> 53"
  proof (rule ccontr)
    assume "\<not> bitlen n \<le> 53"
    then have "(2::int) ^ 53 \<le> 2 ^ nat (bitlen n - 1)" by (intro power_increasing) auto
    with b(2) assms(2) show False by linarith
  qed
  define j where "j = nat (53 - bitlen n)"
  have j: "bitlen n = 53 - int j" "j < 53" using b(1) up by (auto simp: j_def)
  have len: "bitlen (n * 2 ^ k) - bitlen (2 ^ k) - 53 = - int (Suc j)"
    using bitlen_shift [OF assms(1), of k] bitlen_shift [of 1 k] j by (simp add: bitlen.simps)
  have big: "2 ^ 53 \<le> n * 2 ^ Suc j"
  proof -
    have "(2::int) ^ 53 = 2 ^ nat (bitlen n - 1) * 2 ^ Suc j"
      using j by (simp add: power_add [symmetric] nat_diff_distrib flip: power_Suc)
    also have "\<dots> \<le> n * 2 ^ Suc j" using b(2) by (intro mult_right_mono) simp_all
    finally show ?thesis .
  qed
  have small: "n * 2 ^ j < 2 ^ 53"
  proof -
    have "n * 2 ^ j < 2 ^ nat (bitlen n) * 2 ^ j" using b(3) by simp
    also have "\<dots> = 2 ^ 53" using j by (simp add: power_add [symmetric] nat_diff_distrib)
    finally show ?thesis .
  qed
  have e0: "max (bitlen (n * 2 ^ k) - bitlen (2 ^ k) - 53) (- 1074) = - int (Suc j)" using len j(2) by simp
  have div: "n * 2 ^ k * 2 ^ Suc j div 2 ^ k = n * 2 ^ Suc j" by simp
  have rhe: "rhe (n * 2 ^ k * 2 ^ j) (2 ^ k) = n * 2 ^ j" using rhe_exact [of "2 ^ k" "n * 2 ^ j"] by (simp add: ac_simps)
  have nj: "nat (- (- int (Suc j))) = Suc j" by simp
  have s1: "scale2 (n * 2 ^ k) (2 ^ k) (- int (Suc j)) = (n * 2 ^ k * 2 ^ Suc j, 2 ^ k)"
    unfolding scale2_def nj by simp
  have s2: "scale2 (n * 2 ^ k) (2 ^ k) (- int j) = (n * 2 ^ k * 2 ^ j, 2 ^ k)" by (simp add: scale2_def)
  have ne: "n * 2 ^ j \<noteq> 0" using assms(1) by simp
  show ?thesis
    unfolding round_frac_def e0 Let_def s1 prod.case
    using big small div rhe s2 ne j by (simp add: Let_def)
qed


text \<open>The binary64 that is the integer \<open>n\<close>.\<close>

abbreviation exact :: "int \<Rightarrow> f64" where
  "exact n \<equiv> Num False (n * 2 ^ nat (53 - bitlen n)) (bitlen n - 53)"

lemma bitlen_le_53: "0 < n \<Longrightarrow> n < 2 ^ 53 \<Longrightarrow> bitlen n \<le> 53"
proof (rule ccontr)
  assume n: "0 < n" "n < 2 ^ 53" and "\<not> bitlen n \<le> 53"
  then have "(2::int) ^ 53 \<le> 2 ^ nat (bitlen n - 1)" by (intro power_increasing) auto
  with bitlen_bounds [OF n(1)] n(2) show False by linarith
qed

lemma exact_u128: "0 < n \<Longrightarrow> n < 2 ^ 53 \<Longrightarrow> f64_to_u128 (exact n) = n"
  using bitlen_le_53 [of n] by (auto simp: U128_MAX_def)

lemma exact_of_i64: "0 < n \<Longrightarrow> n < 2 ^ 53 \<Longrightarrow> f64_of_i64 n = exact n"
  using round_frac_exact [of n False 0] by (simp add: f64_of_i64_def)

lemma exact_mul:
  assumes "0 < a" "0 < b" "a * b < 2 ^ 53" 
  shows "f64_mul (exact a) (exact b) = exact (a * b)"
proof -
  have "a * 1 \<le> a * b" "1 * b \<le> a * b" using assms by (intro mult_left_mono mult_right_mono; simp)+
  then have lt: "a < 2 ^ 53" "b < 2 ^ 53" using assms(3) by simp_all
  define p q where "p = nat (53 - bitlen a)" and "q = nat (53 - bitlen b)"
  have pq: "bitlen a - 53 = - int p" "bitlen b - 53 = - int q"
    using bitlen_le_53 [of a] bitlen_le_53 [of b] assms lt by (auto simp: p_def q_def)
  have "f64_mul (exact a) (exact b) = round_scaled False (a * 2 ^ p * (b * 2 ^ q)) 1 (- int (p + q))"
    unfolding p_def [symmetric] q_def [symmetric] pq by simp
  also have "\<dots> = round_frac False (a * b * 2 ^ (p + q)) (2 ^ (p + q))"
    unfolding round_scaled_def scale2_def by (simp add: power_add ac_simps nat_int_add)
  also have "\<dots> = exact (a * b)" using assms by (intro round_frac_exact) simp_all
  finally show ?thesis .
qed

lemma parse_f64_nat_str:
  assumes "0 < n" "n < 2 ^ 53"
  shows "parse_f64 (nat_str n) = Some (exact n)"
proof -
  obtain c t where ct: "nat_str n = c # t" "is_digit c" using assms by (metis nat_str_Cons less_imp_le)
  have d: "list_all is_digit (c # t)" "digits_val (c # t) = n"
    using nat_str_digits [of n] assms ct by simp_all
  have no: "\<forall>x\<in>set (c # t). x \<noteq> CHR ''e'' \<and> x \<noteq> CHR ''E'' \<and> x \<noteq> CHR ''.''"
    using d(1) by (auto simp: list_all_iff is_digit_def)
  have split: "split_once (\<lambda>x. x = CHR ''e'' \<or> x = CHR ''E'') (c # t) = None" "split_once (\<lambda>x. x = CHR ''.'') (c # t) = None"
    using no by (auto simp del: split_once.simps)
  have low: "to_lower c = c" using ct(2) by (auto simp: to_lower_def is_digit_def)
  have dec: "parse_decimal False (c # t) = Some (exact n)"
    using d round_frac_exact [of n False 0] assms
    by (simp only: parse_decimal_def Let_def split option.case prod.case append_Nil2 frac_to_f64_def) simp
  have "to_ascii_lowercase (c # t) \<noteq> ''inf''" "to_ascii_lowercase (c # t) \<noteq> ''infinity''" "to_ascii_lowercase (c # t) \<noteq> ''nan''"
    using low ct(2) by (auto simp: to_ascii_lowercase_def is_digit_def)
  with dec is_digit_not_sign [OF ct(2)] show ?thesis by (simp add: parse_f64_def ct(1) Let_def)
qed


lemma takeWhile_block: "list_all P a \<Longrightarrow> b \<noteq> [] \<Longrightarrow> \<not> P (hd b) \<Longrightarrow> takeWhile P (a @ b) = a \<and> dropWhile P (a @ b) = b"
  by (induction a) (auto simp: neq_Nil_conv)

lemma one_component:
  assumes "0 < n" "n * scale < 2 ^ 53" "unit_nanos u = Some scale" "0 < scale"
  shows "components 0 (nat_str n @ u) = Inr (n * scale)"
proof -
  have "n * 1 \<le> n * scale" using assms by (intro mult_left_mono) auto
  then have n: "n < 2 ^ 53" using assms(2) by simp
  have "1 * scale \<le> n * scale" using assms by (intro mult_right_mono) auto
  then have sc: "scale < 2 ^ 53" using assms(2) by simp
  have digits: "list_all is_digit (nat_str n)" "nat_str n \<noteq> []" using nat_str_digits [of n] assms(1) by auto
  have u: "u \<noteq> []" "\<not> in_number (hd u)" "list_all (\<lambda>c. \<not> is_digit c) u"
    using assms(3) by (auto simp: unit_nanos_def in_number_def is_digit_def split: if_splits)
  have "list_all in_number (nat_str n)" using digits(1) by (auto simp: list_all_iff in_number_def)
  note tw = takeWhile_block [OF this u(1,2)]
  have tu: "takeWhile (\<lambda>c. \<not> is_digit c) u = u" "dropWhile (\<lambda>c. \<not> is_digit c) u = []"
    using u(3) by (simp_all add: list_all_iff)
  have prod: "f64_to_u128 (f64_mul (exact n) (f64_of_i64 scale)) = n * scale"
    using exact_of_i64 [OF assms(4) sc] exact_mul [OF assms(1,4,2)] exact_u128 [of "n * scale"] assms by simp
  have small: "\<not> U128_MAX < n * scale" using assms(2) by (simp add: U128_MAX_def)
  show ?thesis
    using digits u(1) small
    by (subst components.simps)
      (simp add: Let_def tw tu prod assms(3) parse_f64_nat_str [OF assms(1) n] components.simps [of _ "[]"] del: f64_mul.simps)
qed

lemma parse_one_component:
  assumes "0 < n" "n * scale < 2 ^ 53" "unit_nanos u = Some scale" "0 < scale"
  shows "parse_duration (int_to_string n @ u) = Inr (n * scale)"
proof -
  obtain c t where ct: "nat_str n = c # t" "is_digit c" using assms(1) by (metis nat_str_Cons less_imp_le)
  have s: "int_to_string n = nat_str n" using assms(1) by (simp add: int_to_string_def)
  have "ws_free u" using assms(3) by (auto simp: unit_nanos_def ws_free_def is_ws_def split: if_splits)
  moreover have "ws_free (nat_str n)" using int_to_string_ws_free [of n] s by simp
  ultimately have tr: "trim (nat_str n @ u) = nat_str n @ u" by (intro trim_ws_free) (auto simp: ws_free_def)
  have u: "u \<noteq> []" using assms(3) by (auto simp: unit_nanos_def)
  have nano: "of_nanos (n * scale) = n * scale"
  proof -
    have "0 \<le> n * scale div 1000000000" using assms by (simp add: pos_imp_zdiv_nonneg_iff)
    moreover have "n * scale div 1000000000 < 2 ^ 64" using assms(2) by simp
    ultimately show ?thesis by (simp add: of_nanos_def)
  qed
  show ?thesis
    using one_component [OF assms] nano u is_digit_not_sign [OF ct(2)]
    unfolding s parse_duration_def tr Let_def
    by (simp add: ct(1) starts_with_def strip_prefix_def)
qed

section \<open>The round trip\<close>

lemma parse_show_duration:
  assumes "0 \<le> d" "d < 2 ^ 53"
  shows "parse_duration (show_duration d) = Inr d"
proof (cases "d = 0")
  case True
  moreover have "parse_duration ''0s'' = Inr 0" by code_simp
  ultimately show ?thesis by (simp add: show_duration_def)
next
  case False
  have parts: "unit_nanos ''ns'' = Some 1" "unit_nanos ''ms'' = Some 1000000" "unit_nanos ''s'' = Some 1000000000"
    "unit_nanos ''m'' = Some 60000000000" "unit_nanos ''h'' = Some 3600000000000"
    by (simp_all add: unit_nanos_def)
  have one: "parse_duration (int_to_string n @ u) = Inr d" if "unit_nanos u = Some scale" "0 < scale" "n * scale = d" for n u scale
  proof -
    have "0 < n" using that False assms(1) by (metis linorder_not_le mult_nonpos_nonneg order_le_less order_antisym)
    then show ?thesis using parse_one_component [of n scale u] that assms(2) by simp
  qed
  show ?thesis
    unfolding show_duration_def Let_def using False
    by (auto intro!: one [OF parts(1)] one [OF parts(2)] one [OF parts(3)] one [OF parts(4)] one [OF parts(5)])
qed

text \<open>Past that bound the number loses digits as a binary64, and whole seconds past 64 bits wrap.\<close>

lemma long_duration: "parse_duration (show_duration (2 ^ 53 + 1)) = Inr (2 ^ 53)"
  by code_simp

lemma wrapped_duration: "parse_duration ''18446744073709551616s'' = Inr 0"
  by code_simp

end
