(* ===== verification/Config_Wire.thy ===== *)
theory Config_Wire
  imports Json Durations Config_Schema "HOL-Library.List_Lexorder" "HOL-Library.Char_ord"
begin

text \<open>
  What \<open>serde\<close> derives for the records of \<open>crates/midgard-config/src/schema.rs\<close>: a struct is
  written as an object of its fields, and read from an object, whose missing fields take the
  defaults and whose unknown fields are refused, or from an array with the fields in their order.
  A duration is read and written by \<open>duration.rs\<close>. An object of \<open>serde_json\<close> without
  \<open>preserve_order\<close> is a \<open>BTreeMap\<close>: its keys are in order.
\<close>

section \<open>Objects\<close>

type_synonym obj = "(string \<times> json) list"

fun insert_key :: "string \<Rightarrow> json \<Rightarrow> obj \<Rightarrow> obj" where
  "insert_key k v [] = [(k, v)]"
| "insert_key k v ((k', v') # m) =
     (if k = k' then (k, v) # m else if k < k' then (k, v) # (k', v') # m else (k', v') # insert_key k v m)"

definition obj_of :: "obj \<Rightarrow> obj" where
  "obj_of fs = fold (\<lambda>(k, v). insert_key k v) fs []"

section \<open>Writing\<close>

definition json_of_duration :: "duration \<Rightarrow> json" where
  "json_of_duration d = JStr (show_duration d)"

definition json_of_size :: "nat \<Rightarrow> json" where
  "json_of_size n = JInt (int n)"

definition json_of_map :: "('a \<Rightarrow> json) \<Rightarrow> (string \<times> 'a) list \<Rightarrow> json" where
  "json_of_map f m = JObj (map (\<lambda>(k, v). (k, f v)) m)"

definition json_of_thor_chain :: "thor_chain \<Rightarrow> json" where
  "json_of_thor_chain c = JObj (obj_of
     [(''tendermint_url'', JStr (tendermint_url c)), (''thornode_url'', JStr (thornode_url c)),
      (''fetch_batch_size'', json_of_size (fetch_batch_size c)), (''parallelism'', json_of_size (parallelism c)),
      (''read_timeout'', json_of_duration (tc_read_timeout c)),
      (''last_chain_backoff'', json_of_duration (last_chain_backoff c)),
      (''max_status_retries'', json_of_size (max_status_retries c)),
      (''status_retry_backoff'', json_of_duration (status_retry_backoff c))])"

definition json_of_time_scale :: "time_scale \<Rightarrow> json" where
  "json_of_time_scale c = JObj (obj_of
     [(''host'', JStr (ts_host c)), (''port'', JInt (ts_port c)), (''user_name'', JStr (ts_user_name c)),
      (''password'', JStr (ts_password c)), (''database'', JStr (ts_database c)), (''sslmode'', JStr (ts_sslmode c)),
      (''max_open_conns'', JInt (max_open_conns c)), (''commit_batch_size'', json_of_size (commit_batch_size c)),
      (''no_auto_update_ddl'', JBool (no_auto_update_ddl c))])"

definition json_of_genesis :: "genesis \<Rightarrow> json" where
  "json_of_genesis c = JObj (obj_of
     [(''initial_block_height'', JInt (initial_block_height c)), (''initial_block_hash'', JStr (initial_block_hash c))])"

definition json_of_event_recorder :: "event_recorder \<Rightarrow> json" where
  "json_of_event_recorder c = JObj (obj_of
     [(''on_transfer_enabled'', JBool (on_transfer_enabled c)), (''on_message_enabled'', JBool (on_message_enabled c))])"

definition json_of_action_params :: "action_params \<Rightarrow> json" where
  "json_of_action_params c = JObj (obj_of
     [(''max_limit'', JInt (max_limit c)), (''max_addresses'', json_of_size (max_addresses c)),
      (''max_assets'', json_of_size (max_assets c)), (''max_tx_type'', json_of_size (max_tx_type c))])"

definition json_of_endpoints :: "endpoints \<Rightarrow> json" where
  "json_of_endpoints c = JObj (obj_of [(''action_params'', json_of_action_params (ep_action_params c))])"

definition json_of_logs :: "logs \<Rightarrow> json" where
  "json_of_logs c = JObj (obj_of
     [(''console_logger'', JBool (console_logger c)), (''no_color'', JBool (no_color c)), (''level'', JStr (log_level c))])"

definition json_of_config :: "config \<Rightarrow> json" where
  "json_of_config c = JObj (obj_of
     [(''listen_port'', JInt (listen_port c)), (''shutdown_timeout'', json_of_duration (shutdown_timeout c)),
      (''read_timeout'', json_of_duration (read_timeout c)), (''write_timeout'', json_of_duration (write_timeout c)),
      (''max_block_age'', json_of_duration (max_block_age c)), (''thorchain'', json_of_thor_chain (cf_thorchain c)),
      (''timescale'', json_of_time_scale (cf_timescale c)), (''genesis'', json_of_genesis (cf_genesis c)),
      (''event_recorder'', json_of_event_recorder (cf_event_recorder c)),
      (''endpoints'', json_of_endpoints (cf_endpoints c)), (''logs'', json_of_logs (cf_logs c)),
      (''usd_pools'', JArr (map JStr (usd_pools c))), (''pools_decimal'', json_of_map JInt (pools_decimal c)),
      (''filtered_addresses'', json_of_map JStr (filtered_addresses c)),
      (''case_insensitive_chains'', json_of_map JBool (case_insensitive_chains c))])"

section \<open>Reading\<close>

fun as_bool :: "json \<Rightarrow> bool option" where
  "as_bool (JBool b) = Some b"
| "as_bool _ = None"

text \<open>An unsigned integer of \<open>w\<close> bits.\<close>

fun as_unsigned :: "nat \<Rightarrow> json \<Rightarrow> int option" where
  "as_unsigned w (JInt n) = (if 0 \<le> n \<and> n < 2 ^ w then Some n else None)"
| "as_unsigned w _ = None"

definition as_size :: "json \<Rightarrow> nat option" where
  "as_size j = map_option nat (as_unsigned 64 j)"

definition as_duration :: "json \<Rightarrow> duration option" where
  "as_duration j = Option.bind (as_str j) (\<lambda>s. ok (parse_duration s))"

fun all_some :: "('a \<Rightarrow> 'b option) \<Rightarrow> 'a list \<Rightarrow> 'b list option" where
  "all_some f [] = Some []"
| "all_some f (x # xs) = Option.bind (f x) (\<lambda>y. map_option ((#) y) (all_some f xs))"

fun as_list :: "(json \<Rightarrow> 'a option) \<Rightarrow> json \<Rightarrow> 'a list option" where
  "as_list f (JArr xs) = all_some f xs"
| "as_list f _ = None"

fun as_map :: "(json \<Rightarrow> 'a option) \<Rightarrow> json \<Rightarrow> (string \<times> 'a) list option" where
  "as_map f (JObj m) = all_some (\<lambda>(k, j). map_option (Pair k) (f j)) m"
| "as_map f _ = None"

type_synonym 'r field = "string \<times> (json \<Rightarrow> 'r \<Rightarrow> 'r option)"

definition field :: "string \<Rightarrow> (json \<Rightarrow> 'a option) \<Rightarrow> ('a \<Rightarrow> 'r \<Rightarrow> 'r) \<Rightarrow> 'r field" where
  "field name dec set_it = (name, \<lambda>j r. map_option (\<lambda>v. set_it v r) (dec j))"

fun read_fields :: "'r field list \<Rightarrow> obj \<Rightarrow> 'r \<Rightarrow> 'r option" where
  "read_fields fs [] r = Some r"
| "read_fields fs ((k, j) # m) r = Option.bind (map_of fs k) (\<lambda>f. Option.bind (f j r) (read_fields fs m))"

fun read_positions :: "'r field list \<Rightarrow> json list \<Rightarrow> 'r \<Rightarrow> 'r option" where
  "read_positions fs [] r = Some r"
| "read_positions [] (j # js) r = None"
| "read_positions ((_, f) # fs) (j # js) r = Option.bind (f j r) (read_positions fs js)"

fun of_struct :: "'r field list \<Rightarrow> 'r \<Rightarrow> json \<Rightarrow> 'r option" where
  "of_struct fs defaults (JObj m) = read_fields fs m defaults"
| "of_struct fs defaults (JArr js) = read_positions fs js defaults"
| "of_struct fs defaults _ = None"

definition thor_chain_of_json :: "json \<Rightarrow> thor_chain option" where
  "thor_chain_of_json = of_struct
     [field ''tendermint_url'' as_str (\<lambda>v c. c\<lparr>tendermint_url := v\<rparr>),
      field ''thornode_url'' as_str (\<lambda>v c. c\<lparr>thornode_url := v\<rparr>),
      field ''fetch_batch_size'' as_size (\<lambda>v c. c\<lparr>fetch_batch_size := v\<rparr>),
      field ''parallelism'' as_size (\<lambda>v c. c\<lparr>parallelism := v\<rparr>),
      field ''read_timeout'' as_duration (\<lambda>v c. c\<lparr>tc_read_timeout := v\<rparr>),
      field ''last_chain_backoff'' as_duration (\<lambda>v c. c\<lparr>last_chain_backoff := v\<rparr>),
      field ''max_status_retries'' as_size (\<lambda>v c. c\<lparr>max_status_retries := v\<rparr>),
      field ''status_retry_backoff'' as_duration (\<lambda>v c. c\<lparr>status_retry_backoff := v\<rparr>)] default_thor_chain"

definition time_scale_of_json :: "json \<Rightarrow> time_scale option" where
  "time_scale_of_json = of_struct
     [field ''host'' as_str (\<lambda>v c. c\<lparr>ts_host := v\<rparr>), field ''port'' (as_unsigned 16) (\<lambda>v c. c\<lparr>ts_port := v\<rparr>),
      field ''user_name'' as_str (\<lambda>v c. c\<lparr>ts_user_name := v\<rparr>),
      field ''password'' as_str (\<lambda>v c. c\<lparr>ts_password := v\<rparr>),
      field ''database'' as_str (\<lambda>v c. c\<lparr>ts_database := v\<rparr>),
      field ''sslmode'' as_str (\<lambda>v c. c\<lparr>ts_sslmode := v\<rparr>),
      field ''max_open_conns'' (as_unsigned 32) (\<lambda>v c. c\<lparr>max_open_conns := v\<rparr>),
      field ''commit_batch_size'' as_size (\<lambda>v c. c\<lparr>commit_batch_size := v\<rparr>),
      field ''no_auto_update_ddl'' as_bool (\<lambda>v c. c\<lparr>no_auto_update_ddl := v\<rparr>)] default_time_scale"

definition genesis_of_json :: "json \<Rightarrow> genesis option" where
  "genesis_of_json = of_struct
     [field ''initial_block_height'' as_i64 (\<lambda>v c. c\<lparr>initial_block_height := v\<rparr>),
      field ''initial_block_hash'' as_str (\<lambda>v c. c\<lparr>initial_block_hash := v\<rparr>)] default_genesis"

definition event_recorder_of_json :: "json \<Rightarrow> event_recorder option" where
  "event_recorder_of_json = of_struct
     [field ''on_transfer_enabled'' as_bool (\<lambda>v c. c\<lparr>on_transfer_enabled := v\<rparr>),
      field ''on_message_enabled'' as_bool (\<lambda>v c. c\<lparr>on_message_enabled := v\<rparr>)] default_event_recorder"

definition action_params_of_json :: "json \<Rightarrow> action_params option" where
  "action_params_of_json = of_struct
     [field ''max_limit'' (as_unsigned 64) (\<lambda>v c. c\<lparr>max_limit := v\<rparr>),
      field ''max_addresses'' as_size (\<lambda>v c. c\<lparr>max_addresses := v\<rparr>),
      field ''max_assets'' as_size (\<lambda>v c. c\<lparr>max_assets := v\<rparr>),
      field ''max_tx_type'' as_size (\<lambda>v c. c\<lparr>max_tx_type := v\<rparr>)] default_action_params"

definition endpoints_of_json :: "json \<Rightarrow> endpoints option" where
  "endpoints_of_json = of_struct
     [field ''action_params'' action_params_of_json (\<lambda>v c. c\<lparr>ep_action_params := v\<rparr>)]
     \<lparr>ep_action_params = default_action_params\<rparr>"

definition logs_of_json :: "json \<Rightarrow> logs option" where
  "logs_of_json = of_struct
     [field ''console_logger'' as_bool (\<lambda>v c. c\<lparr>console_logger := v\<rparr>),
      field ''no_color'' as_bool (\<lambda>v c. c\<lparr>no_color := v\<rparr>),
      field ''level'' as_str (\<lambda>v c. c\<lparr>log_level := v\<rparr>)] default_logs"

definition config_of_json :: "json \<Rightarrow> config option" where
  "config_of_json = of_struct
     [field ''listen_port'' (as_unsigned 16) (\<lambda>v c. c\<lparr>listen_port := v\<rparr>),
      field ''shutdown_timeout'' as_duration (\<lambda>v c. c\<lparr>shutdown_timeout := v\<rparr>),
      field ''read_timeout'' as_duration (\<lambda>v c. c\<lparr>read_timeout := v\<rparr>),
      field ''write_timeout'' as_duration (\<lambda>v c. c\<lparr>write_timeout := v\<rparr>),
      field ''max_block_age'' as_duration (\<lambda>v c. c\<lparr>max_block_age := v\<rparr>),
      field ''thorchain'' thor_chain_of_json (\<lambda>v c. c\<lparr>cf_thorchain := v\<rparr>),
      field ''timescale'' time_scale_of_json (\<lambda>v c. c\<lparr>cf_timescale := v\<rparr>),
      field ''genesis'' genesis_of_json (\<lambda>v c. c\<lparr>cf_genesis := v\<rparr>),
      field ''event_recorder'' event_recorder_of_json (\<lambda>v c. c\<lparr>cf_event_recorder := v\<rparr>),
      field ''endpoints'' endpoints_of_json (\<lambda>v c. c\<lparr>cf_endpoints := v\<rparr>),
      field ''logs'' logs_of_json (\<lambda>v c. c\<lparr>cf_logs := v\<rparr>),
      field ''usd_pools'' (as_list as_str) (\<lambda>v c. c\<lparr>usd_pools := v\<rparr>),
      field ''pools_decimal'' (as_map as_i64) (\<lambda>v c. c\<lparr>pools_decimal := v\<rparr>),
      field ''filtered_addresses'' (as_map as_str) (\<lambda>v c. c\<lparr>filtered_addresses := v\<rparr>),
      field ''case_insensitive_chains'' (as_map as_bool) (\<lambda>v c. c\<lparr>case_insensitive_chains := v\<rparr>)] default_config"

section \<open>The round trip\<close>

definition duration_ok :: "duration \<Rightarrow> bool" where
  "duration_ok d \<longleftrightarrow> 0 \<le> d \<and> d < 2 ^ 53"

definition size_ok :: "nat \<Rightarrow> bool" where
  "size_ok n \<longleftrightarrow> int n < 2 ^ 64"

definition thor_chain_ok :: "thor_chain \<Rightarrow> bool" where
  "thor_chain_ok c \<longleftrightarrow>
     duration_ok (tc_read_timeout c) \<and> duration_ok (last_chain_backoff c) \<and> duration_ok (status_retry_backoff c) \<and>
     size_ok (fetch_batch_size c) \<and> size_ok (parallelism c) \<and> size_ok (max_status_retries c)"

definition time_scale_ok :: "time_scale \<Rightarrow> bool" where
  "time_scale_ok c \<longleftrightarrow> ts_port c \<in> {0..<2 ^ 16} \<and> max_open_conns c \<in> {0..<2 ^ 32} \<and> size_ok (commit_batch_size c)"

definition action_params_ok :: "action_params \<Rightarrow> bool" where
  "action_params_ok c \<longleftrightarrow>
     max_limit c \<in> {0..<2 ^ 64} \<and> size_ok (max_addresses c) \<and> size_ok (max_assets c) \<and> size_ok (max_tx_type c)"

text \<open>Every number fits the type of its field, and every duration is below \<open>2^53\<close> nanoseconds.\<close>

definition config_ok :: "config \<Rightarrow> bool" where
  "config_ok c \<longleftrightarrow>
     listen_port c \<in> {0..<2 ^ 16} \<and> duration_ok (shutdown_timeout c) \<and> duration_ok (read_timeout c) \<and>
     duration_ok (write_timeout c) \<and> duration_ok (max_block_age c) \<and> thor_chain_ok (cf_thorchain c) \<and>
     time_scale_ok (cf_timescale c) \<and> i64_ok (initial_block_height (cf_genesis c)) \<and>
     action_params_ok (ep_action_params (cf_endpoints c)) \<and> list_all (\<lambda>(_, v). i64_ok v) (pools_decimal c)"

named_theorems wire_back \<open>what is written reads back\<close>

lemma as_duration_json [wire_back]: "duration_ok d \<Longrightarrow> as_duration (json_of_duration d) = Some d"
  by (simp add: duration_ok_def as_duration_def json_of_duration_def parse_show_duration)

lemma as_size_json [wire_back]: "size_ok n \<Longrightarrow> as_size (json_of_size n) = Some n"
  by (simp add: as_size_def json_of_size_def size_ok_def)

lemma as_map_json: "list_all (\<lambda>(_, v). dec (enc v) = Some v) m \<Longrightarrow> as_map dec (json_of_map enc m) = Some m"
  by (simp add: json_of_map_def, induction m) auto

lemma maps_back [wire_back]:
  "as_map as_bool (json_of_map JBool flags) = Some flags"
  "as_map as_str (json_of_map JStr labels) = Some labels"
  "list_all (\<lambda>(_, v). i64_ok v) numbers \<Longrightarrow> as_map as_i64 (json_of_map JInt numbers) = Some numbers"
  by (rule as_map_json; auto simp: list_all_iff)+

lemma as_list_json: "list_all (\<lambda>v. dec (enc v) = Some v) xs \<Longrightarrow> all_some dec (map enc xs) = Some xs"
  by (induction xs) auto

lemma strings_back [wire_back]: "all_some as_str (map JStr xs) = Some xs"
  by (rule as_list_json) (simp add: list_all_iff)

lemmas wire_structs = obj_of_def field_def less_char_def

lemma thor_chain_back [wire_back]: "thor_chain_ok c \<Longrightarrow> thor_chain_of_json (json_of_thor_chain c) = Some c"
  by (simp add: thor_chain_ok_def thor_chain_of_json_def json_of_thor_chain_def default_thor_chain_def wire_structs wire_back)

lemma time_scale_back [wire_back]: "time_scale_ok c \<Longrightarrow> time_scale_of_json (json_of_time_scale c) = Some c"
  by (simp add: time_scale_ok_def time_scale_of_json_def json_of_time_scale_def default_time_scale_def wire_structs wire_back)

lemma genesis_back [wire_back]: "i64_ok (initial_block_height c) \<Longrightarrow> genesis_of_json (json_of_genesis c) = Some c"
  by (simp add: genesis_of_json_def json_of_genesis_def default_genesis_def wire_structs)

lemma event_recorder_back [wire_back]: "event_recorder_of_json (json_of_event_recorder c) = Some c"
  by (simp add: event_recorder_of_json_def json_of_event_recorder_def default_event_recorder_def wire_structs)

lemma action_params_back [wire_back]: "action_params_ok c \<Longrightarrow> action_params_of_json (json_of_action_params c) = Some c"
  by (simp add: action_params_ok_def action_params_of_json_def json_of_action_params_def default_action_params_def
      wire_structs wire_back)

lemma endpoints_back [wire_back]: "action_params_ok (ep_action_params c) \<Longrightarrow> endpoints_of_json (json_of_endpoints c) = Some c"
  by (simp add: endpoints_of_json_def json_of_endpoints_def wire_structs wire_back)

lemma logs_back [wire_back]: "logs_of_json (json_of_logs c) = Some c"
  by (simp add: logs_of_json_def json_of_logs_def default_logs_def wire_structs)

lemma config_back: "config_ok c \<Longrightarrow> config_of_json (json_of_config c) = Some c"
  by (simp add: config_ok_def config_of_json_def json_of_config_def default_config_def wire_structs wire_back)

end
