(* ===== verification/Config_Load.thy ===== *)
theory Config_Load
  imports Config_Wire "HOL-Library.Sublist"
begin

text \<open>
  \<open>lib.rs\<close> and \<open>env.rs\<close> of \<open>crates/midgard-config/src\<close>:
  the compiled-in defaults, the files merged over them from left to right, the variables of the
  environment, and the configuration read back from the result. Reading a file and its JSON are
  parameters.
\<close>

section \<open>Paths\<close>

fun at_path :: "json \<Rightarrow> string list \<Rightarrow> json option" where
  "at_path j [] = Some j"
| "at_path (JObj m) (k # p) = (case map_of m k of None \<Rightarrow> None | Some j \<Rightarrow> at_path j p)"
| "at_path _ (k # p) = None"

text \<open>The assignment through \<open>lookup_mut\<close>.\<close>

fun put_at :: "string list \<Rightarrow> json \<Rightarrow> json \<Rightarrow> json" where
  "put_at [] v j = v"
| "put_at (k # p) v (JObj m) = (case map_of m k of None \<Rightarrow> JObj m | Some j \<Rightarrow> JObj (insert_key k (put_at p v j) m))"
| "put_at (k # p) v j = j"

section \<open>Files\<close>

text \<open>
  \<open>PanicAt\<close> is no error of the source: it is where an \<open>expect\<close> of the source would stop the
  process. The errors of the file system and of \<open>serde_json\<close> are text of the library.
\<close>

datatype config_error =
    ReadError string string
  | ParseError string string
  | NotAnObject string
  | InvalidConfig
  | EnvError string string
  | PanicAt string

definition split_paths :: "string \<Rightarrow> string list" where
  "split_paths l =
     (if l = [] \<or> l = ''null'' then [] else filter (\<lambda>s. s \<noteq> []) (map trim (split_on (CHR '':'') l)))"

definition read_object :: "(string \<Rightarrow> string + string) \<Rightarrow> (string \<Rightarrow> string + json) \<Rightarrow> string \<Rightarrow> config_error + obj" where
  "read_object read parse path =
     bindE (map_err (ReadError path) (read path)) (\<lambda>txt.
     bindE (map_err (ParseError path) (parse txt)) (\<lambda>v.
     case v of JObj m \<Rightarrow> Inr m | _ \<Rightarrow> Inl (NotAnObject path)))"

text \<open>\<open>merge\<close> on the fields of an object, and on a value that may not be one.\<close>

fun merge_fields :: "obj \<Rightarrow> obj \<Rightarrow> obj" where
  "merge_fields base [] = base"
| "merge_fields base ((k, v) # overlay) =
     merge_fields
       (case (map_of base k, v) of
          (Some (JObj existing), JObj sub) \<Rightarrow> insert_key k (JObj (merge_fields existing sub)) base
        | _ \<Rightarrow> insert_key k v base)
       overlay"

definition merge_into :: "json \<Rightarrow> obj \<Rightarrow> json" where
  "merge_into base overlay = (case base of JObj m \<Rightarrow> JObj (merge_fields m overlay) | _ \<Rightarrow> JObj overlay)"

section \<open>The environment\<close>

datatype map_value = StrValue | IntValue | BoolValue

definition SCALAR_MAPS :: "(string list \<times> map_value) list" where
  "SCALAR_MAPS = [([''pools_decimal''], IntValue), ([''filtered_addresses''], StrValue),
     ([''case_insensitive_chains''], BoolValue)]"

definition scalar_map_at :: "string list \<Rightarrow> map_value option" where
  "scalar_map_at path = map_of SCALAR_MAPS path"

definition env_name :: "string list \<Rightarrow> string" where
  "env_name path = ''MIDGARD_'' @ join ''_'' (map to_ascii_uppercase path)"

type_synonym environ = "(string \<times> string) list"
type_synonym override = "string list \<times> string \<times> string"

definition own_variable :: "environ \<Rightarrow> string list \<Rightarrow> override list" where
  "own_variable env path = (case List.find (\<lambda>(k, _). k = env_name path) env of
     Some (var, v) \<Rightarrow> [(path, var, v)] | None \<Rightarrow> [])"

fun collect_overrides :: "environ \<Rightarrow> json \<Rightarrow> string list \<Rightarrow> override list"
  and collect_fields :: "environ \<Rightarrow> obj \<Rightarrow> string list \<Rightarrow> override list" where
  "collect_overrides env (JObj m) path =
     (if scalar_map_at path = None then collect_fields env m path else own_variable env path)"
| "collect_overrides env _ path = own_variable env path"
| "collect_fields env [] path = []"
| "collect_fields env ((k, child) # m) path = collect_overrides env child (path @ [k]) @ collect_fields env m path"

definition split_list :: "string \<Rightarrow> string list" where
  "split_list raw = filter (\<lambda>s. s \<noteq> []) (map trim (split_on (CHR '','') raw))"

text \<open>\<open>{:?}\<close> of a string.\<close>

definition hex_char :: "nat \<Rightarrow> char" where
  "hex_char n = ''0123456789abcdef'' ! n"

definition debug_char :: "char \<Rightarrow> string" where
  "debug_char c =
     (if c = CHR 0x22 then [CHR 0x5C, CHR 0x22]
      else if c = CHR 0x5C then [CHR 0x5C, CHR 0x5C]
      else if code c = 0 then [CHR 0x5C, CHR ''0'']
      else if code c = 9 then [CHR 0x5C, CHR ''t'']
      else if code c = 10 then [CHR 0x5C, CHR ''n'']
      else if code c = 13 then [CHR 0x5C, CHR ''r'']
      else if code c < 32 \<or> 127 \<le> code c \<and> code c \<le> 160 \<or> code c = 173
      then [CHR 0x5C, CHR ''u'', CHR ''{''] @ (if code c < 16 then [] else [hex_char (code c div 16)])
           @ [hex_char (code c mod 16), CHR ''}'']
      else [c])"

definition debug_str :: "string \<Rightarrow> string" where
  "debug_str s = [CHR 0x22] @ concat (map debug_char s) @ [CHR 0x22]"

definition parse_flag :: "string \<Rightarrow> string + json" where
  "parse_flag raw =
     (if raw = ''true'' \<or> raw = ''1'' \<or> raw = ''yes'' then Inr (JBool True)
      else if raw = ''false'' \<or> raw = ''0'' \<or> raw = ''no'' then Inr (JBool False)
      else Inl (debug_str raw @ '' is not a boolean''))"

fun map_entry_value :: "map_value \<Rightarrow> string \<Rightarrow> string + json" where
  "map_entry_value IntValue v = (case parse_i64 (trim v) of
     Some n \<Rightarrow> Inr (JInt n) | None \<Rightarrow> Inl (debug_str v @ '' is not an integer''))"
| "map_entry_value BoolValue v = parse_flag (trim v)"
| "map_entry_value StrValue v = Inr (JStr (trim v))"

fun map_entries :: "map_value \<Rightarrow> string list \<Rightarrow> obj \<Rightarrow> string + obj" where
  "map_entries kind [] m = Inr m"
| "map_entries kind (entry # entries) m =
     (case split_once (\<lambda>c. c = CHR '':'') entry of
        None \<Rightarrow> Inl (debug_str entry @ '' is not KEY:VALUE'')
      | Some (key, v) \<Rightarrow>
          bindE (map_entry_value kind v) (\<lambda>j. map_entries kind entries (insert_key (trim key) j m)))"

fun coerce_value :: "json \<Rightarrow> string \<Rightarrow> string + json" where
  "coerce_value (JBool _) raw = parse_flag raw"
| "coerce_value (JFloat _) raw = (case parse_f64 raw of
     Some x \<Rightarrow> if is_finite x then Inr (JFloat x) else Inl (debug_str raw @ '' is not a number'')
   | None \<Rightarrow> Inl (debug_str raw @ '' is not a number''))"
| "coerce_value (JInt _) raw = (case parse_i64 raw of
     Some n \<Rightarrow> Inr (JInt n) | None \<Rightarrow> Inl (debug_str raw @ '' is not an integer''))"
| "coerce_value (JStr _) raw = Inr (JStr raw)"
| "coerce_value (JArr _) raw = Inr (JArr (map JStr (split_list raw)))"
| "coerce_value (JObj _) raw = Inl ''cannot set a nested section from a single variable''"
| "coerce_value JNull raw = Inr (JStr raw)"

definition coerce :: "json \<Rightarrow> map_value option \<Rightarrow> string \<Rightarrow> string + json" where
  "coerce current map_kind raw = (case map_kind of
     Some kind \<Rightarrow> map_ok JObj (map_entries kind (split_list raw) [])
   | None \<Rightarrow> coerce_value current raw)"

fun apply_overrides :: "override list \<Rightarrow> json \<Rightarrow> config_error + json" where
  "apply_overrides [] root = Inr root"
| "apply_overrides ((path, var, raw) # os) root =
     (case at_path root path of
        None \<Rightarrow> Inl (PanicAt ''path came from this tree'')
      | Some target \<Rightarrow>
          bindE (map_err (EnvError var) (coerce target (scalar_map_at path) raw)) (\<lambda>v.
          apply_overrides os (put_at path v root)))"

definition apply_env :: "json \<Rightarrow> environ \<Rightarrow> config_error + json" where
  "apply_env root env = apply_overrides (collect_overrides env root []) root"

section \<open>Loading\<close>

text \<open>The value that is read as a configuration at last.\<close>

definition load_value ::
  "(string \<Rightarrow> string + string) \<Rightarrow> (string \<Rightarrow> string + json) \<Rightarrow> string \<Rightarrow> environ \<Rightarrow> config_error + json" where
  "load_value read parse paths env =
     bindE (collectE (read_object read parse) (split_paths paths)) (\<lambda>files.
     apply_env (foldl merge_into (json_of_config default_config) files) env)"

definition load_from ::
  "(string \<Rightarrow> string + string) \<Rightarrow> (string \<Rightarrow> string + json) \<Rightarrow> string \<Rightarrow> environ \<Rightarrow> config_error + config" where
  "load_from read parse paths env =
     bindE (load_value read parse paths env) (\<lambda>v. ok_or InvalidConfig (config_of_json v))"

text \<open>\<open>load_config\<close> of \<open>crates/midgard/src/main.rs\<close>: at most one argument.\<close>

definition load_config ::
  "(string \<Rightarrow> string + string) \<Rightarrow> (string \<Rightarrow> string + json) \<Rightarrow> environ \<Rightarrow> string list \<Rightarrow> (string + config_error) + config" where
  "load_config read parse env args =
     (case args of
        [_] \<Rightarrow> map_err Inr (load_from read parse [] env)
      | [_, paths] \<Rightarrow> map_err Inr (load_from read parse paths env)
      | [] \<Rightarrow> Inl (Inl ''usage: midgard [config1.json:config2.json:...]'')
      | prog # _ \<Rightarrow> Inl (Inl (''usage: '' @ prog @ '' [config1.json:config2.json:...]'')))"

end
