(* ===== verification/Config_Layers.thy ===== *)
theory Config_Layers
  imports Config_Load
begin

text \<open>
  What the layers of the configuration mean, path by path: a value of a later file replaces that
  of an earlier one, a file leaves alone what it does not mention, and a variable of the
  environment replaces the value at its path and nothing else.
\<close>

section \<open>Objects with ordered keys\<close>

fun wf_json :: "json \<Rightarrow> bool" where
  "wf_json (JObj m) \<longleftrightarrow> sorted_wrt (<) (map fst m) \<and> list_all (\<lambda>(_, v). wf_json v) m"
| "wf_json _ \<longleftrightarrow> True"

lemma map_of_insert_key [simp]: "map_of (insert_key k v m) = (map_of m)(k \<mapsto> v)"
  by (induction m) auto

lemma set_insert_key: "set (insert_key k v m) \<subseteq> insert (k, v) (set m)"
  by (induction m) (auto split: if_splits)

lemma sorted_insert_key: "sorted_wrt (<) (map fst m) \<Longrightarrow> sorted_wrt (<) (map fst (insert_key k v m))"
proof (induction m)
  case (Cons e m)
  obtain k' v' where e: "e = (k', v')" by force
  have keys: "\<forall>x\<in>set (insert_key k v m). x = (k, v) \<or> x \<in> set m"
    using set_insert_key [of k v m] by blast
  show ?case
    using Cons keys by (cases k k' rule: linorder_cases) (auto simp: e intro: less_trans)
qed simp

lemma wf_insert_key: "wf_json (JObj m) \<Longrightarrow> wf_json v \<Longrightarrow> wf_json (JObj (insert_key k v m))"
  using set_insert_key [of k v m] by (auto simp: sorted_insert_key list_all_iff)

lemma wf_child: "wf_json (JObj m) \<Longrightarrow> map_of m k = Some v \<Longrightarrow> wf_json v"
  by (auto simp: list_all_iff dest!: map_of_SomeD)

lemma wf_distinct: "wf_json (JObj m) \<Longrightarrow> distinct (map fst m)"
  by (simp add: strict_sorted_iff)

lemma map_of_wf: "wf_json (JObj m) \<Longrightarrow> (k, v) \<in> set m \<Longrightarrow> map_of m k = Some v"
  by (simp add: wf_distinct del: wf_json.simps)

section \<open>Merging\<close>

lemma wf_merge_fields: "wf_json (JObj base) \<Longrightarrow> wf_json (JObj overlay) \<Longrightarrow> wf_json (JObj (merge_fields base overlay))"
proof (induction base overlay rule: merge_fields.induct)
  case (2 base k v overlay)
  have "wf_json (JObj (case (map_of base k, v) of
          (Some (JObj existing), JObj sub) \<Rightarrow> insert_key k (JObj (merge_fields existing sub)) base
        | _ \<Rightarrow> insert_key k v base))"
  proof (cases "\<exists>e s. map_of base k = Some (JObj e) \<and> v = JObj s")
    case True
    then obtain e s where es: "map_of base k = Some (JObj e)" "v = JObj s" by blast
    have "wf_json (JObj (merge_fields e s))"
      using 2(1) [OF _ refl _ es(2)] es wf_child [OF 2(3) es(1)] 2(4) by simp
    then show ?thesis using es wf_insert_key [OF 2(3)] by (simp del: wf_json.simps)
  next
    case False
    have "wf_json (JObj (insert_key k v base))" using 2(4) wf_insert_key [OF 2(3)] by simp
    then show ?thesis using False by (auto split: option.split json.split simp del: wf_json.simps)
  qed
  with 2(2) 2(4) show ?case by simp
qed simp

fun combine :: "json option \<Rightarrow> json \<Rightarrow> json" where
  "combine (Some (JObj e)) (JObj s) = JObj (merge_fields e s)"
| "combine _ v = v"

lemma merge_lookup:
  "distinct (map fst overlay) \<Longrightarrow>
   map_of (merge_fields base overlay) k = (case map_of overlay k of None \<Rightarrow> map_of base k | Some v \<Rightarrow> Some (combine (map_of base k) v))"
proof (induction overlay arbitrary: base)
  case (Cons e overlay)
  obtain k' v where e: "e = (k', v)" by force
  have "merge_fields base ((k', v) # overlay) = merge_fields (insert_key k' (combine (map_of base k') v) base) overlay"
    by (cases "map_of base k'"; cases v) (auto split: json.split)
  moreover have "k' \<notin> fst ` set overlay" using Cons.prems e by simp
  then have "map_of overlay k' = None" by (simp add: map_of_eq_None_iff)
  ultimately show ?case using Cons e by (simp split: option.split)
qed simp

section \<open>Layers of files\<close>

abbreviation leaf :: "json \<Rightarrow> bool" where
  "leaf v \<equiv> \<forall>m. v \<noteq> JObj m"

text \<open>A file does not mention a path when an object on the way has no such key.\<close>

fun silent :: "json \<Rightarrow> string list \<Rightarrow> bool" where
  "silent j [] = False"
| "silent (JObj m) (k # p) = (case map_of m k of None \<Rightarrow> True | Some j \<Rightarrow> silent j p)"
| "silent _ (k # p) = False"

lemma silent_None: "silent j p \<Longrightarrow> at_path j p = None"
  by (induction j p rule: silent.induct) (auto split: option.splits)

lemma at_path_leaf: "leaf j \<Longrightarrow> at_path j (k # p) = None"
  by (cases j) auto

lemma merge_sets:
  "wf_json (JObj overlay) \<Longrightarrow> at_path (JObj overlay) p = Some v \<Longrightarrow> leaf v \<Longrightarrow> at_path (JObj (merge_fields base overlay)) p = Some v"
proof (induction p arbitrary: base overlay)
  case (Cons k p)
  then obtain j where j: "map_of overlay k = Some j" "at_path j p = Some v" by (auto split: option.splits)
  note m = merge_lookup [OF wf_distinct [OF Cons(2)], of base k]
  show ?case
  proof (cases "\<exists>e s. map_of base k = Some (JObj e) \<and> j = JObj s")
    case True
    then obtain e s where "map_of base k = Some (JObj e)" "j = JObj s" by blast
    with Cons.IH [of s e] wf_child [OF Cons(2) j(1)] j Cons(4) m show ?thesis by simp
  next
    case False
    then have "combine (map_of base k) j = j" by (cases "(map_of base k, j)" rule: combine.cases) auto
    with j m show ?thesis by simp
  qed
qed auto

lemma merge_keeps:
  "wf_json (JObj overlay) \<Longrightarrow> silent (JObj overlay) p \<Longrightarrow> at_path (JObj (merge_fields base overlay)) p = at_path (JObj base) p"
proof (induction p arbitrary: base overlay)
  case (Cons k p)
  note m = merge_lookup [OF wf_distinct [OF Cons(2)], of base k]
  show ?case
  proof (cases "map_of overlay k")
    case None
    with m show ?thesis by simp
  next
    case (Some j)
    with Cons(3) have "silent j p" by simp
    then obtain s k' p' where j: "j = JObj s" "p = k' # p'" by (cases "(j, p)" rule: silent.cases) auto
    show ?thesis
    proof (cases "\<exists>e. map_of base k = Some (JObj e)")
      case True
      then obtain e where "map_of base k = Some (JObj e)" by blast
      with Cons.IH [of s e] wf_child [OF Cons(2) Some] j Some \<open>silent j p\<close> m show ?thesis by simp
    next
      case False
      then have "combine (map_of base k) j = j" by (cases "(map_of base k, j)" rule: combine.cases) auto
      with False Some m silent_None [OF \<open>silent j p\<close>] show ?thesis
        by (cases "map_of base k") (simp_all add: j(2) at_path_leaf)
    qed
  qed
qed simp

text \<open>The layers are the defaults and then the files: the last one that has a value at a path sets it.\<close>

lemma merge_into_obj [simp]: "merge_into (JObj m) overlay = JObj (merge_fields m overlay)"
  by (simp add: merge_into_def)

lemma foldl_obj: "\<exists>m'. foldl merge_into (JObj m) files = JObj m'"
  by (induction files arbitrary: m) auto

lemma foldl_wf: "wf_json (JObj m) \<Longrightarrow> list_all (\<lambda>f. wf_json (JObj f)) files \<Longrightarrow> wf_json (foldl merge_into (JObj m) files)"
  by (induction files arbitrary: m) (simp_all add: wf_merge_fields del: wf_json.simps)

lemma foldl_keeps:
  "list_all (\<lambda>f. wf_json (JObj f) \<and> silent (JObj f) p) files \<Longrightarrow> at_path (foldl merge_into (JObj m) files) p = at_path (JObj m) p"
  by (induction files arbitrary: m) (simp_all add: merge_keeps del: wf_json.simps)

lemma last_layer_sets:
  assumes "defaults # files = before @ f # after" "at_path (JObj f) p = Some v" "leaf v"
    "list_all (\<lambda>f. wf_json (JObj f)) files" "list_all (\<lambda>g. silent (JObj g) p) after"
  shows "at_path (foldl merge_into (JObj defaults) files) p = Some v"
proof (cases before)
  case Nil
  then have fs: "files = after" "f = defaults" using assms(1) by simp_all
  have "at_path (foldl merge_into (JObj f) after) p = at_path (JObj f) p"
    using assms(4,5) by (intro foldl_keeps) (simp add: fs list_all_iff del: wf_json.simps)
  then show ?thesis using assms(2) fs by simp
next
  case (Cons d bs)
  then have fs: "files = bs @ f # after" using assms(1) by simp
  obtain m where m: "foldl merge_into (JObj defaults) bs = JObj m" using foldl_obj by blast
  have "at_path (JObj (merge_fields m f)) p = Some v"
    using assms(2-4) by (intro merge_sets) (simp_all add: fs del: wf_json.simps)
  moreover have "at_path (foldl merge_into (JObj (merge_fields m f)) after) p = at_path (JObj (merge_fields m f)) p"
    using assms(4,5) by (intro foldl_keeps) (simp add: fs list_all_iff del: wf_json.simps)
  ultimately show ?thesis by (simp add: fs m)
qed

section \<open>Variables of the environment\<close>

lemma at_put_same: "at_path j p = Some c \<Longrightarrow> at_path (put_at p v j) p = Some v"
proof (induction p v j rule: put_at.induct)
  case (2 k p v m)
  then show ?case by (cases "map_of m k") auto
qed auto

lemma at_put_other: "\<not> prefix p q \<Longrightarrow> \<not> prefix q p \<Longrightarrow> at_path (put_at p v j) q = at_path j q"
proof (induction p v j arbitrary: q rule: put_at.induct)
  case (2 k p v m)
  then show ?case by (cases q; cases "map_of m k") auto
qed auto

definition env_entry :: "environ \<Rightarrow> string list \<Rightarrow> (string \<times> string) option" where
  "env_entry env p = List.find (\<lambda>(k, _). k = env_name p) env"

text \<open>
  The paths that have a variable: below the value \<open>j\<close> at \<open>path\<close>, what is no object, and the maps
  of scalars as a whole.
\<close>

fun setting :: "string list \<Rightarrow> json \<Rightarrow> string list \<Rightarrow> bool" where
  "setting path j [] \<longleftrightarrow> leaf j \<or> scalar_map_at path \<noteq> None"
| "setting path j (k # q) \<longleftrightarrow> scalar_map_at path = None \<and>
     (case j of JObj m \<Rightarrow> (case map_of m k of None \<Rightarrow> False | Some c \<Rightarrow> setting (path @ [k]) c q) | _ \<Rightarrow> False)"

lemma setting_at: "setting path j q \<Longrightarrow> \<exists>v. at_path j q = Some v"
  by (induction path j q rule: setting.induct) (auto split: json.splits option.splits)

lemma settings_apart: "setting path j q \<Longrightarrow> setting path j r \<Longrightarrow> prefix q r \<Longrightarrow> q = r"
proof (induction path j q arbitrary: r rule: setting.induct)
  case (1 path j)
  then show ?case by (cases r) (auto split: json.splits)
next
  case (2 path j k q)
  then show ?case by (cases r) (auto split: json.splits option.splits)
qed

lemma setting_if_leaf:
  "at_path j p = Some v \<Longrightarrow> leaf v \<Longrightarrow> (\<And>q. strict_prefix q p \<Longrightarrow> scalar_map_at (path @ q) = None) \<Longrightarrow> setting path j p"
proof (induction p arbitrary: path j)
  case (Cons k p)
  then obtain m c where j: "j = JObj m" "map_of m k = Some c" "at_path c p = Some v"
    by (cases j) (auto split: option.splits)
  have "scalar_map_at (path @ [k] @ q) = None" if "strict_prefix q p" for q
    using Cons.prems(3) [of "k # q"] that by (auto simp: strict_prefix_def)
  then have "setting (path @ [k]) c p" using Cons.IH [OF j(3) Cons.prems(2)] by simp
  moreover have "scalar_map_at path = None" using Cons.prems(3) [of "[]"] by (simp add: strict_prefix_def)
  ultimately show ?case by (simp add: j)
qed simp

lemma own_variable_iff: "(p, var, raw) \<in> set (own_variable env path) \<longleftrightarrow> p = path \<and> env_entry env path = Some (var, raw)"
  by (auto simp: own_variable_def env_entry_def split: option.split)

lemma own_variable_once: "distinct (map fst (own_variable env path))"
  by (auto simp: own_variable_def split: option.split)

lemma collect_iff:
  "wf_json j \<Longrightarrow> (p, var, raw) \<in> set (collect_overrides env j path) \<longleftrightarrow>
     (\<exists>q. p = path @ q \<and> setting path j q \<and> env_entry env p = Some (var, raw))"
  "wf_json (JObj m) \<Longrightarrow> (p, var, raw) \<in> set (collect_fields env m path) \<longleftrightarrow>
     (\<exists>k c q. (k, c) \<in> set m \<and> p = path @ k # q \<and> setting (path @ [k]) c q \<and> env_entry env p = Some (var, raw))"
proof (induction env j path and env m path rule: collect_overrides_collect_fields.induct)
  case (1 env m path)
  have "(\<exists>k c q. (k, c) \<in> set m \<and> p = path @ k # q \<and> setting (path @ [k]) c q \<and> env_entry env p = Some (var, raw)) \<longleftrightarrow>
      (\<exists>q. p = path @ q \<and> setting path (JObj m) q \<and> env_entry env p = Some (var, raw))" if "scalar_map_at path = None"
  proof
    assume "\<exists>k c q. (k, c) \<in> set m \<and> p = path @ k # q \<and> setting (path @ [k]) c q \<and> env_entry env p = Some (var, raw)"
    then obtain k c q where *: "(k, c) \<in> set m" "p = path @ k # q" "setting (path @ [k]) c q" "env_entry env p = Some (var, raw)"
      by blast
    then have "setting path (JObj m) (k # q)" using that map_of_wf [OF 1(2) *(1)] by simp
    with * show "\<exists>q. p = path @ q \<and> setting path (JObj m) q \<and> env_entry env p = Some (var, raw)" by blast
  next
    assume "\<exists>q. p = path @ q \<and> setting path (JObj m) q \<and> env_entry env p = Some (var, raw)"
    then obtain q where *: "p = path @ q" "setting path (JObj m) q" "env_entry env p = Some (var, raw)" by blast
    with that obtain k q' where "q = k # q'" by (cases q) auto
    with * show "\<exists>k c q. (k, c) \<in> set m \<and> p = path @ k # q \<and> setting (path @ [k]) c q \<and> env_entry env p = Some (var, raw)"
      by (auto split: option.splits dest!: map_of_SomeD)
  qed
  with 1 show ?case
    by (cases "scalar_map_at path = None") (auto simp: own_variable_iff neq_Nil_conv simp del: wf_json.simps elim: setting.elims)
next
  case (4 env k child m path)
  then show ?case by auto
qed (auto simp: own_variable_iff elim: setting.elims)

lemma collect_once:
  "wf_json j \<Longrightarrow> distinct (map fst (collect_overrides env j path))"
  "wf_json (JObj m) \<Longrightarrow> distinct (map fst (collect_fields env m path))"
proof (induction env j path and env m path rule: collect_overrides_collect_fields.induct)
  case (4 env k child m path)
  have wf: "wf_json child" "wf_json (JObj m)" "k \<notin> fst ` set m" using 4(3) by auto
  have "fst ` set (collect_overrides env child (path @ [k])) \<inter> fst ` set (collect_fields env m path) = {}"
    using collect_iff(1) [OF wf(1)] collect_iff(2) [OF wf(2)] wf(3) by (auto simp: image_iff) force
  with 4 wf show ?case by simp
qed (auto simp: own_variable_once)

text \<open>The assignments do not disturb each other: no path with a variable is a prefix of another.\<close>

definition apart :: "override list \<Rightarrow> bool" where
  "apart os \<longleftrightarrow> distinct (map fst os) \<and> (\<forall>p\<in>fst ` set os. \<forall>q\<in>fst ` set os. prefix p q \<longrightarrow> p = q)"

lemma apart_Cons:
  assumes "apart ((p', var', raw') # os)"
  shows "apart os" "q \<in> fst ` set os \<Longrightarrow> \<not> prefix p' q \<and> \<not> prefix q p'"
  using assms by (auto simp: apart_def)

lemma apply_step:
  assumes "apply_overrides ((p', var', raw') # os) root = Inr root'"
  obtains cur v where "at_path root p' = Some cur" "coerce cur (scalar_map_at p') raw' = Inr v"
    "apply_overrides os (put_at p' v root) = Inr root'"
  using assms by (auto split: option.splits simp: bindE_eq_Inr)

lemma overrides_keep:
  assumes "apply_overrides os root = Inr root'" "\<And>p. p \<in> fst ` set os \<Longrightarrow> \<not> prefix p q \<and> \<not> prefix q p"
  shows "at_path root' q = at_path root q"
  using assms
proof (induction os arbitrary: root)
  case (Cons ov os)
  obtain p' var' raw' where ov: "ov = (p', var', raw')" by (cases ov)
  from Cons.prems(1) [unfolded ov] obtain v where "apply_overrides os (put_at p' v root) = Inr root'"
    by (rule apply_step)
  then have "at_path root' q = at_path (put_at p' v root) q" using Cons by simp
  with Cons.prems(2) [of p'] show ?case by (simp add: at_put_other ov)
qed simp

lemma overrides_set:
  assumes "apply_overrides os root = Inr root'" "apart os" "(p, var, raw) \<in> set os"
  shows "at_path root' p = Option.bind (at_path root p) (\<lambda>cur. ok (coerce cur (scalar_map_at p) raw))"
  using assms
proof (induction os arbitrary: root)
  case (Cons ov os)
  obtain p' var' raw' where ov: "ov = (p', var', raw')" by (cases ov)
  from Cons.prems(1) [unfolded ov] obtain cur v where step: "at_path root p' = Some cur"
    "coerce cur (scalar_map_at p') raw' = Inr v" "apply_overrides os (put_at p' v root) = Inr root'"
    by (rule apply_step)
  note ap = apart_Cons [OF Cons.prems(2) [unfolded ov]]
  show ?case
  proof (cases "(p, var, raw) = ov")
    case True
    have "at_path root' p' = at_path (put_at p' v root) p'"
      using ap(2) by (intro overrides_keep [OF step(3)]) blast
    with True ov step at_put_same [OF step(1)] show ?thesis by simp
  next
    case False
    then have mem: "(p, var, raw) \<in> set os" using Cons.prems(3) by simp
    then have "p \<in> fst ` set os" by force
    with Cons.IH [OF step(3) ap(1) mem] ap(2) show ?thesis by (simp add: at_put_other)
  qed
qed simp

lemma overrides_fail:
  assumes "apply_overrides os root = Inl e" "\<And>p. p \<in> fst ` set os \<Longrightarrow> at_path root p \<noteq> None" "apart os"
  shows "\<exists>p var raw cur reason. (p, var, raw) \<in> set os \<and> at_path root p = Some cur \<and>
    coerce cur (scalar_map_at p) raw = Inl reason \<and> e = EnvError var reason"
  using assms
proof (induction os arbitrary: root)
  case (Cons ov os)
  obtain p' var' raw' where ov: "ov = (p', var', raw')" by (cases ov)
  then obtain cur where cur: "at_path root p' = Some cur" using Cons.prems(2) [of p'] by auto
  show ?case
  proof (cases "coerce cur (scalar_map_at p') raw'")
    case (Inl reason)
    with Cons.prems(1) cur ov have "e = EnvError var' reason" by simp
    with Inl cur ov show ?thesis by auto
  next
    case (Inr v)
    note ap = apart_Cons [OF Cons.prems(3) [unfolded ov]]
    then have same: "at_path (put_at p' v root) q = at_path root q" if "q \<in> fst ` set os" for q
      using that by (simp add: at_put_other)
    have "apply_overrides os (put_at p' v root) = Inl e" using Cons.prems(1) cur Inr ov by simp
    moreover have "at_path (put_at p' v root) q \<noteq> None" if "q \<in> fst ` set os" for q
      using Cons.prems(2) [of q] same [OF that] that by simp
    ultimately obtain p var raw c reason where *: "(p, var, raw) \<in> set os" "at_path (put_at p' v root) p = Some c"
      "coerce c (scalar_map_at p) raw = Inl reason" "e = EnvError var reason"
      using Cons.IH [OF _ _ ap(1)] by blast
    have "p \<in> fst ` set os" using *(1) by force
    with * same have "(p, var, raw) \<in> set (ov # os)" "at_path root p = Some c" by simp_all
    with *(3,4) show ?thesis by blast
  qed
qed simp

lemma collected:
  assumes "wf_json root"
  shows "p \<in> fst ` set (collect_overrides env root []) \<longleftrightarrow> setting [] root p \<and> env_entry env p \<noteq> None"
    "apart (collect_overrides env root [])"
proof -
  have iff: "(p, var, raw) \<in> set (collect_overrides env root []) \<longleftrightarrow> setting [] root p \<and> env_entry env p = Some (var, raw)"
    for p var raw
    using collect_iff(1) [OF assms, of p var raw env "[]"] by simp
  show keys: "p \<in> fst ` set (collect_overrides env root []) \<longleftrightarrow> setting [] root p \<and> env_entry env p \<noteq> None" for p
  proof
    assume "p \<in> fst ` set (collect_overrides env root [])"
    then obtain var raw where "(p, var, raw) \<in> set (collect_overrides env root [])" by auto
    then show "setting [] root p \<and> env_entry env p \<noteq> None" by (simp add: iff)
  next
    assume *: "setting [] root p \<and> env_entry env p \<noteq> None"
    then obtain var raw where "env_entry env p = Some (var, raw)" by auto
    with * have "(p, var, raw) \<in> set (collect_overrides env root [])" by (simp add: iff)
    then show "p \<in> fst ` set (collect_overrides env root [])" by force
  qed
  show "apart (collect_overrides env root [])"
    using collect_once(1) [OF assms] settings_apart [of "[]" root] by (simp add: apart_def keys)
qed

lemma env_sets:
  assumes "wf_json root" "apply_env root env = Inr root'" "setting [] root p"
  shows "at_path root' p = (case env_entry env p of
    None \<Rightarrow> at_path root p
  | Some (_, raw) \<Rightarrow> Option.bind (at_path root p) (\<lambda>cur. ok (coerce cur (scalar_map_at p) raw)))"
proof (cases "env_entry env p")
  case None
  have "\<not> prefix q p \<and> \<not> prefix p q" if "q \<in> fst ` set (collect_overrides env root [])" for q
    using that None assms(3) settings_apart [of "[]" root] by (metis collected(1) [OF assms(1)])
  then have "at_path root' p = at_path root p"
    using overrides_keep [OF assms(2) [unfolded apply_env_def]] by blast
  with None show ?thesis by simp
next
  case (Some e)
  then obtain var raw where e: "env_entry env p = Some (var, raw)" by (cases e) auto
  then have "(p, var, raw) \<in> set (collect_overrides env root [])"
    using collect_iff(1) [OF assms(1), of p var raw env "[]"] assms(3) by simp
  from overrides_set [OF assms(2) [unfolded apply_env_def] collected(2) [OF assms(1)] this] e
  show ?thesis by simp
qed

lemma env_fails:
  assumes "wf_json root" "apply_env root env = Inl e"
  shows "\<exists>p var raw cur reason. setting [] root p \<and> env_entry env p = Some (var, raw) \<and> at_path root p = Some cur \<and>
    coerce cur (scalar_map_at p) raw = Inl reason \<and> e = EnvError var reason"
proof -
  have "at_path root p \<noteq> None" if "p \<in> fst ` set (collect_overrides env root [])" for p
    using that collected(1) [OF assms(1)] setting_at [of "[]" root p] by auto
  from overrides_fail [OF assms(2) [unfolded apply_env_def] this collected(2) [OF assms(1)]]
  obtain p var raw cur reason where "(p, var, raw) \<in> set (collect_overrides env root [])" "at_path root p = Some cur"
    "coerce cur (scalar_map_at p) raw = Inl reason" "e = EnvError var reason" by blast
  then show ?thesis using collect_iff(1) [OF assms(1), of p var raw env "[]"] by auto
qed

end
