(* ===== verification/Config_Properties.thy ===== *)
theory Config_Properties
  imports Config_Layers
begin

text \<open>The properties of the configuration.\<close>

text \<open>What \<open>serde_json\<close> documents: the keys of an object it reads are in order.\<close>

definition ordered_objects :: "(string \<Rightarrow> string + json) \<Rightarrow> bool" where
  "ordered_objects parse \<longleftrightarrow> (\<forall>s j. parse s = Inr j \<longrightarrow> wf_json j)"

text \<open>The compiled-in defaults as a file would give them.\<close>

definition default_layer :: obj where
  "default_layer =
     [(''case_insensitive_chains'', JObj [(''ETH'', JBool True)]),
      (''endpoints'', JObj
         [(''action_params'', JObj
            [(''max_addresses'', JInt 50), (''max_assets'', JInt 4), (''max_limit'', JInt 50), (''max_tx_type'', JInt 4)])]),
      (''event_recorder'', JObj [(''on_message_enabled'', JBool False), (''on_transfer_enabled'', JBool True)]),
      (''filtered_addresses'', JObj []),
      (''genesis'', JObj [(''initial_block_hash'', JStr []), (''initial_block_height'', JInt 0)]),
      (''listen_port'', JInt 8080),
      (''logs'', JObj [(''console_logger'', JBool True), (''level'', JStr ''info''), (''no_color'', JBool False)]),
      (''max_block_age'', JStr ''1m''),
      (''pools_decimal'', JObj []),
      (''read_timeout'', JStr ''20s''),
      (''shutdown_timeout'', JStr ''20s''),
      (''thorchain'', JObj
         [(''fetch_batch_size'', JInt 1), (''last_chain_backoff'', JStr ''7s''), (''max_status_retries'', JInt 10),
          (''parallelism'', JInt 1), (''read_timeout'', JStr ''8s''), (''status_retry_backoff'', JStr ''5s''),
          (''tendermint_url'', JStr ''http://localhost:26657/websocket''),
          (''thornode_url'', JStr ''http://localhost:1317/thorchain'')]),
      (''timescale'', JObj
         [(''commit_batch_size'', JInt 100), (''database'', JStr ''midgard''), (''host'', JStr ''localhost''),
          (''max_open_conns'', JInt 80), (''no_auto_update_ddl'', JBool False), (''password'', JStr ''password''),
          (''port'', JInt 5432), (''sslmode'', JStr ''disable''), (''user_name'', JStr ''midgard'')]),
      (''usd_pools'', JArr
         [JStr ''BNB.BUSD-BD1'', JStr ''ETH.USDT-0XDAC17F958D2EE523A2206206994597C13D831EC7'',
          JStr ''ETH.USDC-0XA0B86991C6218B36C1D19D4A2E9EB0CE3606EB48'']),
      (''write_timeout'', JStr ''20s'')]"

lemma default_durations:
  "show_duration (from_secs 5) = ''5s''" "show_duration (from_secs 7) = ''7s''" "show_duration (from_secs 8) = ''8s''"
  "show_duration (from_secs 20) = ''20s''" "show_duration (from_secs 60) = ''1m''"
  by code_simp+

lemma default_layer: "json_of_config default_config = JObj default_layer"
  by (simp add: json_of_config_def default_config_def json_of_thor_chain_def json_of_time_scale_def json_of_genesis_def
      json_of_event_recorder_def json_of_endpoints_def json_of_action_params_def json_of_logs_def json_of_map_def
      json_of_size_def json_of_duration_def default_thor_chain_def default_time_scale_def default_genesis_def
      default_event_recorder_def default_action_params_def default_logs_def default_durations default_layer_def wire_structs)

lemma wf_default_layer: "wf_json (JObj default_layer)"
  by (simp add: default_layer_def less_char_def)

lemma read_object_wf: "ordered_objects parse \<Longrightarrow> read_object read parse path = Inr m \<Longrightarrow> wf_json (JObj m)"
proof -
  assume "ordered_objects parse" "read_object read parse path = Inr m"
  moreover from \<open>read_object read parse path = Inr m\<close> obtain content where "parse content = Inr (JObj m)"
    by (auto simp: read_object_def bindE_eq_Inr split: json.splits) (metis json.exhaust)
  ultimately show "wf_json (JObj m)" unfolding ordered_objects_def by blast
qed

lemma files_wf:
  assumes "ordered_objects parse" "collectE (read_object read parse) paths = Inr files"
  shows "list_all (\<lambda>f. wf_json (JObj f)) files"
proof -
  have "list_all2 (\<lambda>path f. read_object read parse path = Inr f) paths files" using assms(2) by (simp add: collectE_eq_Inr)
  then show ?thesis
    by (induction rule: list_all2_induct) (simp_all add: read_object_wf [OF assms(1)] del: wf_json.simps)
qed


definition sample_read :: "string \<Rightarrow> string + string" where
  "sample_read path = (if path = ''a.json'' then Inr ''a'' else if path = ''b.json'' then Inr ''b'' else Inl ''no such file'')"

definition sample_parse :: "string \<Rightarrow> string + json" where
  "sample_parse s =
     (if s = ''a'' then Inr (JObj [(''listen_port'', JInt 1111), (''timescale'', JObj [(''host'', JStr ''a'')])])
      else if s = ''b'' then Inr (JObj [(''timescale'', JObj [(''host'', JStr ''b'')])])
      else Inl ''not json'')"

lemma sample_ordered: "ordered_objects sample_parse"
  by (simp add: ordered_objects_def sample_parse_def less_char_def)

lemma char_of_flip: "c = char_of (n :: nat) \<longleftrightarrow> of_char c = take_bit 8 n"
  using char_of_eq_iff [of n c] by auto

lemmas env_defs = char_of_flip collect_overrides.simps env_name_def own_variable_def scalar_map_at_def SCALAR_MAPS_def




text \<open>C38: a configuration whose numbers fit their fields and whose durations are below \<open>2^53\<close> nanoseconds
  is written out and read back as itself, durations in their shortest unit included.\<close>

theorem config_round_trip:
  assumes "config_ok c"
  shows "config_of_json (json_of_config c) = Some c"
  using assms by (rule config_back)

theorem config_round_trip_witness:
  "config_ok default_config \<and> config_of_json (JObj default_layer) = Some default_config"
proof -
  have "config_ok default_config"
    by (simp add: config_ok_def default_config_def thor_chain_ok_def time_scale_ok_def action_params_ok_def duration_ok_def
        size_ok_def default_thor_chain_def default_time_scale_def default_action_params_def default_genesis_def
        from_secs_def i64_ok_def)
  with config_round_trip [OF this] show ?thesis by (simp add: default_layer)
qed

end
