(* ===== verification/Startup.thy ===== *)
theory Startup
  imports Sync Thornode
begin

text \<open>
  How the process starts: \<open>crates/midgard-db/src/ddl.rs\<close>, which makes the schema that of the build;
  \<open>crates/midgard/src/bootstrap.rs\<close>, which seeds the depths when the chain is indexed from the
  middle; and \<open>main\<close> of \<open>crates/midgard/src/main.rs\<close> up to the sync loop. What PostgreSQL, the
  chain and THORNode answer meanwhile is a parameter, and so are SHA-256 and the text of the schema.
  Building the HTTP clients and the reads that restore the cursor and the depths are taken to
  succeed: where one fails the start ends there, with nothing written.
\<close>

section \<open>The schema\<close>

text \<open>A server: whether the table \<open>midgard.constants\<close> exists, and the tables.\<close>

record server =
  sv_schema :: bool
  sv_db :: database

datatype db_error = ConnectError string | QueryError string | SchemaError string

fun db_error_str :: "db_error \<Rightarrow> string" where
  "db_error_str (ConnectError e) = ''connecting to the database: '' @ e"
| "db_error_str (QueryError e) = ''query failed: '' @ e"
| "db_error_str (SchemaError e) = ''schema: '' @ e"

definition error_of_db_error :: "db_error \<Rightarrow> error" where
  "error_of_db_error e = Internal (db_error_str e)"

definition FINGERPRINT_KEY :: string where
  "FINGERPRINT_KEY = ''ddl_fingerprint''"

definition hex_byte :: "int \<Rightarrow> string" where
  "hex_byte b = [''0123456789abcdef'' ! nat (b div 16), ''0123456789abcdef'' ! nat (b mod 16)]"

definition fingerprint :: "(int list \<Rightarrow> int list) \<Rightarrow> string \<Rightarrow> string" where
  "fingerprint sha256 ddl = concat (map hex_byte (sha256 (utf8_bytes ddl)))"

text \<open>\<open>from_utf8_lossy\<close>, on the ASCII text that \<open>apply\<close> stores.\<close>

definition text_of_bytes :: "int list \<Rightarrow> string" where
  "text_of_bytes bs = map (\<lambda>b. char_of (nat b)) bs"

definition bytes_cell :: "row \<Rightarrow> string \<Rightarrow> int list" where
  "bytes_cell r c = (case cell r c of VBytes bs \<Rightarrow> bs | _ \<Rightarrow> [])"

definition stored_fingerprint :: "server \<Rightarrow> string option" where
  "stored_fingerprint s =
     (if \<not> sv_schema s then None
      else map_option (\<lambda>r. text_of_bytes (bytes_cell r ''value''))
        (List.find (\<lambda>r. text_cell r ''key'' = FINGERPRINT_KEY) (sv_db s ''constants'')))"

text \<open>
  What the server answers during the set-up: a failed read, a failed batch of statements with the
  state it leaves behind, and the outcome of the last insertion with the text of its error.
\<close>

record db_answers =
  da_read :: "string option"
  da_batch :: "(string \<times> server) option"
  da_insert :: "tx_outcome \<times> string"

text \<open>The batch drops the schema and creates every table empty.\<close>

definition created :: server where
  "created = \<lparr>sv_schema = True, sv_db = (\<lambda>_. [])\<rparr>"

definition fingerprint_row :: "string \<Rightarrow> row" where
  "fingerprint_row want = [(''key'', VText FINGERPRINT_KEY), (''value'', VBytes (utf8_bytes want))]"

definition apply_ddl :: "db_answers \<Rightarrow> string \<Rightarrow> server \<Rightarrow> (db_error + unit) \<times> server" where
  "apply_ddl ans want s = (case da_batch ans of
     Some (e, left) \<Rightarrow> (Inl (QueryError e), left)
   | None \<Rightarrow>
       (case run_tx (fst (da_insert ans)) (\<lambda>db. Some (insert_rows ''constants'' [fingerprint_row want] db)) (sv_db created) of
          (db', True) \<Rightarrow> (Inr (), created\<lparr>sv_db := db'\<rparr>)
        | (db', False) \<Rightarrow> (Inl (QueryError (snd (da_insert ans))), created\<lparr>sv_db := db'\<rparr>)))"

definition ensure_schema :: "db_answers \<Rightarrow> bool \<Rightarrow> string \<Rightarrow> server \<Rightarrow> (db_error + bool) \<times> server" where
  "ensure_schema ans no_auto_update want s =
     (let rebuild = (case apply_ddl ans want s of (r, s') \<Rightarrow> (map_ok (\<lambda>_. True) r, s')) in
      case da_read ans of
        Some e \<Rightarrow> (Inl (QueryError e), s)
      | None \<Rightarrow>
          (case stored_fingerprint s of
             Some existing \<Rightarrow>
               if existing = want then (Inr False, s)
               else if no_auto_update
               then (Inl (SchemaError (''schema fingerprint is '' @ existing @ '' but this build expects '' @ want
                       @ ''; no_auto_update_ddl is set, refusing to drop and re-sync'')), s)
               else rebuild
           | None \<Rightarrow> rebuild))"

section \<open>Seeding\<close>

datatype seed_error = SeedFetch thornode_error | SeedNoPools | SeedWrite

definition seed_depth_row :: "nano \<Rightarrow> thor_pool \<Rightarrow> row" where
  "seed_depth_row at p =
     [(''pool'', VText (tp_asset p)), (''asset_e8'', VInt (pool_asset_e8 p)), (''rune_e8'', VInt (pool_rune_e8 p)),
      (''synth_e8'', VInt (pool_synth_e8 p)), (''units'', VInt (pool_units_of p)), (''block_timestamp'', VInt at)]"

definition seed_status_row :: "i64 \<Rightarrow> nano \<Rightarrow> thor_pool \<Rightarrow> row" where
  "seed_status_row event_id at p =
     [(''asset'', VText (tp_asset p)), (''status'', VText (to_ascii_lowercase (tp_status p))),
      (''event_id'', VInt event_id), (''block_timestamp'', VInt at)]"

definition seed_pool :: "i64 \<Rightarrow> nano \<Rightarrow> thor_pool \<Rightarrow> database \<Rightarrow> database" where
  "seed_pool event_id at p db =
     insert_rows ''pool_events'' [seed_status_row event_id at p]
       (insert_rows ''block_pool_depths'' [seed_depth_row at p] db)"

definition seed_pool_depths ::
  "(string \<Rightarrow> bool \<times> string + thor_pool list) \<Rightarrow> string \<Rightarrow> i64 \<Rightarrow> nano \<Rightarrow> tx_outcome \<Rightarrow> database
   \<Rightarrow> (seed_error + nat) \<times> database" where
  "seed_pool_depths http base height at oc db = (case get_pools http base of
     Inl e \<Rightarrow> (Inl (SeedFetch e), db)
   | Inr pools \<Rightarrow>
       if pools = [] then (Inl SeedNoPools, db)
       else
         let seeds = filter (\<lambda>p. tp_asset p \<noteq> []) pools in
         case run_tx oc (\<lambda>db. Some (fold (seed_pool (first_id_at_height height) at) seeds db)) db of
           (db', True) \<Rightarrow> (Inr (length seeds), db')
         | (db', False) \<Rightarrow> (Inl SeedWrite, db'))"

section \<open>Starting\<close>

datatype start_error = StartSchema db_error | StartFetch chain_error | StartSeed seed_error

definition start_height :: "config \<Rightarrow> i64" where
  "start_height cfg = max (initial_block_height (cf_genesis cfg)) 1"

definition start_up ::
  "db_answers \<Rightarrow> environment \<Rightarrow> (string \<Rightarrow> bool \<times> string + thor_pool list) \<Rightarrow> tx_outcome \<Rightarrow> string \<Rightarrow> config \<Rightarrow> server
   \<Rightarrow> (start_error + syncer) \<times> server" where
  "start_up ans env http oc want cfg s =
     (case ensure_schema ans (no_auto_update_ddl (cf_timescale cfg)) want s of
        (Inl e, s1) \<Rightarrow> (Inl (StartSchema e), s1)
      | (Inr rebuilt, s1) \<Rightarrow>
          let cursor = refresh new_cursor (sv_db s1) in
          if bp_height (cu_last cursor) = 0 \<and> 1 < start_height cfg
          then (case en_fetch_block env (start_height cfg) of
              Inl e \<Rightarrow> (Inl (StartFetch e), s1)
            | Inr b \<Rightarrow>
                let at = wrap64 (b_timestamp b - 1) in
                (case seed_pool_depths http (thornode_base (thornode_url (cf_thorchain cfg))) (start_height cfg) at oc (sv_db s1) of
                   (Inl e, db') \<Rightarrow> (Inl (StartSeed e), s1\<lparr>sv_db := db'\<rparr>)
                 | (Inr _, db') \<Rightarrow> (Inr (new_syncer db' cursor cfg), s1\<lparr>sv_db := db'\<rparr>)))
          else (Inr (new_syncer (sv_db s1) cursor cfg), s1))"

section \<open>Lemmas\<close>

lemma seeded_tables:
  "fold (seed_pool event_id at) ps db ''block_pool_depths'' = db ''block_pool_depths'' @ map (seed_depth_row at) ps"
  "fold (seed_pool event_id at) ps db ''pool_events'' = db ''pool_events'' @ map (seed_status_row event_id at) ps"
  "t \<notin> {''block_pool_depths'', ''pool_events''} \<Longrightarrow> fold (seed_pool event_id at) ps db t = db t"
  by (induction ps arbitrary: db) (simp_all add: seed_pool_def)

lemma bytes_text: "list_all (\<lambda>c. code c < 128) s \<Longrightarrow> text_of_bytes (utf8_bytes s) = s"
  by (induction s) (simp_all add: text_of_bytes_def utf8_bytes_def Let_def)

lemma stored_created [simp]:
  "list_all (\<lambda>c. code c < 128) want \<Longrightarrow>
   stored_fingerprint (created\<lparr>sv_db := insert_rows ''constants'' [fingerprint_row want] (sv_db created)\<rparr>) = Some want"
  by (simp add: stored_fingerprint_def created_def fingerprint_row_def text_cell_def bytes_cell_def bytes_text)

lemma refresh_empty [simp]: "db ''block_log'' = [] \<Longrightarrow> refresh new_cursor db = new_cursor"
  by (simp add: refresh_def first_block_def last_block_def first_row_def)

definition node_depth :: "thor_pool \<Rightarrow> depth" where
  "node_depth p = \<lparr>d_asset_e8 = pool_asset_e8 p, d_rune_e8 = pool_rune_e8 p,
     d_synth_e8 = pool_synth_e8 p, d_units = pool_units_of p\<rparr>"

lemma seed_depth_row_cells [simp]:
  "text_cell (seed_depth_row at p) ''pool'' = tp_asset p" "depth_of_row (seed_depth_row at p) = node_depth p"
  "int_cell (seed_depth_row at p) ''block_timestamp'' = at"
  by (simp_all add: seed_depth_row_def text_cell_def depth_of_row_def int_cell_def node_depth_def)

text \<open>A tracker restored from seeds of distinct pools has their depths and nothing to report.\<close>

lemma restore_seeds:
  assumes "distinct (map tp_asset ps)" "db ''block_pool_depths'' = map (seed_depth_row at) ps"
  shows "w_tracker (restore w db) = \<lparr>current = map_of (rev (map (\<lambda>p. (tp_asset p, node_depth p)) ps)), dirty = []\<rparr>"
proof -
  let ?rows = "map (seed_depth_row at) ps"
  have "sorted_wrt (\<lambda>a b. text_cell a ''pool'' = text_cell b ''pool'' \<longrightarrow>
      int_cell a ''block_timestamp'' < int_cell b ''block_timestamp'') ?rows"
    using assms(1) by (induction ps) auto
  from latest_depths_map [OF this, of depth_of_row] assms(2) show ?thesis
    by (simp add: restore_def load_depths_def comp_def)
qed

lemma clean_seeds: "clean \<lparr>current = map_of (rev (map (\<lambda>p. (tp_asset p, node_depth p)) ps)), dirty = []\<rparr>"
  by (auto simp: clean_def tracker_ok_def ran_def node_depth_def depth_ok_def pool_asset_e8_def pool_rune_e8_def
      pool_synth_e8_def pool_units_of_def dest!: map_of_SomeD)

end
