(* ===== verification/Record_Properties.thy ===== *)
theory Record_Properties
  imports Pipeline_Properties
begin

text \<open>
  The properties of what is recorded: identifiers, decoding, rows and depths.
\<close>

section \<open>Identifiers along a chain\<close>

lemma block_id_valid:
  assumes "block_in_budget b" "(i, e) \<in> set (block_events b)"
  shows "valid_id i \<and> ei_height i = b_height b"
proof -
  have "valid_id (fst x) \<and> ei_height (fst x) = b_height b" if "x \<in> set (block_events b)" for x
    using that assms(1) unfolding block_events_def set_append
    by (auto simp: block_in_budget_def valid_id_def begin_block_id_def tx_event_id_def end_block_id_def
        begin_block_events_def end_block_events_def successful_txs_def in_set_enumerate_eq TX_INDEX_SCALE_def
        split: option.splits)
       (fastforce dest: nth_mem)+
  from this [OF assms(2)] show ?thesis by simp
qed

lemma block_ids_increase:
  assumes "block_in_budget b"
  shows "sorted_wrt (\<lambda>x y. to_i64 (fst x) < to_i64 (fst y)) (block_events b)"
  by (rule sorted_wrt_mono_rel [OF _ block_events_sorted])
    (auto intro!: to_i64_mono dest!: block_id_valid [OF assms])

lemma chain_ids_increase:
  assumes "chain_ok bs" "\<And>b. b \<in> set bs \<Longrightarrow> block_in_budget b"
  shows "sorted_wrt (\<lambda>x y. to_i64 (fst x) < to_i64 (fst y)) (concat (map block_events bs))"
proof (rule sorted_wrt_concat_map)
  show "sorted_wrt (\<lambda>x y. \<forall>a\<in>set (block_events x). \<forall>b\<in>set (block_events y).
          to_i64 (fst a) < to_i64 (fst b)) bs"
    using assms(1) unfolding chain_ok_def
    by (rule sorted_wrt_mono_rel [rotated])
      (auto intro!: to_i64_mono simp: chain_key_def dest!: block_id_valid [OF assms(2), rotated])
qed (simp add: block_ids_increase assms(2))

section \<open>Depths along a chain\<close>

lemma tracker_ok_taken: "tracker_ok t \<Longrightarrow> balance_of (snd (take_changed t)) k = balance_of t k"
  using take_changed_rows(4) [of t "fst (take_changed t)" "snd (take_changed t)"]
  by (simp add: balance_of_def get_depth_def)

lemma balance_of_trackers:
  "clean t \<Longrightarrow> balance_of (trackers t bs) k =
     wrap64 (balance_of t k + (\<Sum>r\<leftarrow>concat (map block_records bs). posted r k))"
proof (induction bs arbitrary: t)
  case Nil
  then show ?case using pool_ledger.inv_balance by (simp add: clean_def)
next
  case (Cons b bs)
  then have ok: "tracker_ok t" by (simp add: clean_def)
  have "balance_of (tracker_after t b) k =
      wrap64 (balance_of t k + (\<Sum>r\<leftarrow>block_records b. posted r k))"
    using ok pool_ledger.balance_posts [OF ok, of "block_records b" k]
    by (simp add: tracker_after_def tracker_ok_taken apply_events_def [symmetric])
  with Cons.IH [OF block_changes(1) [OF Cons.prems]] show ?case by (simp add: add.assoc)
qed

section \<open>Identifiers\<close>

lemma sample_in_budget: "0 \<le> h \<Longrightarrow> h \<le> MAX_HEIGHT \<Longrightarrow> block_in_budget (sample_block h)"
  by (simp add: block_in_budget_def sample_block_def TYPE_DIGIT_def)

text \<open>C14: along a chain of blocks within the documented limits the 64-bit identifiers increase
  strictly in the order of execution: begin-block events, transactions, end-block events, block after
  block. Sorting by \<open>event_id\<close> replays the chain.\<close>

theorem event_ids_follow_the_chain:
  assumes "chain_ok bs" "\<And>b. b \<in> set bs \<Longrightarrow> block_in_budget b"
  shows "sorted_wrt (<) (map (\<lambda>(i, e). to_i64 i) (concat (map block_events bs)))"
  using chain_ids_increase [OF assms] by (simp add: sorted_wrt_map case_prod_unfold)

theorem event_ids_follow_the_chain_witness:
  "sorted_wrt (<) (map (\<lambda>(i, e). to_i64 i) (concat (map block_events [sample_block 1, sample_block 2])))"
  by (rule event_ids_follow_the_chain [OF sample_chain_ok])
    (auto simp: MAX_HEIGHT_def intro!: sample_in_budget)

text \<open>C15: the identifier of an event within the limits can be read back, and the bounds of a height
  bracket exactly its events.\<close>

theorem event_id_round_trip:
  assumes "valid_id i" "0 \<le> h" "h \<le> MAX_HEIGHT"
  shows "parse_id (to_i64 i) = as_parsed i \<and> height_of (to_i64 i) = ei_height i \<and> i64_ok (to_i64 i) \<and>
    (first_id_at_height h \<le> to_i64 i \<and> to_i64 i < first_id_after_height h \<longleftrightarrow> ei_height i = h)"
proof -
  have "i64_ok (to_i64 i)" by (cases "ei_location i") (simp_all add: to_i64_def)
  then show ?thesis
    using parse_to_i64 [OF assms(1)] height_of_id [OF assms(1)] height_bracket [OF assms] by blast
qed

theorem event_id_round_trip_witness:
  "parse_id (to_i64 (end_block_id 7 3)) = as_parsed (end_block_id 7 3) \<and>
   height_of (to_i64 (end_block_id 7 3)) = 7 \<and> i64_ok (to_i64 (end_block_id 7 3)) \<and>
   (first_id_at_height 7 \<le> to_i64 (end_block_id 7 3) \<and> to_i64 (end_block_id 7 3) < first_id_after_height 7
      \<longleftrightarrow> (7::int) = 7)"
  using event_id_round_trip [of "end_block_id 7 3" 7]
  by (simp add: valid_id_def end_block_id_def TYPE_DIGIT_def MAX_HEIGHT_def)

text \<open>C16: every row of an event table carries the identifier of an event of one of the stored
  blocks, with that block's timestamp; the identifier lies within the bounds of the block's height.\<close>

theorem stored_rows_belong_to_blocks:
  assumes "t \<in> set EVENT_TABLES" "r \<in> set (projection bs t)" "\<And>b. b \<in> set bs \<Longrightarrow> block_in_budget b"
  shows "\<exists>b\<in>set bs. int_cell r ''block_timestamp'' = b_timestamp b \<and>
    int_cell r ''event_id'' \<in> to_i64 ` fst ` set (block_events b) \<and>
    first_id_at_height (b_height b) \<le> int_cell r ''event_id'' \<and>
    int_cell r ''event_id'' < first_id_after_height (b_height b)"
proof -
  have "r \<in> set (event_rows t (concat (map block_pendings bs)))"
    using assms(1,2) by (auto simp: projection_def split: if_splits)
  then obtain b p where b: "b \<in> set bs" "p \<in> set (block_pendings b)"
    and r: "int_cell r ''event_id'' = p_event_id p" "int_cell r ''block_timestamp'' = p_block_timestamp p"
    using event_rows_identity by fastforce
  obtain i e where i: "(i, e) \<in> set (block_events b)" "p_event_id p = to_i64 i"
    using b(2) by (auto simp: block_pendings_def)
  have v: "valid_id i" "ei_height i = b_height b" using block_id_valid [OF assms(3) [OF b(1)] i(1)] by auto
  have "0 \<le> b_height b" "b_height b \<le> MAX_HEIGHT" using v by (auto simp: valid_id_def)
  from height_bracket [OF v(1) this] v(2) b(1) r i pendings_time [OF b(2)] show ?thesis by force
qed

theorem stored_rows_belong_to_blocks_witness:
  "\<exists>r b. r \<in> set (projection [sample_block 1] ''swap_events'') \<and> b \<in> set [sample_block 1] \<and>
     int_cell r ''block_timestamp'' = b_timestamp b \<and>
     first_id_at_height (b_height b) \<le> int_cell r ''event_id'' \<and>
     int_cell r ''event_id'' < first_id_after_height (b_height b)"
proof -
  have "projection [sample_block 1] ''swap_events'' \<noteq> []" by code_simp
  then obtain r where r: "r \<in> set (projection [sample_block 1] ''swap_events'')" by (meson list.set_sel(1))
  have "block_in_budget b" if "b \<in> set [sample_block 1]" for b
    using that by (auto simp: MAX_HEIGHT_def intro!: sample_in_budget)
  from stored_rows_belong_to_blocks [OF _ r this] r show ?thesis by (force simp: EVENT_TABLES_def)
qed

section \<open>Decoding\<close>

text \<open>Every event type is one of: decoded, known and ignored, reported as unknown; what is decoded is
  never also on the list of ignored types.\<close>

lemma decode_partition:
  "(decode e = Inr Unknown \<longleftrightarrow> ev_kind e \<notin> set STORED \<and> ev_kind e \<notin> set IGNORED \<and>
      \<not> starts_with ''wasm-'' (ev_kind e)) \<and>
   (decode e = Inr Ignored \<longleftrightarrow> ev_kind e \<in> set IGNORED \<or> starts_with ''wasm-'' (ev_kind e)) \<and>
   (\<not> (ev_kind e \<in> set STORED \<and> (ev_kind e \<in> set IGNORED \<or> starts_with ''wasm-'' (ev_kind e))))"
  using decode_unknown_iff decode_ignored_iff stored_not_ignored by blast

text \<open>C17: the decoder is right to refuse: a missing-attribute error names an attribute the event does
  not have, a not-a-number error quotes the attribute's text, which is no number, and a coin error is
  that of one of its attributes.\<close>

theorem decode_refuses_with_reason:
  assumes "decode e = Inl err"
  shows "error_justified e err"
  using decode_errors [OF assms] .

theorem decode_refuses_with_reason_witness:
  "\<exists>err. decode (make_event ''swap'' [(''coin'', ''1 THOR.RUNE'')]) = Inl err \<and>
     error_justified (make_event ''swap'' [(''coin'', ''1 THOR.RUNE'')]) err"
proof -
  have "decode (make_event ''swap'' [(''coin'', ''1 THOR.RUNE'')]) = Inl (Missing ''swap'' ''emit_asset'')"
    by code_simp
  from this decode_refuses_with_reason [OF this] show ?thesis by blast
qed



text \<open>C19: no record is lost and none is doubled between the decoder and the tables: the rows of all
  event tables but the per-pool rewards number the records of the blocks.\<close>

theorem every_record_is_one_row:
  "(\<Sum>t\<leftarrow>single_tables. length (projection bs t)) = (\<Sum>b\<leftarrow>bs. length (block_records b))"
proof -
  have "projection bs t = event_rows t (concat (map block_pendings bs))" if "t \<in> set single_tables" for t
    using that INSERTS_tables(1) by (auto simp: projection_def single_tables_def)
  then have "(\<Sum>t\<leftarrow>single_tables. length (projection bs t)) =
      (\<Sum>t\<leftarrow>single_tables. length (event_rows t (concat (map block_pendings bs))))"
    by (simp cong: map_cong)
  then show ?thesis by (simp add: rows_count length_concat block_records_def comp_def)
qed

section \<open>Depths\<close>

text \<open>C20: the ledger of a chain: after a restart every side of every pool is the sum, at 64 bits, of
  what the stored events post to it.\<close>

theorem depths_are_the_posted_sums:
  assumes "chain_ok bs"
  shows "side_of sd (depth_of (restore (new_writer n) (projection bs)) pool) =
    wrap64 (\<Sum>r\<leftarrow>concat (map block_records bs). posted r (sd, pool))"
proof -
  have "balance_of new_tracker (sd, pool) = 0"
    by (cases sd) (simp_all add: balance_of_def get_depth_def new_tracker_def default_depth_def)
  with balance_of_trackers [OF clean_new, of bs "(sd, pool)"]
  show ?thesis by (simp add: balance_of_def depth_of_def restore_projection [OF assms])
qed

theorem depths_are_the_posted_sums_witness:
  "side_of Rune_side (depth_of (restore (new_writer 9) (projection [sample_block 1, sample_block 2])) ''BTC.BTC'') =
     2018"
proof -
  have "(\<Sum>r\<leftarrow>concat (map block_records [sample_block 1, sample_block 2]). posted r (Rune_side, ''BTC.BTC''))
      = 2018" by code_simp
  with depths_are_the_posted_sums [OF sample_chain_ok, of Rune_side 9 "''BTC.BTC''"] show ?thesis
    by (simp add: wrap64_def)
qed

text \<open>The order of events does not matter for the depths they leave.\<close>

lemma depths_ignore_event_order:
  assumes "tracker_ok t" "mset evs = mset evs'"
  shows "get_depth (apply_events t evs) pool = get_depth (apply_events t evs') pool"
proof -
  have "side_of sd (get_depth (apply_events t evs) pool) = side_of sd (get_depth (apply_events t evs') pool)" for sd
    using pool_ledger.balance_order [OF assms, of "(sd, pool)"]
    by (simp add: balance_of_def apply_events_def)
  from this [of Asset_side] this [of Rune_side] this [of Synth_side] this [of Unit_side]
  show ?thesis by simp
qed

text \<open>The depth rows of a block cover exactly its changes: the pools the block's events post to, each
  once with its final depth, and applying the rows to the old state gives the new one.\<close>

lemma changed_pools_reported_once:
  assumes "tracker_ok t" "dirty t = []" "take_changed (apply_events t evs) = (rows, t')"
  shows "distinct (map fst rows) \<and> set (map fst rows) = (\<Union>ev\<in>set evs. touches ev) \<and>
    current t' = current t ++ map_of rows \<and> dirty t' = []"
proof -
  have ok: "tracker_ok (apply_events t evs)" using assms(1) by simp
  show ?thesis
    using take_changed_rows [OF ok assms(3)] events_touch [of t evs] assms(2) rows_cover_changes [OF assms]
    by simp
qed

end
