(* ===== verification/Startup_Properties.thy ===== *)
theory Startup_Properties
  imports Startup Record_Properties
begin

text \<open>The properties of the start: the schema is that of the build, and seeded depths are followed.\<close>

section \<open>The schema\<close>

lemma ensure_cases:
  assumes "ensure_schema ans noauto want s = (Inr rebuilt, s')" "list_all (\<lambda>c. code c < 128) want"
  obtains "\<not> rebuilt" "s' = s" "stored_fingerprint s = Some want"
  | "rebuilt" "stored_fingerprint s \<noteq> Some want" "noauto \<longrightarrow> stored_fingerprint s = None"
    "s' = created\<lparr>sv_db := insert_rows ''constants'' [fingerprint_row want] (sv_db created)\<rparr>"
  using assms
  by (auto simp: ensure_schema_def Let_def apply_ddl_def run_tx_def split: option.splits if_splits tx_outcome.splits)

text \<open>C39: a start that gets past the schema has that of this build: either it was there and nothing was
  touched, or every table is new and empty but for the fingerprint. The flag against automatic
  rebuilding protects a schema that carries a fingerprint, and no other.\<close>

theorem schema_is_this_build:
  assumes "ensure_schema ans noauto want s = (Inr rebuilt, s')" "list_all (\<lambda>c. code c < 128) want"
  shows "stored_fingerprint s' = Some want \<and> (rebuilt \<longleftrightarrow> stored_fingerprint s \<noteq> Some want) \<and>
    (if rebuilt then (\<forall>t. t \<noteq> ''constants'' \<longrightarrow> sv_db s' t = []) \<and> (noauto \<longrightarrow> stored_fingerprint s = None) else s' = s)"
proof (rule ensure_cases [OF assms])
  assume "rebuilt" "stored_fingerprint s \<noteq> Some want" "noauto \<longrightarrow> stored_fingerprint s = None"
    "s' = created\<lparr>sv_db := insert_rows ''constants'' [fingerprint_row want] (sv_db created)\<rparr>"
  moreover from this(4) have "stored_fingerprint s' = Some want" using assms(2) by simp
  ultimately show ?thesis by (simp add: created_def)
qed simp

definition answering :: db_answers where
  "answering = \<lparr>da_read = None, da_batch = None, da_insert = (Committed, [])\<rparr>"

text \<open>A schema without a fingerprint that holds a block.\<close>

definition unmarked :: server where
  "unmarked = \<lparr>sv_schema = True, sv_db = (\<lambda>t. if t = ''block_log'' then [[(''height'', VInt 7)]] else [])\<rparr>"

theorem schema_is_this_build_witness:
  "\<exists>s'. ensure_schema answering True ''ab'' unmarked = (Inr True, s') \<and> stored_fingerprint s' = Some ''ab'' \<and>
     sv_db s' ''block_log'' = []"
proof -
  have none: "stored_fingerprint unmarked = None" by (simp add: stored_fingerprint_def unmarked_def)
  then obtain s' where s': "ensure_schema answering True ''ab'' unmarked = (Inr True, s')"
    by (simp add: ensure_schema_def apply_ddl_def answering_def run_tx_def Let_def)
  from schema_is_this_build [OF this] s' show ?thesis by simp
qed

section \<open>Seeded depths\<close>

lemma start_seeds:
  assumes "start_up ans env http oc want cfg s = (Inr sy, s')" "list_all (\<lambda>c. code c < 128) want"
    and "stored_fingerprint s \<noteq> Some want" "1 < initial_block_height (cf_genesis cfg)"
    and "get_pools http (thornode_base (thornode_url (cf_thorchain cfg))) = Inr pools"
  obtains at where "sy = new_syncer (sv_db s') new_cursor cfg"
    "sv_db s' ''block_pool_depths'' = map (seed_depth_row at) (filter (\<lambda>p. tp_asset p \<noteq> []) pools)"
proof -
  obtain s1 where s1: "ensure_schema ans (no_auto_update_ddl (cf_timescale cfg)) want s = (Inr True, s1)"
    "s1 = created\<lparr>sv_db := insert_rows ''constants'' [fingerprint_row want] (sv_db created)\<rparr>"
  proof (cases "ensure_schema ans (no_auto_update_ddl (cf_timescale cfg)) want s")
    case (Pair r s1)
    with assms(1) obtain rebuilt where "r = Inr rebuilt" by (cases r) (auto simp: start_up_def)
    with Pair assms(3) show thesis using that by (auto elim: ensure_cases [OF _ assms(2)])
  qed
  have "bp_height (cu_last new_cursor) = 0" by (simp add: new_cursor_def empty_pos_def)
  moreover have "refresh new_cursor (sv_db s1) = new_cursor" by (rule refresh_empty) (simp add: s1 created_def)
  moreover from calculation obtain b where "en_fetch_block env (start_height cfg) = Inr b"
    using assms(1,4) s1(1)
    by (cases "en_fetch_block env (start_height cfg)") (auto simp: start_up_def start_height_def Let_def)
  ultimately have "sy = new_syncer (sv_db s') new_cursor cfg"
    "sv_db s' = fold (seed_pool (first_id_at_height (start_height cfg)) (wrap64 (b_timestamp b - 1)))
       (filter (\<lambda>p. tp_asset p \<noteq> []) pools) (sv_db s1)"
    using assms(1,4,5) s1(1)
    by (auto simp: start_up_def start_height_def Let_def seed_pool_depths_def run_tx_def
        split: sum.splits prod.splits if_splits tx_outcome.splits)
  then show thesis using that [of "wrap64 (b_timestamp b - 1)"] by (simp add: seeded_tables s1(2) created_def)
qed


definition sample_pool :: thor_pool where
  "sample_pool = \<lparr>tp_asset = ''BTC.BTC'', tp_status = ''Available'', tp_balance_asset = ''30'', tp_balance_rune = ''500'',
     tp_pool_units = ''9'', tp_lp_units = [], tp_synth_units = [], tp_synth_supply = ''0'', tp_savers_depth = [],
     tp_savers_units = [], tp_decimals = None\<rparr>"

definition midway_config :: config where
  "midway_config = default_config\<lparr>cf_genesis := \<lparr>initial_block_height = 5, initial_block_hash = []\<rparr>\<rparr>"


text \<open>
  Nothing marks the seeds: a process that dies before its first flush finds no block and seeds again.
\<close>

lemma seeds_are_repeated:
  assumes "sv_db s ''block_log'' = []" "stored_fingerprint s = Some want" "1 < initial_block_height (cf_genesis cfg)"
    and "start_up answering env http Committed want cfg s = (Inr sy, s')"
    and "get_pools http (thornode_base (thornode_url (cf_thorchain cfg))) = Inr pools"
  shows "\<exists>at. sv_db s' ''block_pool_depths'' =
    sv_db s ''block_pool_depths'' @ map (seed_depth_row at) (filter (\<lambda>p. tp_asset p \<noteq> []) pools)"
  using assms seeded_tables refresh_empty [of "sv_db s"]
  by (auto simp: start_up_def ensure_schema_def answering_def start_height_def Let_def seed_pool_depths_def run_tx_def
      new_cursor_def empty_pos_def split: sum.splits prod.splits if_splits)

end
