(* ===== verification/Daemon.thy ===== *)
theory Daemon
  imports Sync
begin

text \<open>
  The daemon as it runs: the iteration of \<open>crates/midgard/src/sync.rs\<close> cut into the moves between
  which \<open>crates/midgard-api\<close> may look at the database and the cursor, with the last flush and the
  restarts of \<open>main\<close>. \<open>Sync\<close> has an iteration as one function; here it is a run of moves, and what
  holds between any two of them is the invariant \<open>consistent\<close>.
\<close>

section \<open>Moves\<close>

text \<open>
  Where the sync task stands: between two iterations; before \<open>iterator.next\<close>, and after \<open>add\<close> but
  before \<open>observe\<close>, in \<open>catch_up\<close>; before \<open>fetch_block\<close>, before \<open>flush\<close> and before \<open>observe\<close> in
  \<open>follow\<close>; after a transaction that failed; after the last flush.
\<close>

datatype activity =
    Polling
  | Taking block_iterator
  | Added block block_iterator
  | Walking "i64 list"
  | Appended block "i64 list"
  | Flushed block "i64 list"
  | Failed
  | Stopped

type_synonym daemon = "activity \<times> syncer"

definition observed :: "syncer \<Rightarrow> block \<Rightarrow> syncer" where
  "observed s b = s\<lparr>sy_cursor := observe (sy_cursor s) (pos_of b)\<rparr>"

text \<open>A transaction that was acknowledged goes on with \<open>next\<close>.\<close>

definition settle :: "activity \<Rightarrow> syncer \<Rightarrow> block_writer \<times> database \<times> bool \<Rightarrow> daemon" where
  "settle nxt s r = (case r of (w, db, sc) \<Rightarrow> (if sc then nxt else Failed, s\<lparr>sy_writer := w, sy_db := db\<rparr>))"

fun move :: "environment \<Rightarrow> nat \<Rightarrow> daemon \<Rightarrow> daemon" where
  "move env i (Polling, s) = (case en_tip env of
     Inl _ \<Rightarrow> (Polling, s)
   | Inr tip \<Rightarrow>
       let s1 = s\<lparr>sy_chain_height := tip\<rparr>; next_h = max (next_height (sy_cursor s1)) (first_height s1) in
       (if tip < next_h then Polling
        else if BATCH_THRESHOLD < wrap64 (wrap64 (tip - next_h) + 1) then Taking (iterator next_h tip)
        else Walking [next_h..tip], s1))"
| "move env i (Taking it, s) = (case iter_next (en_fetch_range env) (sy_fetch_batch s) it of
     (Inr (Some b), it') \<Rightarrow>
       if en_cancelled env i then (Polling, s)
       else settle (Added b it') s (add_block (en_outcome env i) (sy_writer s) (sy_db s) b)
   | _ \<Rightarrow> (Polling, s))"
| "move env i (Added b it, s) = (Taking it, observed s b)"
| "move env i (Walking [], s) = (Polling, s)"
| "move env i (Walking (h # hs), s) = (case en_fetch_block env h of
     Inl _ \<Rightarrow> (Polling, s)
   | Inr b \<Rightarrow> settle (Appended b hs) s (add_block (en_outcome env i) (sy_writer s) (sy_db s) b))"
| "move env i (Appended b hs, s) = settle (Flushed b hs) s (flush (en_outcome env i) (sy_writer s) (sy_db s))"
| "move env i (Flushed b hs, s) = (Walking hs, observed s b)"
| "move env i (Failed, s) = (Failed, s)"
| "move env i (Stopped, s) = (Stopped, s)"

text \<open>\<open>run\<close> after its loop: the flush of a clean shutdown.\<close>

fun wind_up :: "tx_outcome \<Rightarrow> daemon \<Rightarrow> daemon" where
  "wind_up oc (Polling, s) = (Stopped, snd (settle Stopped s (flush oc (sy_writer s) (sy_db s))))"
| "wind_up oc d = d"

abbreviation moves :: "environment \<Rightarrow> nat list \<Rightarrow> daemon \<Rightarrow> daemon" where
  "moves env is d \<equiv> foldl (\<lambda>d i. move env i d) d is"

section \<open>An iteration is a run of moves\<close>

lemma settle_eq:
  "settle nxt s (w, db, sc) = (if sc then nxt else Failed, s\<lparr>sy_writer := w, sy_db := db\<rparr>)"
  by (simp add: settle_def)

lemma moves_Failed [simp]: "moves env is (Failed, s) = (Failed, s)"
  by (induction "is") simp_all

lemma catch_up_moves:
  assumes "\<And>h n bs. i64_ok h \<Longrightarrow> en_fetch_range env h n = Inr bs \<Longrightarrow> length bs \<le> n" "0 < sy_fetch_batch s" "it_ok it"
    and "it_left it < fuel"
  shows "\<exists>is a. moves env is (Taking it, s) = (a, snd (catch_up_loop fuel env i it s)) \<and> a \<in> {Polling, Failed}"
  using assms(2-)
proof (induction fuel arbitrary: i it s)
  case (Suc fuel)
  show ?case
  proof (cases "\<exists>b it'. iter_next (en_fetch_range env) (sy_fetch_batch s) it = (Inr (Some b), it') \<and> \<not> en_cancelled env i")
    case False
    then have "moves env [i] (Taking it, s) = (Polling, s)" "snd (catch_up_loop (Suc fuel) env i it s) = s"
      by (auto split: prod.split sum.split option.split)
    then show ?thesis by (metis insertI1)
  next
    case True
    then obtain b it' where n: "iter_next (en_fetch_range env) (sy_fetch_batch s) it = (Inr (Some b), it')"
      and c: "\<not> en_cancelled env i" by blast
    obtain w db sc where a: "add_block (en_outcome env i) (sy_writer s) (sy_db s) b = (w, db, sc)"
      by (metis prod_cases3)
    let ?s = "s\<lparr>sy_writer := w, sy_db := db\<rparr>"
    show ?thesis
    proof (cases sc)
      case False
      then have "moves env [i] (Taking it, s) = (Failed, snd (catch_up_loop (Suc fuel) env i it s))"
        using n c a by (simp add: settle_eq)
      then show ?thesis by blast
    next
      case True
      have "it_left it' < it_left it \<and> it_ok it'" by (rule iter_next_shrinks [OF assms(1) Suc.prems(1,2) n])
      with Suc.prems(1,3) Suc.IH [of "observed ?s b" it' "Suc i"] obtain js x where
        "moves env js (Taking it', observed ?s b) = (x, snd (catch_up_loop fuel env (Suc i) it' (observed ?s b)))"
        "x \<in> {Polling, Failed}"
        by (auto simp: observed_def)
      moreover have "moves env (i # i # js) (Taking it, s) = moves env js (Taking it', observed ?s b)"
        using n c a True by (simp add: settle_eq)
      moreover have "snd (catch_up_loop (Suc fuel) env i it s) = snd (catch_up_loop fuel env (Suc i) it' (observed ?s b))"
        using n c a True by (simp add: observed_def Let_def)
      ultimately show ?thesis by metis
    qed
  qed
qed simp

lemma follow_moves:
  "\<exists>is a. moves env is (Walking hs, s) = (a, snd (follow_loop env i hs s)) \<and> a \<in> {Polling, Failed}"
proof (induction hs arbitrary: i s)
  case Nil
  have "moves env [0] (Walking [], s) = (Polling, snd (follow_loop env i [] s))" by simp
  then show ?case by blast
next
  case (Cons h hs)
  let ?i = "2 * i"
  show ?case
  proof (cases "en_fetch_block env h")
    case (Inl e)
    then have "moves env [0] (Walking (h # hs), s) = (Polling, snd (follow_loop env i (h # hs) s))" by simp
    then show ?thesis by blast
  next
    case (Inr b)
    obtain w db sc where a: "add_block (en_outcome env ?i) (sy_writer s) (sy_db s) b = (w, db, sc)"
      by (metis prod_cases3)
    obtain w2 db2 sc2 where f: "flush (en_outcome env (?i + 1)) w db = (w2, db2, sc2)" by (metis prod_cases3)
    let ?s = "s\<lparr>sy_writer := w2, sy_db := db2\<rparr>"
    consider "\<not> sc" | "sc" "\<not> sc2" | "sc" "sc2" by blast
    then show ?thesis
    proof cases
      case 1
      then have "moves env [?i] (Walking (h # hs), s) = (Failed, snd (follow_loop env i (h # hs) s))"
        using Inr a by (simp add: settle_eq)
      then show ?thesis by blast
    next
      case 2
      then have "moves env [?i, ?i + 1] (Walking (h # hs), s) = (Failed, snd (follow_loop env i (h # hs) s))"
        using Inr a f by (simp add: settle_eq)
      then show ?thesis by blast
    next
      case 3
      obtain js x where "moves env js (Walking hs, observed ?s b) = (x, snd (follow_loop env (Suc i) hs (observed ?s b)))"
        "x \<in> {Polling, Failed}" using Cons.IH by blast
      moreover have "moves env (?i # (?i + 1) # 0 # js) (Walking (h # hs), s) = moves env js (Walking hs, observed ?s b)"
        using Inr a f 3 by (simp add: settle_eq)
      moreover have "snd (follow_loop env i (h # hs) s) = snd (follow_loop env (Suc i) hs (observed ?s b))"
        using Inr a f 3 by (simp add: observed_def Let_def)
      ultimately show ?thesis by metis
    qed
  qed
qed

text \<open>The first move takes the tip and chooses the loop; the loop does the rest.\<close>

lemma step_moves:
  assumes "\<And>h n bs. i64_ok h \<Longrightarrow> en_fetch_range env h n = Inr bs \<Longrightarrow> length bs \<le> n"
    and "\<And>tip. en_tip env = Inr tip \<Longrightarrow> i64_ok (tip + 1)"
    and "0 < sy_fetch_batch s" "i64_ok (sy_initial_height s)"
  shows "\<exists>is a. moves env is (Polling, s) = (a, snd (sync_step env s)) \<and> a \<in> {Polling, Failed}"
proof (cases "en_tip env")
  case (Inl e)
  then have "moves env [] (Polling, s) = (Polling, snd (sync_step env s))" by (simp add: sync_step_def)
  then show ?thesis by blast
next
  case (Inr tip)
  define s1 where "s1 = s\<lparr>sy_chain_height := tip\<rparr>"
  define h where "h = max (next_height (sy_cursor s1)) (first_height s1)"
  have "i64_ok (next_height (sy_cursor s1))" by (simp add: next_height_def)
  moreover have "i64_ok (first_height s1)" using assms(4) by (simp add: first_height_def s1_def i64_ok_def)
  ultimately have ok: "it_ok (iterator h tip)" "it_left (iterator h tip) < Suc (nat (tip - h + 1))"
    using assms(2) [OF Inr] by (auto simp: it_ok_def it_left_def iterator_def h_def max_def)
  have n: "0 < sy_fetch_batch s1" using assms(3) by (simp add: s1_def)
  consider "tip < h" | "\<not> tip < h" "BATCH_THRESHOLD < wrap64 (wrap64 (tip - h) + 1)"
    | "\<not> tip < h" "\<not> BATCH_THRESHOLD < wrap64 (wrap64 (tip - h) + 1)" by blast
  then show ?thesis
  proof cases
    case 1
    then have "moves env [0] (Polling, s) = (Polling, snd (sync_step env s))"
      using Inr by (simp add: sync_step_def Let_def s1_def h_def)
    then show ?thesis by blast
  next
    case 2
    obtain js a where "moves env js (Taking (iterator h tip), s1) = (a, snd (catch_up env h tip s1))" "a \<in> {Polling, Failed}"
      unfolding catch_up_def using catch_up_moves [where env = env, OF _ n ok] assms(1) by blast
    moreover have "move env 0 (Polling, s) = (Taking (iterator h tip), s1)"
      "snd (sync_step env s) = snd (catch_up env h tip s1)"
      using Inr 2 by (simp_all add: sync_step_def Let_def s1_def h_def case_prod_unfold)
    ultimately have "moves env (0 # js) (Polling, s) = (a, snd (sync_step env s))" by simp
    with \<open>a \<in> {Polling, Failed}\<close> show ?thesis by blast
  next
    case 3
    obtain js a where "moves env js (Walking [h..tip], s1) = (a, snd (follow env h tip s1))" "a \<in> {Polling, Failed}"
      unfolding follow_def using follow_moves by blast
    moreover have "move env 0 (Polling, s) = (Walking [h..tip], s1)"
      "snd (sync_step env s) = snd (follow env h tip s1)"
      using Inr 3 by (simp_all add: sync_step_def Let_def s1_def h_def case_prod_unfold)
    ultimately have "moves env (0 # js) (Polling, s) = (a, snd (sync_step env s))" by simp
    with \<open>a \<in> {Polling, Failed}\<close> show ?thesis by blast
  qed
qed

section \<open>Between two moves\<close>

text \<open>What a request can see: the blocks below \<open>j\<close> are stored, those below \<open>k\<close> observed.\<close>

definition visible :: "(i64 \<Rightarrow> block) \<Rightarrow> i64 \<Rightarrow> nat \<Rightarrow> syncer \<Rightarrow> i64 \<Rightarrow> i64 \<Rightarrow> bool" where
  "visible chain f n s j k \<longleftrightarrow> stored_to chain f (sy_db s) j \<and> sy_cursor s = cursor_at chain f k \<and> f \<le> k \<and>
     i64_ok k \<and> j \<le> k + 1 \<and> k < j + int n"

definition seen :: "(i64 \<Rightarrow> block) \<Rightarrow> i64 \<Rightarrow> nat \<Rightarrow> syncer \<Rightarrow> bool" where
  "seen chain f n s \<longleftrightarrow> (\<exists>j k. visible chain f n s j k)"

lemma visible_seen: "visible chain f n s j k \<Longrightarrow> seen chain f n s"
  by (auto simp: seen_def)

text \<open>In step at \<open>k\<close>, with fewer blocks buffered than a batch.\<close>

definition steady :: "(i64 \<Rightarrow> block) \<Rightarrow> i64 \<Rightarrow> nat \<Rightarrow> syncer \<Rightarrow> i64 \<Rightarrow> bool" where
  "steady chain f n s k \<longleftrightarrow> synced_at chain f s k \<and> length (w_blocks (sy_writer s)) < n \<and> w_batch_size (sy_writer s) = n"

text \<open>The block at \<open>k\<close> is written and about to be observed.\<close>

definition ahead :: "(i64 \<Rightarrow> block) \<Rightarrow> i64 \<Rightarrow> nat \<Rightarrow> syncer \<Rightarrow> block \<Rightarrow> i64 \<Rightarrow> bool" where
  "ahead chain f n s b k \<longleftrightarrow> b = chain k \<and> f \<le> k \<and> i64_ok k \<and> sy_cursor s = cursor_at chain f k \<and>
     steady chain f n (observed s b) (k + 1)"

fun consistent :: "(i64 \<Rightarrow> block) \<Rightarrow> i64 \<Rightarrow> nat \<Rightarrow> daemon \<Rightarrow> bool" where
  "consistent chain f n (Polling, s) \<longleftrightarrow> (\<exists>k. steady chain f n s k)"
| "consistent chain f n (Taking it, s) \<longleftrightarrow> (\<exists>k. steady chain f n s k \<and> iter_at chain k it)"
| "consistent chain f n (Added b it, s) \<longleftrightarrow> (\<exists>k. ahead chain f n s b k \<and> iter_at chain (k + 1) it)"
| "consistent chain f n (Walking hs, s) \<longleftrightarrow>
     (\<exists>k tip. steady chain f n s k \<and> hs = [k..tip] \<and> i64_ok (tip + 1))"
| "consistent chain f n (Appended b hs, s) \<longleftrightarrow>
     (\<exists>k tip. ahead chain f n s b k \<and> hs = [k + 1..tip] \<and> i64_ok (tip + 1))"
| "consistent chain f n (Flushed b hs, s) \<longleftrightarrow>
     (\<exists>k tip. ahead chain f n s b k \<and> hs = [k + 1..tip] \<and> i64_ok (tip + 1))"
| "consistent chain f n (Failed, s) \<longleftrightarrow> seen chain f n s"
| "consistent chain f n (Stopped, s) \<longleftrightarrow> seen chain f n s"

lemma steady_visible:
  assumes "steady chain f n s k" "1 \<le> f"
  shows "\<exists>j. visible chain f n s j k \<and> j \<le> k"
proof -
  obtain pre post where pp: "pre @ post = segment chain f k" "in_step (sy_writer s) (sy_db s) pre post"
    and fk: "f \<le> k" "i64_ok k" "sy_cursor s = cursor_at chain f k"
    using assms(1) by (auto simp: steady_def synced_at_def)
  obtain j where j: "f \<le> j" "j \<le> k" "pre = segment chain f j" using segment_prefix [OF pp(1) fk(1)] by blast
  have "length pre + length post = nat (k - f)" "length pre = nat (j - f)"
    using arg_cong [OF pp(1), of length] j(3) by (simp_all add: segment_def)
  moreover have "length post < n" using pp(2) assms(1) by (simp add: in_step_def buffered_def steady_def)
  ultimately have "k < j + int n" using j(1) fk(1) by linarith
  with j fk pp(2) i64_ok_between [OF assms(2) j(1,2) fk(2)] show ?thesis
    by (auto simp: visible_def stored_to_def in_step_def)
qed

lemma ahead_visible:
  assumes "ahead chain f n s b k" "1 \<le> f" "0 < n"
  shows "\<exists>j. visible chain f n s j k"
proof -
  obtain j where "visible chain f n (observed s b) j (k + 1)" "j \<le> k + 1"
    using steady_visible [of chain f n _ "k + 1"] assms by (auto simp: ahead_def)
  with assms(1) show ?thesis by (auto simp: visible_def ahead_def observed_def)
qed

lemma consistent_seen:
  assumes "consistent chain f n d" "1 \<le> f" "0 < n"
  shows "seen chain f n (snd d)"
proof -
  obtain a s where d: "d = (a, s)" by force
  from assms show ?thesis unfolding d
    by (cases a; simp; meson steady_visible ahead_visible visible_seen)
qed

text \<open>The two transactions of a block: acknowledged, it is ahead of the cursor; else the daemon has failed.\<close>

lemma add_small:
  assumes "add_block oc w db b = (w', db', True)" "length (w_blocks w) < w_batch_size w"
  shows "length (w_blocks w') < w_batch_size w' \<and> w_batch_size w' = w_batch_size w"
proof (cases "w_batch_size (buffer_block w b) \<le> length (w_blocks (buffer_block w b))")
  case True
  with assms(1) have "flush oc (buffer_block w b) db = (w', db', True)" by (simp add: add_block_def)
  then show ?thesis using assms(2) by (cases rule: flush_cases) (auto simp: buffer_block_fields)
next
  case False
  with assms(1) show ?thesis by (auto simp: add_block_def buffer_block_fields)
qed

lemma settle_add:
  assumes "good_chain chain" "1 \<le> f" "steady chain f n s k" "i64_ok (k + 1)"
    and "settle nxt s (add_block oc (sy_writer s) (sy_db s) (chain k)) = (a, s')"
  shows "a = nxt \<and> ahead chain f n s' (chain k) k \<or> a = Failed \<and> seen chain f n s'"
proof -
  obtain w db sc where ab: "add_block oc (sy_writer s) (sy_db s) (chain k) = (w, db, sc)" by (metis prod_cases3)
  have s': "a = (if sc then nxt else Failed)" "s' = s\<lparr>sy_writer := w, sy_db := db\<rparr>"
    using assms(5) ab by (simp_all add: settle_eq)
  have at: "synced_at chain f s k" "f \<le> k" "i64_ok k" "sy_cursor s = cursor_at chain f k"
    using assms(3) by (auto simp: steady_def synced_at_def)
  note add = synced_add [OF assms(1) at(1) assms(2,4) ab]
  show ?thesis
  proof (cases sc)
    case True
    with add(1) obtain p q where "p @ q = segment chain f (k + 1)" "in_step w db p q" by blast
    from synced_observe [OF assms(1) at(1) assms(2,4) this]
    have "synced_at chain f (observed s' (chain k)) (k + 1)" by (simp add: s'(2) observed_def)
    moreover have "length (w_blocks w) < n \<and> w_batch_size w = n"
      using add_small [of oc "sy_writer s" "sy_db s" "chain k" w db] ab True assms(3) by (auto simp: steady_def)
    ultimately have "ahead chain f n s' (chain k) k"
      using at by (simp add: ahead_def steady_def s'(2) observed_def)
    with True s'(1) show ?thesis by simp
  next
    case False
    obtain j where j: "visible chain f n s j k" using steady_visible [OF assms(3,2)] by blast
    obtain pre post where pp: "pre @ post = segment chain f k" "in_step (sy_writer s) (sy_db s) pre post"
      using at(1) by (auto simp: synced_at_def)
    have all: "pre @ post @ [chain k] = segment chain f (k + 1)"
      using pp(1) at(2) by (simp add: segment_snoc flip: append_assoc)
    then have "chain_ok (pre @ post @ [chain k])" using chain_ok_segment [OF assms(1)] by simp
    from add_any [OF pp(2) this ab] all pp(2)
    have "db = sy_db s \<or> db = projection (segment chain f (k + 1))" by (auto simp: in_step_def)
    then have "visible chain f n s' j k \<or> visible chain f n s' (k + 1) k"
      using j at(2,3) assms(4) by (auto simp: visible_def stored_to_def s'(2))
    with False s'(1) show ?thesis by (auto intro: visible_seen)
  qed
qed

lemma settle_flush:
  assumes "1 \<le> f" "0 < n" "ahead chain f n s b k"
    and "settle nxt s (flush oc (sy_writer s) (sy_db s)) = (a, s')"
  shows "a = nxt \<and> ahead chain f n s' b k \<or> a = Failed \<and> seen chain f n s'"
proof -
  obtain w db sc where fl: "flush oc (sy_writer s) (sy_db s) = (w, db, sc)" by (metis prod_cases3)
  have s': "a = (if sc then nxt else Failed)" "s' = s\<lparr>sy_writer := w, sy_db := db\<rparr>"
    using assms(4) fl by (simp_all add: settle_eq)
  have k: "b = chain k" "f \<le> k" "i64_ok k" "sy_cursor s = cursor_at chain f k" "i64_ok (k + 1)"
    using assms(3) by (auto simp: ahead_def steady_def synced_at_def)
  obtain pre post where pp: "pre @ post = segment chain f (k + 1)" "in_step (sy_writer s) (sy_db s) pre post"
    using assms(3) by (auto simp: ahead_def steady_def synced_at_def observed_def)
  note any = flush_any [OF pp(2) fl]
  show ?thesis
  proof (cases sc)
    case True
    with any pp(1) have st: "in_step w db (segment chain f (k + 1)) []" by simp
    have "w_batch_size w = n"
      using fl assms(3) True by (cases rule: flush_cases) (auto simp: ahead_def steady_def observed_def)
    moreover have "w_blocks w = []" using st by (simp add: in_step_def buffered_def)
    moreover have "synced_at chain f (observed s' b) (k + 1)"
      using assms(3) st by (auto simp: ahead_def steady_def synced_at_def observed_def s'(2) first_height_def)
    ultimately have "ahead chain f n s' b k"
      using k assms(2) by (simp add: ahead_def steady_def s'(2) observed_def)
    with True s'(1) show ?thesis by simp
  next
    case False
    obtain j where j: "visible chain f n s j k"
      by (rule ahead_visible [OF assms(3,1,2), THEN exE])
    have "db = sy_db s \<or> db = projection (segment chain f (k + 1))" using any pp by (auto simp: in_step_def)
    then have "visible chain f n s' j k \<or> visible chain f n s' (k + 1) k"
      using j k by (auto simp: visible_def stored_to_def s'(2))
    with False s'(1) show ?thesis by (auto intro: visible_seen)
  qed
qed

lemma steady_polled: "steady chain f n (s\<lparr>sy_chain_height := t\<rparr>) k \<longleftrightarrow> steady chain f n s k"
  by (simp add: steady_def synced_irrelevant)

lemma ahead_observed: "ahead chain f n s b k \<Longrightarrow> steady chain f n (observed s b) (k + 1)"
  unfolding ahead_def by blast

text \<open>Every move keeps it.\<close>

lemma move_consistent:
  assumes "good_chain chain" "honest chain env" "1 \<le> f" "0 < n" "consistent chain f n d"
  shows "consistent chain f n (move env i d)"
proof -
  obtain a s where d: "d = (a, s)" by force
  have k1: "i64_ok (k + 1)" if "steady chain f n s k" "k \<le> tip" "i64_ok (tip + 1)" for k tip
    using that assms(3) by (auto simp: steady_def synced_at_def i64_ok_def)
  show ?thesis
  proof (cases a)
    case Polling
    then obtain k where k: "steady chain f n s k" using assms(5) d by auto
    then have "max (next_height (sy_cursor s)) (first_height s) = k"
      using next_height_at [OF assms(1) _ assms(3)] by (auto simp: steady_def synced_at_def)
    moreover have "i64_ok (tip + 1)" if "en_tip env = Inr tip" for tip using assms(2) that by (simp add: honest_def)
    moreover have "iter_at chain k (iterator k tip)" if "i64_ok (tip + 1)" for tip
      using that k by (auto simp: iter_at_def iterator_def steady_def synced_at_def)
    ultimately show ?thesis
      using k Polling d by (cases "en_tip env") (auto simp: Let_def first_height_def steady_polled)
  next
    case (Taking it)
    then obtain k where k: "steady chain f n s k" "iter_at chain k it" using assms(5) d by auto
    have n: "0 < sy_fetch_batch s" using k(1) by (simp add: steady_def synced_at_def)
    show ?thesis
    proof (cases "\<exists>b it'. iter_next (en_fetch_range env) (sy_fetch_batch s) it = (Inr (Some b), it') \<and> \<not> en_cancelled env i")
      case False
      then have "move env i d = (Polling, s)"
        by (auto simp: d Taking split: prod.split sum.split option.split)
      with k(1) show ?thesis by auto
    next
      case True
      then obtain b it' where nx: "iter_next (en_fetch_range env) (sy_fetch_batch s) it = (Inr (Some b), it')"
        and c: "\<not> en_cancelled env i" by blast
      have b: "b = chain k" "iter_at chain (k + 1) it'" using iter_next_at [OF k(2) assms(2) n nx] by auto
      then have "i64_ok (k + 1)"
        using k(1) assms(3) by (auto simp: iter_at_def steady_def synced_at_def i64_ok_def)
      from settle_add [OF assms(1,3) k(1) this, of "Added b it'" "en_outcome env i"]
      obtain a' s' where st: "settle (Added b it') s (add_block (en_outcome env i) (sy_writer s) (sy_db s) b) = (a', s')"
        "a' = Added b it' \<and> ahead chain f n s' b k \<or> a' = Failed \<and> seen chain f n s'"
        by (metis b(1) surj_pair)
      then show ?thesis using nx c b(2) by (auto simp: d Taking)
    qed
  next
    case (Added b it)
    then obtain k where "ahead chain f n s b k" "iter_at chain (k + 1) it" using assms(5) d by auto
    from ahead_observed [OF this(1)] this(2) show ?thesis by (auto simp: d Added)
  next
    case (Walking hs)
    then obtain k tip where k: "steady chain f n s k" "hs = [k..tip]" "i64_ok (tip + 1)" using assms(5) d by auto
    show ?thesis
    proof (cases "k \<le> tip")
      case False
      with k Walking d show ?thesis by auto
    next
      case True
      then have hs: "hs = k # [k + 1..tip]" using k(2) by (simp add: upto_rec1)
      show ?thesis
      proof (cases "en_fetch_block env k")
        case (Inl e)
        with k(1) hs show ?thesis by (auto simp: d Walking)
      next
        case (Inr b)
        then have b: "b = chain k" using assms(2) by (simp add: honest_def)
        from settle_add [OF assms(1,3) k(1) k1 [OF k(1) True k(3)], of "Appended b [k + 1..tip]" "en_outcome env i"]
        obtain a' s' where "settle (Appended b [k + 1..tip]) s (add_block (en_outcome env i) (sy_writer s) (sy_db s) b) = (a', s')"
          "a' = Appended b [k + 1..tip] \<and> ahead chain f n s' b k \<or> a' = Failed \<and> seen chain f n s'"
          by (metis b surj_pair)
        moreover from this have "move env i d = (a', s')" using Inr hs by (simp add: d Walking)
        ultimately show ?thesis using k(3) consistent.simps(5,7) by metis
      qed
    qed
  next
    case (Appended b hs)
    then obtain k tip where k: "ahead chain f n s b k" "hs = [k + 1..tip]" "i64_ok (tip + 1)" using assms(5) d by auto
    from settle_flush [OF assms(3,4) k(1), of "Flushed b hs" "en_outcome env i"]
    obtain a' s' where "settle (Flushed b hs) s (flush (en_outcome env i) (sy_writer s) (sy_db s)) = (a', s')"
      "a' = Flushed b hs \<and> ahead chain f n s' b k \<or> a' = Failed \<and> seen chain f n s'"
      by (metis surj_pair)
    moreover from this have "move env i d = (a', s')" by (simp add: d Appended)
    ultimately show ?thesis using k(2,3) consistent.simps(6,7) by metis
  next
    case (Flushed b hs)
    then obtain k tip where k: "ahead chain f n s b k" "hs = [k + 1..tip]" "i64_ok (tip + 1)" using assms(5) d by auto
    from ahead_observed [OF k(1)] k(2,3) show ?thesis by (auto simp: d Flushed)
  qed (use assms(5) d in auto)
qed

text \<open>So do the last flush and a restart.\<close>

lemma wind_up_consistent:
  assumes "good_chain chain" "1 \<le> f" "0 < n" "consistent chain f n d"
  shows "consistent chain f n (wind_up oc d)"
proof (cases "\<exists>s. d = (Polling, s)")
  case True
  then obtain s k where d: "d = (Polling, s)" and k: "steady chain f n s k" using assms(4) by auto
  obtain w db sc where fl: "flush oc (sy_writer s) (sy_db s) = (w, db, sc)" by (metis prod_cases3)
  obtain pre post where pp: "pre @ post = segment chain f k" "in_step (sy_writer s) (sy_db s) pre post"
    using k by (auto simp: steady_def synced_at_def)
  obtain j where j: "visible chain f n s j k" using steady_visible [OF k assms(2)] by blast
  have "db = sy_db s \<or> db = projection (segment chain f k)" using flush_any [OF pp(2) fl] pp by (auto simp: in_step_def)
  then have "visible chain f n (s\<lparr>sy_writer := w, sy_db := db\<rparr>) j k \<or> visible chain f n (s\<lparr>sy_writer := w, sy_db := db\<rparr>) k k"
    using j assms(3) by (auto simp: visible_def stored_to_def)
  then show ?thesis by (auto simp: d fl settle_eq intro: visible_seen)
next
  case False
  then have "wind_up oc d = d" by (cases "(oc, d)" rule: wind_up.cases) auto
  with assms(4) show ?thesis by simp
qed

lemma startup_steady:
  assumes "good_chain chain" "stored_to chain f db k" "f = max (initial_block_height (cf_genesis cfg)) 1"
    and "0 < fetch_batch_size (cf_thorchain cfg)"
  shows "steady chain f (max (commit_batch_size (cf_timescale cfg)) 1) (startup cfg db) k"
  using startup_synced [OF assms]
  by (simp add: steady_def startup_def new_syncer_def restore_def new_writer_def)

section \<open>The daemon\<close>

text \<open>
  A first start on an empty schema, moves in any environment, the last flush, and a start on whatever
  database was left, by a crash between or inside moves or by a shutdown.
\<close>

inductive daemon_reach :: "(i64 \<Rightarrow> block) \<Rightarrow> config \<Rightarrow> daemon \<Rightarrow> bool" for chain cfg where
  boots: "daemon_reach chain cfg (Polling, startup cfg empty_db)"
| moves: "daemon_reach chain cfg d \<Longrightarrow> honest chain env \<Longrightarrow> daemon_reach chain cfg (move env i d)"
| winds_up: "daemon_reach chain cfg d \<Longrightarrow> daemon_reach chain cfg (wind_up oc d)"
| restarts: "daemon_reach chain cfg d \<Longrightarrow> daemon_reach chain cfg (Polling, startup cfg (sy_db (snd d)))"

lemma daemon_consistent:
  assumes "good_chain chain" "0 < fetch_batch_size (cf_thorchain cfg)"
    and "f = max (initial_block_height (cf_genesis cfg)) 1" "i64_ok f" "daemon_reach chain cfg d"
  shows "consistent chain f (max (commit_batch_size (cf_timescale cfg)) 1) d"
  using assms(5)
proof (induction rule: daemon_reach.induct)
  case boots
  then show ?case using startup_steady [OF assms(1) empty_stored [OF assms(4)] assms(3,2)] by auto
next
  case (moves d env i)
  then show ?case using move_consistent [OF assms(1)] assms(3) by simp
next
  case (winds_up d oc)
  then show ?case using wind_up_consistent [OF assms(1)] assms(3) by simp
next
  case (restarts d)
  then have "seen chain f (max (commit_batch_size (cf_timescale cfg)) 1) (snd d)"
    using assms(3) by (intro consistent_seen) simp_all
  then obtain j where "stored_to chain f (sy_db (snd d)) j" by (auto simp: seen_def visible_def)
  from startup_steady [OF assms(1) this assms(3,2)] show ?case by auto
qed

section \<open>Blocks are only added\<close>

text \<open>The run of a process: moves, and the last flush.\<close>

inductive runs_to :: "(i64 \<Rightarrow> block) \<Rightarrow> daemon \<Rightarrow> daemon \<Rightarrow> bool" for chain where
  stays: "runs_to chain d d"
| moves_on: "runs_to chain d e \<Longrightarrow> honest chain env \<Longrightarrow> runs_to chain d (move env i e)"
| ends: "runs_to chain d e \<Longrightarrow> runs_to chain d (wind_up oc e)"

lemma reach_runs: "runs_to chain d e \<Longrightarrow> daemon_reach chain cfg d \<Longrightarrow> daemon_reach chain cfg e"
  by (induction rule: runs_to.induct) (auto intro: daemon_reach.intros)

abbreviation log_length :: "database \<Rightarrow> nat" where
  "log_length db \<equiv> length (db ''block_log'')"

lemma write_blocks_grow: "write_blocks bs db = Some db' \<Longrightarrow> log_length db \<le> log_length db'"
proof (induction bs arbitrary: db)
  case (Cons b bs)
  then obtain db1 where b: "insert_block b db = Some db1" "write_blocks bs db1 = Some db'"
    by (auto simp: bind_eq_Some_conv)
  have "log_length db \<le> log_length db1" using b(1) by (cases b) (auto simp: insert_block_def split: if_splits)
  with Cons.IH [OF b(2)] show ?case by simp
qed simp

lemma flush_grows: "flush oc w db = (w', db', sc) \<Longrightarrow> log_length db \<le> log_length db'"
proof -
  have "log_length db \<le> log_length x" if "settled w db = Some x" for x
    using that write_blocks_grow by (fastforce simp: settled_def write_batch_extend extend_db_def)
  then show "flush oc w db = (w', db', sc) \<Longrightarrow> log_length db \<le> log_length db'"
    by (auto elim!: flush_cases)
qed

lemma settle_grows:
  assumes "log_length (sy_db s) \<le> log_length (fst (snd r))"
  shows "log_length (sy_db s) \<le> log_length (sy_db (snd (settle nxt s r)))"
  using assms by (cases r) (simp add: settle_eq)

lemma add_grows: "log_length db \<le> log_length (fst (snd (add_block oc w db b)))"
  using flush_grows by (auto simp: add_block_def Let_def) (metis prod.collapse)

lemma move_grows: "log_length (sy_db (snd d)) \<le> log_length (sy_db (snd (move env i d)))"
proof -
  have f: "log_length db \<le> log_length (fst (snd (flush oc w db)))" for oc w db
    using flush_grows by (metis prod.collapse)
  show ?thesis
    by (cases "(env, i, d)" rule: move.cases)
      (auto simp: Let_def observed_def intro!: settle_grows add_grows f split: sum.split prod.split option.split)
qed

lemma runs_grow: "runs_to chain d e \<Longrightarrow> log_length (sy_db (snd d)) \<le> log_length (sy_db (snd e))"
proof (induction rule: runs_to.induct)
  case (moves_on d e env i)
  then show ?case using move_grows [of e env i] by simp
next
  case (ends d e oc)
  have "log_length (sy_db (snd e)) \<le> log_length (sy_db (snd (wind_up oc e)))"
    using flush_grows by (cases "(oc, e)" rule: wind_up.cases) (auto intro!: settle_grows, metis prod.collapse)
  with ends show ?case by simp
qed simp

lemma visible_log: "visible chain f n s j k \<Longrightarrow> int (log_length (sy_db s)) = j - f"
  by (auto simp: visible_def stored_to_def projection_def segment_def)

end
