(* ===== verification/Chain_Events.thy ===== *)
theory Chain_Events
  imports Projection Swap_History Liquidity_History Earnings_Totals
begin

text \<open>
  From the rows of the event tables back to the events. On the projection of a chain, a sum over the
  rows of a table in a span of time is the sum over the events the blocks of that time decode to: the
  locale \<open>event_table\<close> is what relates a table to the events it holds, and it is interpreted on the
  tables the history endpoints add up.
\<close>

section \<open>Events of a chain\<close>

text \<open>What \<open>pick\<close> takes from the records of each block, with the block's time.\<close>

definition timed :: "(recorded \<Rightarrow> 'v list) \<Rightarrow> block list \<Rightarrow> (nano \<times> 'v) list" where
  "timed pick bs = concat (map (\<lambda>b. map (Pair (b_timestamp b)) (concat (map pick (block_records b)))) bs)"

definition chain_events :: "(recorded \<Rightarrow> 'v list) \<Rightarrow> ('v \<Rightarrow> bool) \<Rightarrow> block list \<Rightarrow> second \<Rightarrow> second \<Rightarrow> 'v list" where
  "chain_events pick Q bs from_s until_s =
     map snd (filter (\<lambda>(ts, v). Q v \<and> in_span from_s until_s ts) (timed pick bs))"

text \<open>The filter by pool of a request, on events.\<close>

definition concerns :: "string option \<Rightarrow> ('v \<Rightarrow> string) \<Rightarrow> 'v \<Rightarrow> bool" where
  "concerns pool pool_of v \<longleftrightarrow> pool = None \<or> pool = Some (pool_of v)"

lemma of_pool_concerns: "text_cell r ''pool'' = pool_of v \<Longrightarrow> of_pool pool r = concerns pool pool_of v"
  by (auto simp: of_pool_def concerns_def split: option.split)

section \<open>Tables of events\<close>

locale event_table =
  fixes table :: string and rows :: "pending \<Rightarrow> row list" and pick :: "recorded \<Rightarrow> 'v list"
    and carries :: "row \<Rightarrow> 'v \<Rightarrow> bool"
  assumes inserted: "map_of INSERTS table = Some rows"
    and row_events: "list_all2 (\<lambda>r v. carries r v \<and> ts_of r = p_block_timestamp p) (rows p) (pick (p_record p))"
begin

lemma table_rows: "projection bs table = concat (map rows (concat (map block_pendings bs)))"
proof -
  have "table \<in> set EVENT_TABLES" using inserted INSERTS_tables(1) by (force dest: map_of_SomeD)
  then have "table \<noteq> ''block_log''" "table \<noteq> ''block_pool_depths''" by (auto simp: EVENT_TABLES_def)
  then show ?thesis by (simp add: projection_def event_rows_def inserted)
qed

lemma timed_pendings:
  "timed pick bs = concat (map (\<lambda>p. map (Pair (p_block_timestamp p)) (pick (p_record p))) (concat (map block_pendings bs)))"
proof (induction bs)
  case (Cons b bs)
  have "concat (map (\<lambda>p. map (Pair (p_block_timestamp p)) (pick (p_record p))) (block_pendings b)) =
      concat (map (\<lambda>p. map (Pair (b_timestamp b)) (pick (p_record p))) (block_pendings b))"
    by (rule arg_cong [where f = concat], rule map_cong) (auto simp: block_pendings_def)
  also have "\<dots> = map (Pair (b_timestamp b)) (concat (map pick (block_records b)))"
    by (simp add: block_records_def map_concat comp_def)
  finally show ?case using Cons by (simp only: timed_def list.map concat.simps map_append concat_append)
qed (simp add: timed_def)

lemma sum_rows:
  assumes "\<And>r v. carries r v \<Longrightarrow> P r = Q v" "\<And>r v. carries r v \<Longrightarrow> f r = g v"
    and "list_all2 (\<lambda>r v. carries r v \<and> ts_of r = ts) rs vs"
  shows "sum_of f (filter (\<lambda>r. P r \<and> in_span a z (ts_of r)) rs) =
    sum_list (map g (map snd (filter (\<lambda>(ts, v). Q v \<and> in_span a z ts) (map (Pair ts) vs))))"
  using assms(3) by (induction rule: list_all2_induct) (auto simp: assms(1,2))

lemma sum_events:
  assumes "\<And>r v. carries r v \<Longrightarrow> P r = Q v" "\<And>r v. carries r v \<Longrightarrow> f r = g v"
  shows "sum_of f (filter (\<lambda>r. P r \<and> in_span a z (ts_of r)) (projection bs table)) =
    sum_list (map g (chain_events pick Q bs a z))"
proof -
  have "sum_of f (filter (\<lambda>r. P r \<and> in_span a z (ts_of r)) (concat (map rows ps))) =
      sum_list (map g (map snd (filter (\<lambda>(ts, v). Q v \<and> in_span a z ts)
        (concat (map (\<lambda>p. map (Pair (p_block_timestamp p)) (pick (p_record p))) ps)))))" for ps
    by (induction ps) (simp_all add: sum_rows [OF assms row_events])
  then show ?thesis by (simp only: table_rows timed_pendings chain_events_def)
qed

end

section \<open>The tables the histories add up\<close>

definition swaps_in :: "recorded \<Rightarrow> swap list" where
  "swaps_in r = (case r of Swap v \<Rightarrow> [v] | _ \<Rightarrow> [])"

definition stakes_in :: "recorded \<Rightarrow> stake list" where
  "stakes_in r = (case r of Stake v \<Rightarrow> [v] | _ \<Rightarrow> [])"

definition withdraws_in :: "recorded \<Rightarrow> withdraw list" where
  "withdraws_in r = (case r of Withdraw v \<Rightarrow> [v] | _ \<Rightarrow> [])"

definition rewards_in :: "recorded \<Rightarrow> rewards list" where
  "rewards_in r = (case r of Rewards v \<Rightarrow> [v] | _ \<Rightarrow> [])"

definition shares_in :: "recorded \<Rightarrow> (string \<times> i64) list" where
  "shares_in r = (case r of Rewards v \<Rightarrow> rw_per_pool v | _ \<Rightarrow> [])"

definition swap_cells :: "row \<Rightarrow> swap \<Rightarrow> bool" where
  "swap_cells r v \<longleftrightarrow> int_cell r ''_direction'' = sw_direction v \<and> int_cell r ''from_e8'' = sw_from_e8 v \<and>
     int_cell r ''to_e8'' = sw_to_e8 v \<and> int_cell r ''liq_fee_in_rune_e8'' = sw_liq_fee_in_rune_e8 v \<and>
     int_cell r ''swap_slip_bp'' = sw_swap_slip_bp v \<and> text_cell r ''pool'' = sw_pool v"

definition stake_cells :: "row \<Rightarrow> stake \<Rightarrow> bool" where
  "stake_cells r v \<longleftrightarrow> int_cell r ''rune_e8'' = st_rune_e8 v \<and> int_cell r ''_asset_in_rune_e8'' = st_asset_in_rune_e8 v \<and>
     text_cell r ''pool'' = st_pool v"

definition withdraw_cells :: "row \<Rightarrow> withdraw \<Rightarrow> bool" where
  "withdraw_cells r v \<longleftrightarrow> int_cell r ''emit_rune_e8'' = wd_emit_rune_e8 v \<and>
     int_cell r ''_emit_asset_in_rune_e8'' = wd_emit_asset_in_rune_e8 v \<and> text_cell r ''pool'' = wd_pool v"

definition bond_cells :: "row \<Rightarrow> rewards \<Rightarrow> bool" where
  "bond_cells r v \<longleftrightarrow> int_cell r ''bond_e8'' = rw_bond_e8 v"

definition share_cells :: "row \<Rightarrow> string \<times> i64 \<Rightarrow> bool" where
  "share_cells r v \<longleftrightarrow> text_cell r ''pool'' = fst v \<and> int_cell r ''rune_e8'' = snd v"

lemmas cells = event_row_def int_cell_def text_cell_def ts_of_def

interpretation swap_table: event_table "''swap_events''" swap_rows swaps_in swap_cells
  by unfold_locales (auto simp: INSERTS_def swap_rows_def swaps_in_def swap_cells_def cells split: recorded.split)

interpretation stake_table: event_table "''stake_events''" stake_rows stakes_in stake_cells
  by unfold_locales (auto simp: INSERTS_def stake_rows_def stakes_in_def stake_cells_def cells split: recorded.split)

interpretation withdraw_table: event_table "''withdraw_events''" withdraw_rows withdraws_in withdraw_cells
  by unfold_locales (auto simp: INSERTS_def withdraw_rows_def withdraws_in_def withdraw_cells_def cells split: recorded.split)

interpretation bond_table: event_table "''rewards_events''" rewards_rows rewards_in bond_cells
  by unfold_locales (auto simp: INSERTS_def rewards_rows_def rewards_in_def bond_cells_def cells split: recorded.split)

interpretation share_table: event_table "''rewards_event_entries''" rewards_entry_rows shares_in share_cells
  by unfold_locales (auto simp: INSERTS_def rewards_entry_rows_def shares_in_def share_cells_def cells list.rel_map
      intro!: list.rel_refl split: recorded.split)

section \<open>Swaps\<close>

definition chain_swaps :: "block list \<Rightarrow> string option \<Rightarrow> second \<Rightarrow> second \<Rightarrow> swap list" where
  "chain_swaps bs pool = chain_events swaps_in (concerns pool sw_pool) bs"

text \<open>The sums an answer is made of, over the decoded events themselves.\<close>

definition heading :: "direction list \<Rightarrow> (swap \<Rightarrow> int) \<Rightarrow> swap list \<Rightarrow> int" where
  "heading ds f vs = (\<Sum>v\<leftarrow>vs. if sw_direction v \<in> as_i16 ` set ds then f v else 0)"

definition swap_figures :: "swap list \<Rightarrow> swap_totals" where
  "swap_figures vs =
     (let to_asset = [RuneToAsset, RuneToTrade, RuneToSecure]; to_rune = [AssetToRune, TradeToRune, SecureToRune];
          mint = [RuneToSynth]; redeem = [SynthToRune]; one = (\<lambda>_. 1) in
     \<lparr>tt_to_asset_count = heading to_asset one vs, tt_to_rune_count = heading to_rune one vs,
      tt_synth_mint_count = heading mint one vs, tt_synth_redeem_count = heading redeem one vs,
      tt_to_asset_volume = heading to_asset sw_from_e8 vs, tt_to_rune_volume = heading to_rune sw_to_e8 vs,
      tt_synth_mint_volume = heading mint sw_from_e8 vs, tt_synth_redeem_volume = heading redeem sw_to_e8 vs,
      tt_to_asset_fees = heading to_asset sw_liq_fee_in_rune_e8 vs, tt_to_rune_fees = heading to_rune sw_liq_fee_in_rune_e8 vs,
      tt_synth_mint_fees = heading mint sw_liq_fee_in_rune_e8 vs, tt_synth_redeem_fees = heading redeem sw_liq_fee_in_rune_e8 vs,
      tt_to_asset_slip = heading to_asset sw_swap_slip_bp vs, tt_to_rune_slip = heading to_rune sw_swap_slip_bp vs,
      tt_synth_mint_slip = heading mint sw_swap_slip_bp vs, tt_synth_redeem_slip = heading redeem sw_swap_slip_bp vs\<rparr>)"

definition swaps_between :: "database \<Rightarrow> string option \<Rightarrow> second \<Rightarrow> second \<Rightarrow> row list" where
  "swaps_between db pool from_s until_s = filter (\<lambda>r. of_pool pool r \<and> in_span from_s until_s (ts_of r)) (db ''swap_events'')"

lemma directed_events:
  assumes "\<And>r v. swap_cells r v \<Longrightarrow> f r = g v"
  shows "directed (map as_i16 ds) f (swaps_between (projection bs) pool from_s until_s) =
    heading ds g (chain_swaps bs pool from_s until_s)"
  unfolding directed_def heading_def swaps_between_def chain_swaps_def
  by (rule swap_table.sum_events) (auto simp: swap_cells_def assms intro!: of_pool_concerns)

lemma swap_sums_figures:
  "swap_sums (swaps_between (projection bs) pool from_s until_s) = swap_figures (chain_swaps bs pool from_s until_s)"
proof -
  note d = directed_events [of _ _ "[RuneToAsset, RuneToTrade, RuneToSecure]", simplified]
    directed_events [of _ _ "[AssetToRune, TradeToRune, SecureToRune]", simplified]
    directed_events [of _ _ "[RuneToSynth]", simplified] directed_events [of _ _ "[SynthToRune]", simplified]
  show ?thesis
    unfolding swap_sums_def swap_figures_def Let_def by (auto simp: swap_cells_def intro!: d)
qed

section \<open>Deposits and withdrawals\<close>

definition chain_stakes :: "block list \<Rightarrow> string option \<Rightarrow> second \<Rightarrow> second \<Rightarrow> stake list" where
  "chain_stakes bs pool = chain_events stakes_in (concerns pool st_pool) bs"

definition chain_withdraws :: "block list \<Rightarrow> string option \<Rightarrow> second \<Rightarrow> second \<Rightarrow> withdraw list" where
  "chain_withdraws bs pool = chain_events withdraws_in (concerns pool wd_pool) bs"

definition liquidity_figures :: "stake list \<Rightarrow> withdraw list \<Rightarrow> liquidity_totals" where
  "liquidity_figures stakes withdraws =
     \<lparr>lt_add_count = (\<Sum>_\<leftarrow>stakes. 1), lt_add_rune = (\<Sum>v\<leftarrow>stakes. st_rune_e8 v),
      lt_add_asset = (\<Sum>v\<leftarrow>stakes. st_asset_in_rune_e8 v),
      lt_withdraw_count = (\<Sum>_\<leftarrow>withdraws. 1), lt_withdraw_rune = (\<Sum>v\<leftarrow>withdraws. wd_emit_rune_e8 v),
      lt_withdraw_asset = (\<Sum>v\<leftarrow>withdraws. wd_emit_asset_in_rune_e8 v)\<rparr>"

text \<open>Deposits less withdrawals.\<close>

definition net_flow :: "stake list \<Rightarrow> withdraw list \<Rightarrow> int" where
  "net_flow stakes withdraws = (\<Sum>v\<leftarrow>stakes. st_rune_e8 v + st_asset_in_rune_e8 v)
     - (\<Sum>v\<leftarrow>withdraws. wd_emit_rune_e8 v + wd_emit_asset_in_rune_e8 v)"

definition moves_between :: "database \<Rightarrow> string option \<Rightarrow> second \<Rightarrow> second \<Rightarrow> move list" where
  "moves_between db pool from_s until_s = filter (\<lambda>v. in_span from_s until_s (move_time v)) (pool_moves pool db)"

lemma moves_by_table: "moves_between db pool from_s until_s =
   map Added (filter (\<lambda>r. of_pool pool r \<and> in_span from_s until_s (ts_of r)) (db ''stake_events''))
     @ map Withdrawn (filter (\<lambda>r. of_pool pool r \<and> in_span from_s until_s (ts_of r)) (db ''withdraw_events''))"
  by (simp add: moves_between_def pool_moves_def filter_map comp_def move_time_def filter_filter)

lemma sums_by_table:
  "sum_of (on_add f) (map Added xs @ map Withdrawn ys) = sum_of f xs"
  "sum_of (on_withdraw f) (map Added xs @ map Withdrawn ys) = sum_of f ys"
  by (induction xs; induction ys; simp)+

lemma stake_sums:
  assumes "\<And>r v. stake_cells r v \<Longrightarrow> f r = g v"
  shows "sum_of (on_add f) (moves_between (projection bs) pool from_s until_s) = (\<Sum>v\<leftarrow>chain_stakes bs pool from_s until_s. g v)"
  unfolding moves_by_table sums_by_table chain_stakes_def
  by (rule stake_table.sum_events) (auto simp: stake_cells_def assms intro!: of_pool_concerns)

lemma withdraw_sums:
  assumes "\<And>r v. withdraw_cells r v \<Longrightarrow> f r = g v"
  shows "sum_of (on_withdraw f) (moves_between (projection bs) pool from_s until_s) = (\<Sum>v\<leftarrow>chain_withdraws bs pool from_s until_s. g v)"
  unfolding moves_by_table sums_by_table chain_withdraws_def
  by (rule withdraw_table.sum_events) (auto simp: withdraw_cells_def assms intro!: of_pool_concerns)

lemma liquidity_sums_figures:
  "liquidity_sums (moves_between (projection bs) pool from_s until_s) =
     liquidity_figures (chain_stakes bs pool from_s until_s) (chain_withdraws bs pool from_s until_s)"
  unfolding liquidity_sums_def liquidity_figures_def liquidity_totals.ext_inject
  by (intro conjI refl stake_sums withdraw_sums) (simp_all add: stake_cells_def withdraw_cells_def)

lemma net_figures: "net (liquidity_wrapped (liquidity_figures stakes withdraws)) = wrap64 (net_flow stakes withdraws)"
  by (simp add: net_def add_volume_def withdraw_volume_def liquidity_wrapped_def liquidity_add_def
      liquidity_zero_def liquidity_figures_def net_flow_def sum_list_addf)

section \<open>Earnings\<close>

definition chain_fees :: "block list \<Rightarrow> string \<Rightarrow> second \<Rightarrow> second \<Rightarrow> int" where
  "chain_fees bs pool from_s until_s =
     (\<Sum>v\<leftarrow>chain_events swaps_in (\<lambda>v. sw_pool v = pool) bs from_s until_s. sw_liq_fee_in_rune_e8 v)"

definition chain_shares :: "block list \<Rightarrow> string \<Rightarrow> second \<Rightarrow> second \<Rightarrow> int" where
  "chain_shares bs pool from_s until_s =
     (\<Sum>v\<leftarrow>chain_events shares_in (\<lambda>v. fst v = pool) bs from_s until_s. snd v)"

definition chain_bond :: "block list \<Rightarrow> second \<Rightarrow> second \<Rightarrow> int" where
  "chain_bond bs from_s until_s = (\<Sum>v\<leftarrow>chain_events rewards_in (\<lambda>_. True) bs from_s until_s. rw_bond_e8 v)"

lemma earnings_sums:
  "sum_of (\<lambda>r. int_cell r ''liq_fee_in_rune_e8'')
     (filter (\<lambda>r. text_cell r ''pool'' = p \<and> in_span from_s until_s (ts_of r)) (projection bs ''swap_events'')) =
   chain_fees bs p from_s until_s"
  "sum_of (\<lambda>r. int_cell r ''rune_e8'')
     (filter (\<lambda>r. text_cell r ''pool'' = p \<and> in_span from_s until_s (ts_of r)) (projection bs ''rewards_event_entries'')) =
   chain_shares bs p from_s until_s"
  "sum_of (\<lambda>r. int_cell r ''bond_e8'') (filter (\<lambda>r. in_span from_s until_s (ts_of r)) (projection bs ''rewards_events'')) =
   chain_bond bs from_s until_s"
  unfolding chain_fees_def chain_shares_def chain_bond_def
  by (rule swap_table.sum_events, simp_all add: swap_cells_def)
    (rule share_table.sum_events, simp_all add: share_cells_def,
     rule bond_table.sum_events [where P = "\<lambda>_. True", simplified], simp_all add: bond_cells_def)

text \<open>
  An entry of the earnings: fees, shares of the rewards and the bond's rewards over a span, each of
  the blocks stored when its table was read, and \<open>w\<close> what 64 bits do to the sums.
\<close>

definition earns :: "(int \<Rightarrow> int) \<Rightarrow> f64 \<Rightarrow> block list \<Rightarrow> block list \<Rightarrow> block list \<Rightarrow> second \<Rightarrow> second \<Rightarrow>
    earnings_history_item \<Rightarrow> bool" where
  "earns w usd fee_bs share_bs bond_bs from_s until_s item \<longleftrightarrow> (\<exists>fees rewards.
     amounts_ok fees \<and> amounts_ok rewards \<and>
     item = earnings_item usd from_s until_s fees rewards (w (chain_bond bond_bs from_s until_s)) \<and>
     (\<forall>p. amount_of fees p = w (chain_fees fee_bs p from_s until_s)) \<and>
     (\<forall>p. amount_of rewards p = w (chain_shares share_bs p from_s until_s)))"

lemma merged_ok: "(\<And>k. amounts_ok (F k)) \<Longrightarrow> amounts_ok m \<Longrightarrow> amounts_ok (fold (\<lambda>k. bump_all (F k)) ks m)"
  by (induction ks arbitrary: m) (simp_all add: bump_all_amounts)

lemma earns_totals:
  assumes "utc (as_date_trunc s)" "buckets_ok b"
    and f: "sums_by_bucket_and_pool s b (\<lambda>r. int_cell r ''liq_fee_in_rune_e8'') (projection fee_bs ''swap_events'') = Inr f"
    and r: "sums_by_bucket_and_pool s b (\<lambda>r. int_cell r ''rune_e8'') (projection share_bs ''rewards_event_entries'') = Inr r"
    and bond: "grouped ts_of (sum_of (\<lambda>r. int_cell r ''bond_e8'')) i64_ok (as_date_trunc s) b (projection bond_bs ''rewards_events'') = Inr bond"
  defines "keys \<equiv> map (\<lambda>i. wi_from (bucket b i)) [0..<bu_count b]"
  shows "earns wrap64 usd fee_bs share_bs bond_bs (bu_start b) (bu_end b)
      (earnings_item usd (bu_start b) (bu_end b) (fold (\<lambda>k. bump_all (collect f k)) keys [])
        (fold (\<lambda>k. bump_all (collect r k)) keys []) (foldl (\<lambda>a v. wrap64 (a + v)) 0 (map (totals_at 0 bond b) [0..<bu_count b])))"
    and "i < bu_count b \<Longrightarrow> earns (\<lambda>x. x) usd fee_bs share_bs bond_bs (wi_from (bucket b i)) (wi_until (bucket b i))
      (earnings_item usd (wi_from (bucket b i)) (wi_until (bucket b i)) (collect f (wi_from (bucket b i)))
        (collect r (wi_from (bucket b i))) (totals_at 0 bond b i))"
proof -
  have "bu_timestamps b \<noteq> []" using assms(2) by (cases "bu_interval b") (auto simp: buckets_ok_def)
  then have stop: "bu_timestamps b ! bu_count b = bu_end b" by (simp add: bu_count_def bu_end_def last_conv_nth)
  have nil: "amounts_ok []" by (simp add: amounts_ok_def)
  note merged = merged_window [OF assms(1,2) f] merged_window [OF assms(1,2) r]
  note ok = collect_ok(1) [OF f] collect_ok(1) [OF r] merged_ok [of "collect f", OF collect_ok(1) [OF f] nil]
    merged_ok [of "collect r", OF collect_ok(1) [OF r] nil]
  show "earns wrap64 usd fee_bs share_bs bond_bs (bu_start b) (bu_end b)
      (earnings_item usd (bu_start b) (bu_end b) (fold (\<lambda>k. bump_all (collect f k)) keys [])
        (fold (\<lambda>k. bump_all (collect r k)) keys []) (foldl (\<lambda>a v. wrap64 (a + v)) 0 (map (totals_at 0 bond b) [0..<bu_count b])))"
    using sums.totals_upto [OF assms(1,2) bond order_refl] merged ok
    unfolding earns_def keys_def stop earnings_sums by (intro exI conjI allI) simp_all
  show "earns (\<lambda>x. x) usd fee_bs share_bs bond_bs (wi_from (bucket b i)) (wi_until (bucket b i))
      (earnings_item usd (wi_from (bucket b i)) (wi_until (bucket b i)) (collect f (wi_from (bucket b i)))
        (collect r (wi_from (bucket b i))) (totals_at 0 bond b i))" if "i < bu_count b"
    using sums.totals_at_bucket(1) [OF assms(1,2) that bond] merged(2,4) [OF that] ok
    unfolding earns_def earnings_sums by (intro exI conjI allI) simp_all
qed

end
