(* ===== verification/Service.thy ===== *)
theory Service
  imports Daemon Chain_Events Level_Reads
begin

text \<open>
  A request while the daemon runs. Its queries see the database between moves of the sync task, each
  no earlier than the one before (\<open>served\<close>), so what it reads are initial segments of the chain that
  grow; and the rows of a table are those of the events the blocks decode to, which takes an answer
  back to the chain.
\<close>

section \<open>What a request reads\<close>

text \<open>
  \<open>AppState\<close> shares the cursor and the height of the chain with the sync task; \<open>d n\<close> is the daemon
  when the request's query \<open>n\<close> runs.
\<close>

definition served :: "(i64 \<Rightarrow> block) \<Rightarrow> config \<Rightarrow> app_state \<Rightarrow> (nat \<Rightarrow> daemon) \<Rightarrow> reads \<Rightarrow> bool" where
  "served chain cfg s d reads \<longleftrightarrow> daemon_reach chain cfg (d 0) \<and> (\<forall>n. runs_to chain (d n) (d (Suc n))) \<and>
     as_config s = cfg \<and> as_cursor s = sy_cursor (snd (d 0)) \<and> as_chain_height s = sy_chain_height (snd (d 0)) \<and>
     (\<forall>n db. reads n = Inr db \<longrightarrow> db = sy_db (snd (d n)))"

abbreviation start_of :: "config \<Rightarrow> i64" where
  "start_of cfg \<equiv> max (initial_block_height (cf_genesis cfg)) 1"

abbreviation batch_of :: "config \<Rightarrow> nat" where
  "batch_of cfg \<equiv> max (commit_batch_size (cf_timescale cfg)) 1"

text \<open>What a run needs of its surroundings.\<close>

definition runnable :: "(i64 \<Rightarrow> block) \<Rightarrow> config \<Rightarrow> bool" where
  "runnable chain cfg \<longleftrightarrow> good_chain chain \<and> 0 < fetch_batch_size (cf_thorchain cfg) \<and>
     i64_ok (initial_block_height (cf_genesis cfg))"

lemma served_reach: "served chain cfg s d reads \<Longrightarrow> daemon_reach chain cfg (d n)"
  by (induction n) (auto simp: served_def intro: reach_runs)

lemma reach_seen:
  assumes "runnable chain cfg" "daemon_reach chain cfg d"
  shows "seen chain (start_of cfg) (batch_of cfg) (snd d)"
proof -
  have "i64_ok (start_of cfg)" using assms(1) by (simp add: runnable_def i64_ok_def)
  with assms daemon_consistent [of chain cfg "start_of cfg" d] show ?thesis
    by (intro consistent_seen) (auto simp: runnable_def)
qed

definition stored_height :: "config \<Rightarrow> daemon \<Rightarrow> i64" where
  "stored_height cfg d = start_of cfg + int (log_length (sy_db (snd d)))"

lemma reach_stored:
  assumes "runnable chain cfg" "daemon_reach chain cfg d"
  shows "sy_db (snd d) = projection (segment chain (start_of cfg) (stored_height cfg d))"
    and "\<exists>k. sy_cursor (snd d) = cursor_at chain (start_of cfg) k \<and> start_of cfg \<le> k \<and> i64_ok k \<and>
      stored_height cfg d \<le> k + 1 \<and> k < stored_height cfg d + int (batch_of cfg)"
proof -
  obtain j k where v: "visible chain (start_of cfg) (batch_of cfg) (snd d) j k"
    using reach_seen [OF assms] by (auto simp: seen_def)
  from visible_log [OF v] have "stored_height cfg d = j" by (simp add: stored_height_def)
  with v show "sy_db (snd d) = projection (segment chain (start_of cfg) (stored_height cfg d))"
    and "\<exists>k. sy_cursor (snd d) = cursor_at chain (start_of cfg) k \<and> start_of cfg \<le> k \<and> i64_ok k \<and>
      stored_height cfg d \<le> k + 1 \<and> k < stored_height cfg d + int (batch_of cfg)"
    unfolding visible_def stored_to_def by blast+
qed

lemma served_grows:
  assumes "served chain cfg s d reads"
  shows "mono (\<lambda>n. stored_height cfg (d n))"
proof -
  have "stored_height cfg (d n) \<le> stored_height cfg (d (Suc n))" for n
    using runs_grow [of chain "d n" "d (Suc n)"] assms by (simp add: served_def stored_height_def)
  then show ?thesis by (simp add: mono_iff_le_Suc)
qed

lemma served_read:
  assumes "runnable chain cfg" "served chain cfg s d reads" "reads n = Inr db"
  shows "db = projection (segment chain (start_of cfg) (stored_height cfg (d n)))"
  using assms reach_stored(1) [OF assms(1) served_reach [OF assms(2)]] by (simp add: served_def)

section \<open>Settled times\<close>

text \<open>
  Once the chain stored has passed a time, what happened up to that time is settled: blocks committed
  later do not change it.
\<close>

definition settled_by :: "(i64 \<Rightarrow> block) \<Rightarrow> config \<Rightarrow> daemon \<Rightarrow> second \<Rightarrow> bool" where
  "settled_by chain cfg d t \<longleftrightarrow>
     start_of cfg < stored_height cfg d \<and> to_nano t \<le> b_timestamp (chain (stored_height cfg d - 1))"

text \<open>The height up to which a query of \<open>d'\<close> sees what concerns \<open>t\<close>, in a request that came at \<open>d\<close>.\<close>

definition horizon :: "(i64 \<Rightarrow> block) \<Rightarrow> config \<Rightarrow> daemon \<Rightarrow> daemon \<Rightarrow> second \<Rightarrow> i64" where
  "horizon chain cfg d d' t = stored_height cfg (if settled_by chain cfg d t then d else d')"

lemma horizon_settled: "settled_by chain cfg d t \<Longrightarrow> horizon chain cfg d d' t = stored_height cfg d"
  by (simp add: horizon_def)

lemma horizon_mono: "stored_height cfg d' \<le> stored_height cfg d'' \<Longrightarrow> horizon chain cfg d d' t \<le> horizon chain cfg d d'' t"
  by (simp add: horizon_def)

lemma horizon_first: "stored_height cfg d \<le> stored_height cfg d' \<Longrightarrow> stored_height cfg d \<le> horizon chain cfg d d' t"
  by (simp add: horizon_def)

lemma settled_segment:
  assumes "good_chain chain" "settled_by chain cfg d t" "stored_height cfg d \<le> j"
  obtains bs' where "segment chain (start_of cfg) j = segment chain (start_of cfg) (stored_height cfg d) @ bs'"
    "segment chain (start_of cfg) (stored_height cfg d) \<noteq> []"
    "to_nano t \<le> b_timestamp (last (segment chain (start_of cfg) (stored_height cfg d)))"
    "\<forall>b\<in>set bs'. to_nano t < b_timestamp b"
proof -
  let ?f = "start_of cfg" and ?h = "stored_height cfg d"
  have lt: "?f < ?h" and t: "to_nano t \<le> b_timestamp (chain (?h - 1))" using assms(2) by (auto simp: settled_by_def)
  have "[?f..j - 1] = [?f..?h - 1] @ [?h..j - 1]" using upto_split2 [of ?f "?h - 1" "j - 1"] lt assms(3) by simp
  then have eq: "segment chain ?f j = segment chain ?f ?h @ map chain [?h..j - 1]" by (simp add: segment_def)
  have last: "last (segment chain ?f ?h) = chain (?h - 1)" "segment chain ?f ?h \<noteq> []"
    using lt upto_rec2 [of ?f "?h - 1"] by (simp_all add: segment_def)
  have "b_timestamp (chain (?h - 1)) < b_timestamp b" if "b \<in> set (map chain [?h..j - 1])" for b
    using chain_ok_segment [OF assms(1), of ?f j, unfolded eq] that last_in_set [OF last(2)] last(1)
    by (auto simp: chain_ok_def sorted_wrt_append)
  with t have "\<forall>b\<in>set (map chain [?h..j - 1]). to_nano t < b_timestamp b" by force
  with that [OF eq last(2)] t last(1) show thesis by simp
qed

lemma horizon_ledger:
  assumes "good_chain chain" "stored_height cfg d \<le> stored_height cfg d'"
  shows "ledger_at (segment chain (start_of cfg) (stored_height cfg d')) (to_nano t) pool =
    ledger_at (segment chain (start_of cfg) (horizon chain cfg d d' t)) (to_nano t) pool"
proof (cases "settled_by chain cfg d t")
  case True
  from settled_segment [OF assms(1) True assms(2)] obtain bs' where bs': "segment chain (start_of cfg) (stored_height cfg d') =
      segment chain (start_of cfg) (stored_height cfg d) @ bs'" "segment chain (start_of cfg) (stored_height cfg d) \<noteq> []"
    "to_nano t \<le> b_timestamp (last (segment chain (start_of cfg) (stored_height cfg d)))" by metis
  have "chain_ok (segment chain (start_of cfg) (stored_height cfg d) @ bs')"
    using chain_ok_segment [OF assms(1)] bs'(1) by metis
  then show ?thesis unfolding horizon_settled [OF True] bs'(1) using bs'(2,3) by (intro ledger_settled) simp_all
qed (simp add: horizon_def)

lemma horizon_events:
  assumes "good_chain chain" "stored_height cfg d \<le> stored_height cfg d'"
    and "\<And>ts. in_span from_s until_s ts \<Longrightarrow> ts < to_nano t"
  shows "chain_events pick Q (segment chain (start_of cfg) (stored_height cfg d')) from_s until_s =
    chain_events pick Q (segment chain (start_of cfg) (horizon chain cfg d d' t)) from_s until_s"
proof (cases "settled_by chain cfg d t")
  case True
  then obtain bs' where bs': "segment chain (start_of cfg) (stored_height cfg d') =
      segment chain (start_of cfg) (stored_height cfg d) @ bs'" "\<forall>b\<in>set bs'. to_nano t < b_timestamp b"
    using settled_segment [OF assms(1) True assms(2)] by metis
  have "\<not> in_span from_s until_s (b_timestamp b)" if "b \<in> set bs'" for b
    using bs'(2) that assms(3) [of "b_timestamp b"] by force
  then have "filter (\<lambda>(ts, v). Q v \<and> in_span from_s until_s ts) (timed pick bs') = []"
    by (auto simp: timed_def filter_empty_conv)
  then show ?thesis by (simp add: horizon_settled [OF True] bs'(1) chain_events_def timed_def)
qed (simp add: horizon_def)

text \<open>An entry of the earnings within a span that ends by \<open>t\<close> is that of the horizons of its queries.\<close>

lemma horizon_earns:
  assumes "good_chain chain" "\<And>ts. in_span from_s until_s ts \<Longrightarrow> ts < to_nano t"
    and "stored_height cfg d \<le> stored_height cfg d1" "stored_height cfg d \<le> stored_height cfg d2" "stored_height cfg d \<le> stored_height cfg d3"
    and "earns w usd (segment chain (start_of cfg) (stored_height cfg d1)) (segment chain (start_of cfg) (stored_height cfg d2))
      (segment chain (start_of cfg) (stored_height cfg d3)) from_s until_s item"
  shows "earns w usd (segment chain (start_of cfg) (horizon chain cfg d d1 t)) (segment chain (start_of cfg) (horizon chain cfg d d2 t))
      (segment chain (start_of cfg) (horizon chain cfg d d3 t)) from_s until_s item"
proof -
  note events = horizon_events [where t = t and d = d and from_s = from_s and until_s = until_s, OF assms(1) _ assms(2)]
  show ?thesis
    using assms(6)
    by (simp only: earns_def chain_fees_def chain_shares_def chain_bond_def
        events [OF assms(3)] events [OF assms(4)] events [OF assms(5)])
qed

section \<open>What the queries of the histories read\<close>

lemma served_snapshot:
  assumes "runnable chain cfg" "served chain cfg s d reads" "fst (snapshot_at pool at (\<lambda>k. reads (n + k))) = Inr sn"
  shows "\<exists>mem. sn = snapshot_of (ledger_at (segment chain (start_of cfg) (stored_height cfg (d n))) (to_nano at) pool) mem"
proof -
  obtain db mem where "reads (n + 0) = Inr db"
    and sn: "sn = snapshot_of (case depth_row_at pool (to_nano at) db of Some r \<Rightarrow> depth_of_row r | None \<Rightarrow> default_depth) mem"
    by (rule snapshot_read [OF assms(3)])
  with served_read [OF assms(1,2)] have db: "db = projection (segment chain (start_of cfg) (stored_height cfg (d n)))" by simp
  have "chain_ok (segment chain (start_of cfg) (stored_height cfg (d n)))"
    using assms(1) chain_ok_segment by (simp add: runnable_def)
  from depth_row_ledger [OF this] show ?thesis by (auto simp: sn db)
qed

text \<open>The query of the swap history is the first the request runs.\<close>

lemma swap_history_read:
  assumes "with_params raw swap_params Inr = Inr (bp, pool)" "generate bp (as_cursor s) = Inr b"
    and "fst (swap_history s raw reads) = Inr h"
  obtains db g usd where "reads 0 = Inr db"
    "grouped ts_of swap_sums swap_fits (as_date_trunc s) b (filter (of_pool pool) (db ''swap_events'')) = Inr g"
    "h = history_of (swap_item usd) swap_zero swap_add b g"
  using assms
  by (cases "reads 0")
    (auto simp: swap_history_def with_query_def swap_query_totals_def ask_then_Inr returns_def ask_def)

lemma liquidity_history_read:
  assumes "with_params raw liquidity_params Inr = Inr (bp, pool)" "generate bp (as_cursor s) = Inr b"
    and "fst (liquidity_history s raw reads) = Inr h"
  obtains db g usd where "reads 0 = Inr db"
    "grouped move_time liquidity_sums liquidity_fits (as_date_trunc s) b (pool_moves pool db) = Inr g"
    "h = history_of (liquidity_item usd) liquidity_zero liquidity_add b g"
  using assms
  by (cases "reads 0")
    (auto simp: liquidity_history_def with_query_def liquidity_query_totals_def ask_then_Inr returns_def ask_def)

text \<open>The earnings are read from three tables, one after the other, after the price.\<close>

definition earnings_answer :: "buckets \<Rightarrow> f64 \<Rightarrow> (second \<Rightarrow> amounts) \<Rightarrow> (second \<Rightarrow> amounts) \<Rightarrow> (second \<times> i64) list \<Rightarrow>
    earnings_history_item history" where
  "earnings_answer b usd fees rewards bond =
     (let keys = map (\<lambda>i. wi_from (bucket b i)) [0..<bu_count b] in
     \<lparr>hi_intervals = map (\<lambda>i. earnings_item usd (wi_from (bucket b i)) (wi_until (bucket b i))
         (fees (wi_from (bucket b i))) (rewards (wi_from (bucket b i))) (totals_at 0 bond b i)) [0..<bu_count b],
      hi_meta = earnings_item usd (bu_start b) (bu_end b) (fold (\<lambda>k. bump_all (fees k)) keys [])
        (fold (\<lambda>k. bump_all (rewards k)) keys []) (foldl (\<lambda>a v. wrap64 (a + v)) 0 (map (totals_at 0 bond b) [0..<bu_count b]))\<rparr>)"

lemma earnings_history_answer: "earnings_history s raw = with_query raw take_buckets (\<lambda>bp.
   ask_then (returns (generate bp (as_cursor s))) (\<lambda>b. ask_then (rune_price_now s (bu_end b)) (\<lambda>usd.
   ask_then (fees_by_bucket_and_pool s b) (\<lambda>fees. ask_then (rewards_by_bucket_and_pool s b) (\<lambda>rewards.
   ask_then (bond_rewards_by_bucket s b) (\<lambda>bond. returns (Inr (earnings_answer b usd fees rewards bond))))))))"
  by (simp add: earnings_history_def earnings_answer_def Let_def)

lemma earnings_history_read:
  assumes "with_params raw take_buckets Inr = Inr bp" "generate bp (as_cursor s) = Inr b"
    and "fst (earnings_history s raw reads) = Inr h"
  obtains n fee_db share_db bond_db f r bond usd where
    "reads n = Inr fee_db" "reads (n + 1) = Inr share_db" "reads (n + 2) = Inr bond_db"
    "sums_by_bucket_and_pool s b (\<lambda>r. int_cell r ''liq_fee_in_rune_e8'') (fee_db ''swap_events'') = Inr f"
    "sums_by_bucket_and_pool s b (\<lambda>r. int_cell r ''rune_e8'') (share_db ''rewards_event_entries'') = Inr r"
    "grouped ts_of (sum_of (\<lambda>r. int_cell r ''bond_e8'')) i64_ok (as_date_trunc s) b (bond_db ''rewards_events'') = Inr bond"
    "h = earnings_answer b usd (collect f) (collect r) bond"
  using assms by (auto simp: earnings_history_answer with_query_def fees_by_bucket_and_pool_def
      rewards_by_bucket_and_pool_def bond_rewards_by_bucket_def ask_then_Inr returns_def ask_def map_ok_eq_Inr bindE_eq_Inr)

end
