(* ===== verification/Service_Properties.thy ===== *)
theory Service_Properties
  imports Service History_Properties
begin

text \<open>
  The properties of the daemon as a whole: the sync task and the API over one database.
\<close>

section \<open>A daemon and a request to try them on\<close>

text \<open>A daemon that finds three blocks, and a request to it when it has stored two of them.\<close>

definition sample_config :: config where
  "sample_config = default_config\<lparr>usd_pools := []\<rparr>"

definition sample_boot :: daemon where
  "sample_boot = (Polling, startup sample_config empty_db)"

definition sample_moves :: "nat list" where
  "sample_moves = [0, 0, 1, 0, 2, 3, 0, 4, 5, 0, 0]"

definition sample_daemon :: daemon where
  "sample_daemon = moves (sample_env 3) (take 7 sample_moves) sample_boot"

lemma sample_daemon_fields:
  "(log_length (sy_db (snd sample_daemon)), sy_cursor (snd sample_daemon)) =
   (2, \<lparr>cu_first = \<lparr>bp_height = 1, bp_timestamp = 1000000000\<rparr>, cu_last = \<lparr>bp_height = 2, bp_timestamp = 2000000000\<rparr>\<rparr>)"
  by code_simp

lemma sample_daemon_cursor: "sy_cursor (snd sample_daemon) =
   \<lparr>cu_first = \<lparr>bp_height = 1, bp_timestamp = 1000000000\<rparr>, cu_last = \<lparr>bp_height = 2, bp_timestamp = 2000000000\<rparr>\<rparr>"
  using sample_daemon_fields by simp

lemma sample_config_ok:
  "0 < fetch_batch_size (cf_thorchain sample_config)" "initial_block_height (cf_genesis sample_config) = 0"
  by (simp_all add: sample_config_def default_config_ok)

lemma sample_runnable: "runnable sample_block sample_config"
  by (simp add: runnable_def sample_good sample_config_ok i64_ok_def)

lemma sample_honest3: "honest sample_block (sample_env 3)"
  by (rule sample_honest) (simp add: i64_ok_def)

lemma sample_run: "runs_to sample_block sample_boot (moves (sample_env 3) is sample_boot)"
  by (induction "is" rule: rev_induct) (auto intro: runs_to.intros sample_honest3)

lemma sample_run_on:
  "runs_to sample_block (moves (sample_env 3) (take n is) sample_boot) (moves (sample_env 3) (take (Suc n) is) sample_boot)"
  by (cases "n < length is") (auto simp: take_Suc_conv_app_nth intro: runs_to.intros sample_honest3)

lemma sample_boots: "daemon_reach sample_block sample_config sample_boot"
  unfolding sample_boot_def by (rule daemon_reach.boots)

definition sample_app :: "daemon \<Rightarrow> app_state" where
  "sample_app d = sample_state\<lparr>as_config := sample_config, as_cursor := sy_cursor (snd d),
     as_chain_height := sy_chain_height (snd d)\<rparr>"

text \<open>A request each of whose queries comes one move later.\<close>

lemma sample_served:
  "served sample_block sample_config (sample_app sample_boot) (\<lambda>n. moves (sample_env 3) (take n is) sample_boot)
     (\<lambda>n. Inr (sy_db (snd (moves (sample_env 3) (take n is) sample_boot))))"
  by (simp add: served_def sample_boots sample_run_on sample_app_def)

text \<open>A request all of whose queries come at that moment.\<close>

lemma sample_daemon_reached: "daemon_reach sample_block sample_config sample_daemon"
  unfolding sample_daemon_def by (rule reach_runs [OF sample_run sample_boots])

lemma sample_served_late:
  "served sample_block sample_config (sample_app sample_daemon) (\<lambda>_. sample_daemon) (\<lambda>_. Inr (sy_db (snd sample_daemon)))"
  by (simp add: served_def sample_daemon_reached sample_app_def runs_to.stays)

lemma sample_stored:
  "start_of sample_config = 1" "stored_height sample_config sample_daemon = 3"
  "sy_db (snd sample_daemon) = projection (map sample_block [1..2])"
proof -
  have "log_length (sy_db (snd sample_daemon)) = 2" using sample_daemon_fields by simp
  then show st: "start_of sample_config = 1" "stored_height sample_config sample_daemon = 3"
    by (simp_all add: sample_config_ok stored_height_def)
  with reach_stored(1) [OF sample_runnable sample_daemon_reached] show "sy_db (snd sample_daemon) = projection (map sample_block [1..2])"
    by (simp add: segment_def sample_config_ok)
qed

section \<open>The sync task and the requests\<close>





section \<open>From the chain to an answer\<close>

text \<open>C3: the swap history is that of the chain. A request for it, served while the daemon runs, is answered
  for every bucket with the counts, volumes, fees and slips, by direction, of the swaps that the events of
  the stored blocks decode to and whose block's time lies in the bucket, and in \<open>meta\<close> with those of the
  whole window at 64 bits: through decoding, writing, grouping by the truncation of the database, and
  looking the groups up by the bucket starts the program computes, none is lost and none counted twice.\<close>

theorem served_swaps_are_the_chains:
  assumes "runnable chain cfg" "served chain cfg s d reads" "utc (as_date_trunc s)" "cursor_sane (as_cursor s)"
    and "with_params raw swap_params Inr = Inr (bp, pool)" "params_sane bp" "generate bp (as_cursor s) = Inr b"
    and "\<forall>t\<in>set (bu_timestamps b). 0 \<le> t \<and> t \<le> 9223372036"
    and "fst (swap_history s raw reads) = Inr h"
  shows "\<exists>usd. let bs = map chain [start_of cfg..stored_height cfg (d 0) - 1] in h =
    \<lparr>hi_intervals = map (\<lambda>i. let w = bucket b i in swap_item usd (wi_from w) (wi_until w)
        (swap_figures (chain_swaps bs pool (wi_from w) (wi_until w)))) [0..<bu_count b],
     hi_meta = swap_item usd (bu_start b) (bu_end b)
        (swap_wrapped (swap_figures (chain_swaps bs pool (bu_start b) (bu_end b))))\<rparr>"
proof -
  have ok: "buckets_ok b" using assms(4,6-8) by (intro generate_ok) auto
  obtain db g usd where g: "reads 0 = Inr db"
      "grouped ts_of swap_sums swap_fits (as_date_trunc s) b (filter (of_pool pool) (db ''swap_events'')) = Inr g"
    and h: "h = history_of (swap_item usd) swap_zero swap_add b g"
    by (rule swap_history_read [OF assms(5,7,9)])
  have rows: "filter (\<lambda>r. in_span f u (ts_of r)) (filter (of_pool pool) (db' ''swap_events'')) = swaps_between db' pool f u" for db' f u
    by (simp add: swaps_between_def filter_filter conj_commute)
  show ?thesis
    using swaps.history_exact [OF assms(3) ok g(2), of "swap_item usd"]
    unfolding rows served_read [OF assms(1,2) g(1)] swap_sums_figures segment_def h Let_def by blast
qed

lemma sample_app_ok:
  "utc (as_date_trunc (sample_app d))" "cursor_sane (as_cursor (sample_app sample_daemon))"
  "generate \<lparr>bp_from = Some 1, bp_to = Some 6, bp_count = None, bp_interval = None\<rparr> (as_cursor (sample_app d)) = Inr (one_bucket 1 6)"
  by (simp_all add: sample_app_def sample_state_def utc_utc_trunc sample_daemon_cursor cursor_sane_def i64_ok_def
      generate_def Let_def)

theorem served_swaps_are_the_chains_witness:
  "\<exists>h. fst (swap_history (sample_app sample_daemon) sample_span (\<lambda>_. Inr (sy_db (snd sample_daemon)))) = Inr h \<and>
    si_synth_mint_volume (hi_meta h) = ''2000''"
proof -
  let ?db = "sy_db (snd sample_daemon)"
  have "\<not> isl (grouped ts_of swap_sums swap_fits utc_trunc (one_bucket 1 6)
      (filter (of_pool None) (?db ''swap_events'')))" unfolding sample_stored by code_simp
  then obtain g where "grouped ts_of swap_sums swap_fits utc_trunc (one_bucket 1 6)
      (filter (of_pool None) (?db ''swap_events'')) = Inr g" by (auto simp: isl_def) (metis sum.exhaust)
  then have "\<exists>h. answer (swap_history (sample_app sample_daemon) sample_span) ?db = Inr h"
    using sample_span_params(1) sample_app_ok(3) [of sample_daemon]
    by (simp add: swap_history_def with_query_def swap_query_totals_def rune_price_now_def rune_price_at_def
        sample_app_def sample_state_def sample_config_def)
  then obtain h where h: "fst (swap_history (sample_app sample_daemon) sample_span (\<lambda>_. Inr ?db)) = Inr h"
    by (auto simp: answer_def)
  have "tt_synth_mint_volume (swap_wrapped (swap_figures (chain_swaps (map sample_block [1..2]) None 1 6))) = 2000"
    by code_simp
  with served_swaps_are_the_chains [OF sample_runnable sample_served_late sample_app_ok(1,2) sample_span_params(1)
      sample_state_ok(3) sample_app_ok(3) sample_state_ok(4) h]
  have "si_synth_mint_volume (hi_meta h) = int_str 2000"
    by (auto simp: sample_stored one_bucket_def bu_start_def bu_end_def swap_item_def Let_def)
  moreover have "int_str 2000 = ''2000''" by code_simp
  ultimately show ?thesis using h by auto
qed


definition sample_past :: "(string \<times> string) list" where
  "sample_past = [(''from'', ''1''), (''to'', ''2'')]"

lemma sample_past_params:
  "with_params sample_past level_params Inr = Inr \<lparr>bp_from = Some 1, bp_to = Some 2, bp_count = None, bp_interval = None\<rparr>"
  "with_params sample_past take_buckets Inr = Inr \<lparr>bp_from = Some 1, bp_to = Some 2, bp_count = None, bp_interval = None\<rparr>"
  "generate \<lparr>bp_from = Some 1, bp_to = Some 2, bp_count = None, bp_interval = None\<rparr> c = Inr (one_bucket 1 2)"
  "params_sane \<lparr>bp_from = Some 1, bp_to = Some 2, bp_count = None, bp_interval = None\<rparr>"
  "\<forall>t\<in>set (bu_timestamps (one_bucket 1 2)). 0 \<le> t \<and> t \<le> 9223372036"
  by (code_simp, code_simp) (simp_all add: generate_def Let_def params_sane_def i64_ok_def one_bucket_def)

lemma sample_settled: "settled_by sample_block sample_config sample_daemon 2"
  by (simp add: settled_by_def sample_stored sample_block_def to_nano_def NANOS_PER_SECOND_def i64_ok_def del: sample_stored(3))


text \<open>C5: the liquidity history is that of the chain: every bucket has the deposits and withdrawals the
  events of the stored blocks of that time decode to, counted, and valued as they were when recorded;
  \<open>meta\<close> has those of the whole window, and its net flow is what went in less what came out, at 64 bits,
  whatever wraps on the way.\<close>

theorem served_liquidity_is_the_chains:
  assumes "runnable chain cfg" "served chain cfg s d reads" "utc (as_date_trunc s)" "cursor_sane (as_cursor s)"
    and "with_params raw liquidity_params Inr = Inr (bp, pool)" "params_sane bp" "generate bp (as_cursor s) = Inr b"
    and "\<forall>t\<in>set (bu_timestamps b). 0 \<le> t \<and> t \<le> 9223372036"
    and "fst (liquidity_history s raw reads) = Inr h"
  shows "\<exists>usd. let bs = map chain [start_of cfg..stored_height cfg (d 0) - 1] in h =
    \<lparr>hi_intervals = map (\<lambda>i. let w = bucket b i in liquidity_item usd (wi_from w) (wi_until w)
        (liquidity_figures (chain_stakes bs pool (wi_from w) (wi_until w)) (chain_withdraws bs pool (wi_from w) (wi_until w))))
        [0..<bu_count b],
     hi_meta = liquidity_item usd (bu_start b) (bu_end b) (liquidity_wrapped
        (liquidity_figures (chain_stakes bs pool (bu_start b) (bu_end b)) (chain_withdraws bs pool (bu_start b) (bu_end b))))\<rparr> \<and>
    li_net (hi_meta h) = int_str (wrap64
      (net_flow (chain_stakes bs pool (bu_start b) (bu_end b)) (chain_withdraws bs pool (bu_start b) (bu_end b))))"
proof -
  have ok: "buckets_ok b" using assms(4,6-8) by (intro generate_ok) auto
  obtain db g usd where g: "reads 0 = Inr db"
      "grouped move_time liquidity_sums liquidity_fits (as_date_trunc s) b (pool_moves pool db) = Inr g"
    and h: "h = history_of (liquidity_item usd) liquidity_zero liquidity_add b g"
    by (rule liquidity_history_read [OF assms(5,7,9)])
  have "li_net (liquidity_item usd f u t) = int_str (net t)" for f u t by (simp add: liquidity_item_def)
  with liquidity.history_exact [OF assms(3) ok g(2), of "liquidity_item usd"] show ?thesis
    unfolding moves_between_def [symmetric] served_read [OF assms(1,2) g(1)] liquidity_sums_figures segment_def h Let_def
    by (intro exI [of _ usd]) (simp add: net_figures)
qed

theorem served_liquidity_is_the_chains_witness:
  "\<exists>h. fst (liquidity_history (sample_app sample_daemon) sample_span (\<lambda>_. Inr (sy_db (snd sample_daemon)))) = Inr h \<and>
    li_net (hi_meta h) = ''10''"
proof -
  let ?db = "sy_db (snd sample_daemon)" and ?bs = "map sample_block [1..2]"
  have "\<not> isl (grouped move_time liquidity_sums liquidity_fits utc_trunc (one_bucket 1 6) (pool_moves None ?db))"
    unfolding sample_stored by code_simp
  then obtain g where "grouped move_time liquidity_sums liquidity_fits utc_trunc (one_bucket 1 6) (pool_moves None ?db) = Inr g"
    by (auto simp: isl_def) (metis sum.exhaust)
  then have "\<exists>h. answer (liquidity_history (sample_app sample_daemon) sample_span) ?db = Inr h"
    using sample_span_params(2) sample_app_ok(3) [of sample_daemon]
    by (simp add: liquidity_history_def with_query_def liquidity_query_totals_def rune_price_now_def rune_price_at_def
        sample_app_def sample_state_def sample_config_def)
  then obtain h where h: "fst (liquidity_history (sample_app sample_daemon) sample_span (\<lambda>_. Inr ?db)) = Inr h"
    by (auto simp: answer_def)
  have "wrap64 (net_flow (chain_stakes ?bs None 1 6) (chain_withdraws ?bs None 1 6)) = 10" by code_simp
  with served_liquidity_is_the_chains [OF sample_runnable sample_served_late sample_app_ok(1,2) sample_span_params(2)
      sample_state_ok(3) sample_app_ok(3) sample_state_ok(4) h]
  have "li_net (hi_meta h) = int_str 10" by (auto simp: sample_stored one_bucket_def bu_start_def bu_end_def Let_def)
  moreover have "int_str 10 = ''10''" by code_simp
  ultimately show ?thesis using h by auto
qed

text \<open>C6: the earnings history is that of the chain. In every bucket, and over the window in \<open>meta\<close>, a pool
  has the fees of the swaps and its share of the rewards that the events of the stored blocks of that time
  decode to, and the bond its own; no fee or share is counted twice or left out, and a negative share
  stays. The three tables are read one after the other: each answer is that of the blocks stored at its
  read, and all are of the same blocks when the chain stored as the request came had passed the window.\<close>

theorem served_earnings_are_the_chains:
  assumes "runnable chain cfg" "served chain cfg s d reads" "utc (as_date_trunc s)" "cursor_sane (as_cursor s)"
    and "with_params raw take_buckets Inr = Inr bp" "params_sane bp" "generate bp (as_cursor s) = Inr b"
    and "\<forall>t\<in>set (bu_timestamps b). 0 \<le> t \<and> t \<le> 9223372036"
    and "fst (earnings_history s raw reads) = Inr h"
  shows "\<exists>usd jf jr jb. let known = stored_height cfg (d 0); upto_h = (\<lambda>j. map chain [start_of cfg..j - 1]) in
    known \<le> jf \<and> jf \<le> jr \<and> jr \<le> jb \<and> (settled_by chain cfg (d 0) (bu_end b) \<longrightarrow> jb = known) \<and>
    earns wrap64 usd (upto_h jf) (upto_h jr) (upto_h jb) (bu_start b) (bu_end b) (hi_meta h) \<and>
    length (hi_intervals h) = bu_count b \<and>
    (\<forall>i<bu_count b. earns (\<lambda>x. x) usd (upto_h jf) (upto_h jr) (upto_h jb)
      (wi_from (bucket b i)) (wi_until (bucket b i)) (hi_intervals h ! i))"
proof -
  have ok: "buckets_ok b" using assms(4,6-8) by (intro generate_ok) auto
  obtain n fee_db share_db bond_db f r bond usd where rd:
      "reads n = Inr fee_db" "reads (n + 1) = Inr share_db" "reads (n + 2) = Inr bond_db"
    and q: "sums_by_bucket_and_pool s b (\<lambda>r. int_cell r ''liq_fee_in_rune_e8'') (fee_db ''swap_events'') = Inr f"
      "sums_by_bucket_and_pool s b (\<lambda>r. int_cell r ''rune_e8'') (share_db ''rewards_event_entries'') = Inr r"
      "grouped ts_of (sum_of (\<lambda>r. int_cell r ''bond_e8'')) i64_ok (as_date_trunc s) b (bond_db ''rewards_events'') = Inr bond"
    and h: "h = earnings_answer b usd (collect f) (collect r) bond"
    by (rule earnings_history_read [OF assms(5,7,9)])
  define at where "at k = horizon chain cfg (d 0) (d k) (bu_end b)" for k
  have mono: "stored_height cfg (d k) \<le> stored_height cfg (d l)" if "k \<le> l" for k l
    by (rule monoD [OF served_grows [OF assms(2)] that])
  have chain: "good_chain chain" using assms(1) by (simp add: runnable_def)
  note e = earns_totals [OF assms(3) ok q [unfolded served_read [OF assms(1,2) rd(1)] served_read [OF assms(1,2) rd(2)]
      served_read [OF assms(1,2) rd(3)]], where usd = usd]
  have within: "ts < to_nano (bu_end b)" if "in_span (bu_start b) (bu_end b) ts" for ts
    using that by (simp add: in_span_def)
  note of_horizons = horizon_earns [where d = "d 0" and t = "bu_end b", OF chain _ mono mono mono, folded at_def]
  have "earns wrap64 usd (segment chain (start_of cfg) (at n)) (segment chain (start_of cfg) (at (n + 1)))
      (segment chain (start_of cfg) (at (n + 2))) (bu_start b) (bu_end b) (hi_meta h)"
    using of_horizons [OF within _ _ _ e(1)] by (simp add: h earnings_answer_def Let_def)
  moreover have "earns (\<lambda>x. x) usd (segment chain (start_of cfg) (at n)) (segment chain (start_of cfg) (at (n + 1)))
      (segment chain (start_of cfg) (at (n + 2))) (wi_from (bucket b i)) (wi_until (bucket b i)) (hi_intervals h ! i)"
    if "i < bu_count b" for i
    using of_horizons [OF within [OF bucket_in_window [OF ok that]] _ _ _ e(2) [OF that]] that
    by (simp add: h earnings_answer_def Let_def)
  moreover have "stored_height cfg (d 0) \<le> at n" "at n \<le> at (n + 1)" "at (n + 1) \<le> at (n + 2)"
    unfolding at_def by (simp_all add: horizon_first horizon_mono mono)
  ultimately show ?thesis
    unfolding Let_def segment_def
    by - (rule exI [of _ usd], rule exI [of _ "at n"], rule exI [of _ "at (n + 1)"], rule exI [of _ "at (n + 2)"],
      simp add: at_def horizon_settled h earnings_answer_def Let_def)
qed

theorem served_earnings_are_the_chains_witness:
  "\<exists>h usd fees rewards. fst (earnings_history (sample_app sample_daemon) sample_past (\<lambda>_. Inr (sy_db (snd sample_daemon)))) = Inr h \<and>
    hi_meta h = earnings_item usd 1 2 fees rewards 6 \<and> amount_of fees ''BTC.BTC'' = 2 \<and> amount_of rewards ''BTC.BTC'' = 4"
proof -
  let ?db = "sy_db (snd sample_daemon)" and ?bs = "map sample_block [1..2]" and ?s = "sample_app sample_daemon"
  have "\<not> isl (sums_by_bucket_and_pool sample_state (one_bucket 1 2) (\<lambda>r. int_cell r ''liq_fee_in_rune_e8'') (?db ''swap_events''))"
    "\<not> isl (sums_by_bucket_and_pool sample_state (one_bucket 1 2) (\<lambda>r. int_cell r ''rune_e8'') (?db ''rewards_event_entries''))"
    "\<not> isl (grouped ts_of (sum_of (\<lambda>r. int_cell r ''bond_e8'')) i64_ok (as_date_trunc sample_state) (one_bucket 1 2) (?db ''rewards_events''))"
    unfolding sample_stored by code_simp+
  moreover have "sums_by_bucket_and_pool ?s = sums_by_bucket_and_pool sample_state" "as_date_trunc ?s = as_date_trunc sample_state"
    by (intro ext) (simp_all add: sums_by_bucket_and_pool_def sample_app_def)
  ultimately obtain f r bond where
    "sums_by_bucket_and_pool ?s (one_bucket 1 2) (\<lambda>r. int_cell r ''liq_fee_in_rune_e8'') (?db ''swap_events'') = Inr f"
    "sums_by_bucket_and_pool ?s (one_bucket 1 2) (\<lambda>r. int_cell r ''rune_e8'') (?db ''rewards_event_entries'') = Inr r"
    "grouped ts_of (sum_of (\<lambda>r. int_cell r ''bond_e8'')) i64_ok (as_date_trunc ?s) (one_bucket 1 2) (?db ''rewards_events'') = Inr bond"
    by (auto simp: isl_def) (metis sum.exhaust)
  then have "\<exists>h. answer (earnings_history ?s sample_past) ?db = Inr h"
    using sample_past_params(2) sample_past_params(3)
    by (simp add: earnings_history_answer with_query_def fees_by_bucket_and_pool_def rewards_by_bucket_and_pool_def
        bond_rewards_by_bucket_def rune_price_now_def rune_price_at_def sample_app_def sample_state_def sample_config_def)
  then obtain h where h: "fst (earnings_history ?s sample_past (\<lambda>_. Inr ?db)) = Inr h"
    by (auto simp: answer_def)
  have sums: "chain_fees ?bs ''BTC.BTC'' 1 2 = 2" "chain_shares ?bs ''BTC.BTC'' 1 2 = 4" "chain_bond ?bs 1 2 = 6"
    by code_simp+
  have end2: "bu_start (one_bucket 1 2) = 1" "bu_end (one_bucket 1 2) = 2" by (simp_all add: one_bucket_def bu_start_def bu_end_def)
  from served_earnings_are_the_chains [OF sample_runnable sample_served_late sample_app_ok(1,2) sample_past_params(2)
      sample_past_params(4,3,5) h] sample_settled
  obtain usd where "earns wrap64 usd ?bs ?bs ?bs 1 2 (hi_meta h)"
    by (auto simp: Let_def sample_stored end2 dest: order_antisym)
  then obtain fees rewards where "hi_meta h = earnings_item usd 1 2 fees rewards 6"
    "amount_of fees ''BTC.BTC'' = wrap64 2" "amount_of rewards ''BTC.BTC'' = wrap64 4"
    by (auto simp: earns_def sums i64_ok_def)
  moreover have "wrap64 2 = 2" "wrap64 4 = 4" by (simp_all add: i64_ok_def)
  ultimately show ?thesis using h by metis
qed

end
