(* ===== verification/Spec2Isabelle.thy ===== *)
theory Spec2Isabelle
  imports Bucket_Properties Page_Properties Config_Properties Startup_Properties Service_Properties
begin

text \<open>
  A model of midgard-rs, the daemon that follows THORChain, writes what it decodes into TimescaleDB
  and answers queries about it over HTTP, with the properties that make it correct. Every definition
  is a translation of the Rust code it names, executable, and reads like it; this header says which
  theory models which part, what the lemmas show, and what is left out.

  \<^bold>\<open>The program.\<close> The sync loop (\<open>crates/midgard/src/sync.rs\<close>) asks the node for its tip, fetches
  blocks through the client (\<open>crates/midgard-chain\<close>), decodes their events and tracks the depths of the
  pools (\<open>crates/midgard-record\<close>), and writes events, depths and blocks in one transaction per batch
  (\<open>crates/midgard-db\<close>). The cursor over the block log says where to go on after a restart. The API
  (\<open>crates/midgard-api\<close>) reads the same tables: histories by calendar interval, the feed of actions,
  pools, members, network, statistics and health. The configuration (\<open>crates/midgard-config\<close>) comes from
  defaults, files and the environment. The two halves share the database, the cursor and the height of
  the chain, and nothing else.

  \<^bold>\<open>Foundations.\<close>
  \<^item> \<open>Prelude\<close>: \<open>i64\<close> as an integer with \<open>wrap64\<close> wherever the release build can wrap; \<open>Strings\<close>: results
    and the string functions of the standard library; \<open>F64\<close>: binary64 arithmetic, reading and printing,
    computed exactly; \<open>Json\<close>: values of \<open>serde_json\<close>.
  \<^item> \<open>Assets\<close>, \<open>Units\<close>: \<open>asset.rs\<close>, \<open>time.rs\<close>, \<open>units.rs\<close> and \<open>error.rs\<close> of \<open>crates/midgard-core\<close>.
  \<^item> \<open>Tables\<close>: rows, tables and transactions as \<open>sqlx\<close> shows them. A transaction commits, is rolled back,
    or commits with its acknowledgement lost.

  \<^bold>\<open>From the chain to the database.\<close>
  \<^item> \<open>Chain_Types\<close>, \<open>Rpc\<close>, \<open>Client\<close>, \<open>Thornode\<close>: \<open>types.rs\<close>, \<open>rpc.rs\<close>, \<open>client.rs\<close> and \<open>thornode.rs\<close>.
    The HTTP exchange and the decoding of its JSON are parameters; envelopes, batches answered in any
    order, ranges, retries and the iterator are modelled.
  \<^item> \<open>Coins\<close>, \<open>Events\<close>, \<open>Decoding\<close>: \<open>coin.rs\<close> and \<open>events.rs\<close>, one function for each kind of event.
  \<^item> \<open>Ledger\<close>, \<open>Depth\<close>: \<open>depth.rs\<close>. The locale \<open>ledger\<close> is what a tracker promises, a sum of postings
    modulo \<open>2^64\<close>; it is interpreted on \<open>apply_event\<close>.
  \<^item> \<open>Event_Ids\<close>: \<open>eventid.rs\<close>, with the locale of order-preserving encodings interpreted on \<open>to_i64\<close>.
  \<^item> \<open>Block_Log\<close>, \<open>Writer_Rows\<close>, \<open>Writer\<close>: \<open>block_log.rs\<close>, \<open>tables.rs\<close> and \<open>writer.rs\<close>.
  \<^item> \<open>Projection\<close>, \<open>Recovery\<close>, \<open>Writer_Runs\<close>: the abstract specification. \<open>projection bs\<close> is the database
    that the blocks \<open>bs\<close> determine; adding blocks, flushing, failing, restarting and rolling back are
    refinements of operations on \<open>bs\<close>.
  \<^item> \<open>Sync\<close>: \<open>sync.rs\<close>. \<open>sync_step\<close> is one iteration as a function of what the outside does during it,
    \<open>sync_reach\<close> the state machine of steps, crashes and restarts.
  \<^item> \<open>Daemon\<close>: the same loop cut into moves, each at most one transaction or one write of the cursor, with
    the last flush and the restarts of \<open>main\<close>; an iteration of \<open>Sync\<close> is a run of moves, and
    \<open>consistent\<close> is what holds between any two.
  \<^item> \<open>Startup\<close>: \<open>ddl.rs\<close>, \<open>bootstrap.rs\<close> and \<open>main\<close> up to the sync loop.

  \<^bold>\<open>The configuration.\<close> \<open>Config_Schema\<close> (\<open>schema.rs\<close>), \<open>Durations\<close> (\<open>duration.rs\<close>), \<open>Config_Wire\<close> (what
  \<open>serde\<close> derives), \<open>Config_Load\<close> (\<open>lib.rs\<close> and \<open>env.rs\<close>), \<open>Config_Layers\<close> (how merging and overriding act on
  the value at a path).

  \<^bold>\<open>From the database to the answers.\<close>
  \<^item> \<open>Civil\<close>, \<open>Calendar\<close>, \<open>Buckets\<close>: \<open>buckets.rs\<close>. The locale \<open>calendar\<close>, the edges of a kind
    of interval, is interpreted on \<open>truncate\<close> and \<open>advance\<close>.
  \<^item> \<open>Query\<close>, \<open>Cache\<close>, \<open>Models\<close>: \<open>query.rs\<close>, \<open>cache.rs\<close> and \<open>models.rs\<close>.
  \<^item> \<open>Requests\<close>: what handlers share. A handler makes several queries and blocks are committed meanwhile,
    so a request is a function of the database as it stands at each of its queries (\<open>reads\<close>), any of which
    may fail.
  \<^item> \<open>Histories\<close>: the locale \<open>bucket_totals\<close>, which relates a \<open>GROUP BY\<close> bucket to the sums over its rows;
    it is interpreted on swaps, liquidity, bond rewards and the sums of earnings.
  \<^item> \<open>Swap_History\<close>, \<open>Liquidity_History\<close>, \<open>Depth_History\<close>, \<open>Earnings_History\<close>, \<open>Earnings_Totals\<close>, \<open>Level_Reads\<close>,
    \<open>Actions_Feed\<close>, \<open>Pool_List\<close>, \<open>Members\<close>, \<open>Status_Pages\<close>: the files of \<open>handlers/\<close> and \<open>metrics.rs\<close>.
  \<^item> \<open>Chain_Events\<close>: from the rows back to the chain. The locale \<open>event_table\<close> relates a table to the events
    its rows come from, so that sums over the rows of a span are sums over the decoded events of the blocks of
    that time; it is interpreted on the tables of swaps, deposits, withdrawals and rewards.
  \<^item> \<open>Service\<close>: a request while the daemon runs. \<open>served\<close> says that its queries see the database between
    moves, \<open>settled_by\<close> when what is committed meanwhile no longer matters to them.
  \<^item> \<open>Router\<close>: the routes of \<open>crates/midgard-api/src/lib.rs\<close> and the JSON each handler answers with.

  \<^bold>\<open>What the properties show.\<close>
  \<^item> \<open>Pipeline_Properties\<close>: the database is the projection of an initial segment of the chain, each block
    once, through failed requests, cancellation, crashes and restarts; a step that is answered reaches the
    tip, and the loop that catches up ends; restarts restore the depths; rollbacks are exact; and the one way the promise breaks.
  \<^item> \<open>Service_Properties\<close>: the two halves together. Whatever the sync task does meanwhile, a request reads
    initial segments of the chain that only grow, its cursor less than a batch away; and the histories of
    swaps, depths, liquidity and earnings are those of the decoded chain.
  \<^item> \<open>Record_Properties\<close>: identifiers follow the order of execution; decoding refuses with the true reason
    and keeps amounts in range; no record is lost or doubled; depths are the sums of what is posted.
  \<^item> \<open>Bucket_Properties\<close>: boundaries are calendar edges, truncation and advance are exact, the data is
    covered, a count gives the last intervals.
  \<^item> \<open>History_Properties\<close>: the figures of an entry of the earnings add up.
  \<^item> \<open>Api_Properties\<close>, \<open>Page_Properties\<close>: refusal of unknown parameters, no leak of database errors, the
    cache, page tokens, numbers as text, bond figures, members, and two errors in figures.
  \<^item> \<open>Config_Properties\<close>, \<open>Startup_Properties\<close>: the ranking of the layers, the errors, the round trip; the
    schema and the seeded start.

  \<^bold>\<open>Parameters.\<close> The environment of a sync step, the answers of the database, \<open>date_trunc\<close> and the
  collation of PostgreSQL, the clock, the order in which a \<open>HashMap\<close> is walked, HTTP, reading files,
  JSON text, SHA-256 and the text of the schema are arguments. What is assumed of them is stated where
  it is used: \<open>utc\<close> for \<open>date_trunc\<close> (a server whose time zone is UTC), \<open>honest\<close> for the node (it serves
  one chain), \<open>responsive\<close> (it answers), \<open>ordered_objects\<close> for the reader of JSON.

  \<^bold>\<open>Bounds and fuel.\<close> \<open>catch_up_loop\<close> has one unit of fuel for each height and one for the end of the range;
  a property shows that more changes nothing. \<open>boundary_loop\<close> stops after 403 intervals, as the code
  does. \<open>shortest\<close> tries the seventeen digits that suffice for a binary64. All other loops end on a measure.

  \<^bold>\<open>Conventions.\<close> A string is a list of scalars below 256. Record fields carry a prefix where the source
  uses one name in several structs. \<open>Inl\<close> is the error of a result. Logging is not modelled.

  \<^bold>\<open>Not modelled.\<close> The tests; logging, signals, the listener and the shutdown of \<open>main.rs\<close>; the pool of
  connections; \<open>axum\<close> beyond the choice of a handler from the segments of the path; the printer of error
  chains (\<open>Display of Chain\<close> in \<open>error.rs\<close>); the SQL of \<open>ddl.sql\<close> beyond the names of its tables. The tasks
  of the daemon meet only in the database, the cursor and the published height. \<open>Daemon\<close> and \<open>Service\<close>
  interleave them at the grain of one transaction; that a process goes on after a transaction failed is
  left out there, because \<open>Pipeline_Properties\<close> shows what it then stores. A request takes the cursor as a
  whole; what a load that overlaps a store can read is in \<open>Block_Log\<close>. A start that seeds the depths is
  treated in \<open>Startup\<close>.
\<close>

end
